theory Spec2Isabelle
  imports Complex_Main
begin

section \<open>JavaScript values\<close>

text \<open>
  Values are modelled by identity where JavaScript compares by identity: an object (also an
  array) is \<open>JObj n\<close>, a function is \<open>JFun f\<close>, and equality of two such values is equality
  of their identities, as in \<open>===\<close> and in the keys of a \<open>Map\<close> or \<open>WeakMap\<close>. A function is
  either one the caller brought (\<open>Plain\<close>) or a \<open>CacheLayer\<close> allocated by \<open>CachedFunction\<close>
  (\<open>Wrapped\<close>, numbered by allocation). Numbers are the finite ones, as rationals.
\<close>

datatype fn = Plain nat | Wrapped nat

datatype val =
    JUndefined
  | JNull
  | JBool bool
  | JNum rat
  | JStr string
  | JObj nat
  | JFun fn

fun typeof :: "val \<Rightarrow> string" where
  "typeof JUndefined = ''undefined''"
| "typeof JNull = ''object''"
| "typeof (JBool b) = ''boolean''"
| "typeof (JNum q) = ''number''"
| "typeof (JStr s) = ''string''"
| "typeof (JObj n) = ''object''"
| "typeof (JFun f) = ''function''"

text \<open>Truthiness, as the \<open>if (strictArgMatch)\<close> of \<open>generateKey\<close> reads it.\<close>

fun truthy :: "val \<Rightarrow> bool" where
  "truthy JUndefined = False"
| "truthy JNull = False"
| "truthy (JBool b) = b"
| "truthy (JNum q) = (q \<noteq> 0)"
| "truthy (JStr s) = (s \<noteq> [])"
| "truthy (JObj n) = True"
| "truthy (JFun f) = True"

text \<open>Only objects and functions can be keys of a \<open>WeakMap\<close>.\<close>

fun is_object :: "val \<Rightarrow> bool" where
  "is_object (JObj n) = True"
| "is_object (JFun f) = True"
| "is_object v = False"

text \<open>The global object, which a call without receiver has as \<open>this\<close> inside CacheLayer.\<close>

definition global :: val where
  "global = JObj 0"

section \<open>Errors\<close>

text \<open>
  The error classes index.js throws, with their messages, and \<open>Thrown\<close> for whatever the
  underlying callable throws. The specification names them by role: \<open>InvalidArgument\<close> is a
  TypeError or a RangeError, \<open>UsageError\<close> the SyntaxError, \<open>NotCached\<close> the ReferenceError.
\<close>

datatype error =
    SyntaxError string
  | TypeError string
  | RangeError string
  | ReferenceError string
  | Thrown val

fun InvalidArgument :: "error \<Rightarrow> bool" where
  "InvalidArgument (TypeError m) = True"
| "InvalidArgument (RangeError m) = True"
| "InvalidArgument e = False"

fun UsageError :: "error \<Rightarrow> bool" where
  "UsageError (SyntaxError m) = True"
| "UsageError e = False"

fun NotCached :: "error \<Rightarrow> bool" where
  "NotCached (ReferenceError m) = True"
| "NotCached e = False"

section \<open>The predicates of check-types\<close>

text \<open>
  index.js validates with the check-types package: \<open>function\<close>, \<open>integer\<close>
  (a number with \<open>data % 1 === 0\<close>), \<open>positive\<close> (a number above zero), and the \<open>maybe\<close>
  modifier, which accepts \<open>undefined\<close> and \<open>null\<close> before it asks the predicate.
\<close>

definition check_function :: "val \<Rightarrow> bool" where
  "check_function v = (typeof v = ''function'')"

fun check_integer :: "val \<Rightarrow> bool" where
  "check_integer (JNum q) = (of_int \<lfloor>q\<rfloor> = q)"
| "check_integer v = False"

fun check_positive :: "val \<Rightarrow> bool" where
  "check_positive (JNum q) = (0 < q)"
| "check_positive v = False"

definition check_maybe :: "(val \<Rightarrow> bool) \<Rightarrow> val \<Rightarrow> bool" where
  "check_maybe p v = (if v = JUndefined \<or> v = JNull then True else p v)"

section \<open>Options, closures and the stores\<close>

text \<open>
  An options object, read through its two properties; a property that is missing reads
  \<open>undefined\<close>.
\<close>

record options =
  opt_strictArgMatch :: val
  opt_ttl :: val

text \<open>
  The second argument of \<open>CachedFunction\<close> as line 51 binds it: an object with its two
  properties, or a value on which both properties read \<open>undefined\<close>, namely \<open>undefined\<close>
  itself (which takes the default \<open>{}\<close>), a boolean, a number, a string or an object that
  has neither property; or \<open>null\<close>, which cannot be destructured.
\<close>

datatype config = Value val | Options options

text \<open>
  \<open>{strictArgMatch = true, ttl} = {}\<close> of line 51, and \<open>arguments[1] || {}\<close> of line 92 as
  far as line 171 reads it.
\<close>

definition strict_of :: "config \<Rightarrow> val" where
  "strict_of arg1 =
     (case arg1 of
        Value v \<Rightarrow> JBool True
      | Options opts \<Rightarrow> if opt_strictArgMatch opts = JUndefined then JBool True
                        else opt_strictArgMatch opts)"

definition ttl_of :: "config \<Rightarrow> val" where
  "ttl_of arg1 = (case arg1 of Value v \<Rightarrow> JUndefined | Options opts \<Rightarrow> opt_ttl opts)"

definition options_of :: "config \<Rightarrow> options" where
  "options_of arg1 =
     (case arg1 of
        Value v \<Rightarrow> \<lparr>opt_strictArgMatch = JUndefined, opt_ttl = JUndefined\<rparr>
      | Options opts \<Rightarrow> opts)"

text \<open>The variables a CacheLayer closes over (index.js lines 51 and 67).\<close>

record closure =
  valueGetter :: val
  strictArgMatch :: val
  ttl :: val
  cachedFunction :: val

text \<open>
  A key is the array \<open>generateKey\<close> returns. A MultiKeyMap compares keys part by part as a
  \<open>Map\<close> does, which on the values above is equality, so it is a map from keys.
\<close>

type_synonym key = "val list"

record TTLMap =
  m_values :: "key \<rightharpoonup> val"
  m_ttls :: "key \<rightharpoonup> rat"

text \<open>
  The receiver a store belongs to: the private object \<open>noThis\<close> of index.js line 17, which
  no caller can hold, or the receiver itself.
\<close>

datatype ctx = noThis | This val

fun weak_key :: "ctx \<Rightarrow> bool" where
  "weak_key noThis = True"
| "weak_key (This v) = is_object v"

text \<open>
  The state of the module: its three WeakMaps, the closures allocated so far and the
  allocation counter, the clock, and, for the underlying callables, their own state
  \<open>user\<close> and the log \<open>calls\<close> of every invocation of one (callee, receiver, arguments).
\<close>

record 'u state =
  cachedFunctions :: "val \<rightharpoonup> (string \<rightharpoonup> val)"
  cachedFunctionOptions :: "val \<rightharpoonup> options"
  cachedValues :: "val \<rightharpoonup> (ctx \<rightharpoonup> TTLMap)"
  closures :: "nat \<rightharpoonup> closure"
  next_fn :: nat
  now :: rat
  user :: 'u
  calls :: "(val \<times> val \<times> val list) list"

definition init :: "'u \<Rightarrow> 'u state" where
  "init u = \<lparr>cachedFunctions = Map.empty, cachedFunctionOptions = Map.empty,
     cachedValues = Map.empty, closures = Map.empty, next_fn = 0, now = 0,
     user = u, calls = []\<rparr>"

definition tick :: "rat \<Rightarrow> 'u state \<Rightarrow> 'u state" where
  "tick d s = s\<lparr>now := now s + d\<rparr>"

section \<open>What the module takes from outside\<close>

text \<open>
  A property as \<open>get-descriptor\<close> finds it on an object or its prototypes: a data property
  with its value, or an accessor with its getter (\<open>undefined\<close> when it has none).
\<close>

datatype descriptor = Data val | Accessor val

text \<open>
  The environment of a call: the serialization behind maybe-stringify (\<open>None\<close> where a
  value has no JSON text), for arguments and for an options object; the body of every
  callable, a function of the callee, the receiver, the arguments and the callables' own
  state, returning or throwing; the properties of the objects and the elements of those
  that are arrays; the \<open>name\<close> of every callable, a string as it is for every function
  whose \<open>name\<close> has not been redefined; and the names under which the named-function
  package, which is not in the repository, builds a function instead of throwing (an
  implementation that never throws accepts every name). An underlying callable is
  opaque: one that calls back into this module is outside the model.
\<close>

record 'u env =
  stringify :: "val \<Rightarrow> string option"
  stringify_options :: "options \<Rightarrow> string option"
  body :: "val \<Rightarrow> val \<Rightarrow> val list \<Rightarrow> 'u \<Rightarrow> (error + val) \<times> 'u"
  property :: "nat \<Rightarrow> string \<Rightarrow> descriptor option"
  elements :: "nat \<rightharpoonup> val list"
  function_name :: "val \<Rightarrow> string"
  NamedFunction_accepts :: "string \<Rightarrow> bool"

text \<open>
  Modelled from the spec: maybe-stringify is not in the repository. Section 6 of the
  specification: \<open>serialize(value) -> string\<close>, deterministic, producing a sentinel rather
  than failing on input that cannot be serialized. The sentinel is the \<open>fallback\<close> the
  caller passes: \<open>undefined\<close> in \<open>generateKey\<close>, the empty string for the options.
\<close>

definition maybeStringify :: "'u env \<Rightarrow> val \<Rightarrow> val \<Rightarrow> val" where
  "maybeStringify env data fallback =
     (case stringify env data of Some str \<Rightarrow> JStr str | None \<Rightarrow> fallback)"

text \<open>
  \<open>maybeStringify(arguments[1], {fallback: ''})\<close> of index.js line 56: an absent second
  argument has no JSON text and gets the fallback, the marker of the empty configuration.
\<close>

definition paramsKey :: "'u env \<Rightarrow> config \<Rightarrow> string" where
  "paramsKey env arg1 =
     (case arg1 of
        Value v \<Rightarrow>
          (if v = JUndefined then []
           else case stringify env v of Some str \<Rightarrow> str | None \<Rightarrow> [])
      | Options opts \<Rightarrow> (case stringify_options env opts of Some str \<Rightarrow> str | None \<Rightarrow> []))"

section \<open>generateKey\<close>

text \<open>
  index.js lines 29 to 33. The parameter default \<open>strictArgMatch = true\<close> applies when the
  argument is \<open>undefined\<close>.
\<close>

definition generateKey :: "'u env \<Rightarrow> val list \<Rightarrow> val \<Rightarrow> key" where
  "generateKey env args strictArgMatch_arg =
     (let strict = (if strictArgMatch_arg = JUndefined then JBool True else strictArgMatch_arg)
      in if truthy strict then args
         else map (\<lambda>arg. maybeStringify env arg JUndefined) args)"

section \<open>The TTL store\<close>

text \<open>
  Modelled from the spec: the ttlmap package is not in the repository. Section 4.2:
  \<open>set\<close> with no ttl stores the value with no expiration; \<open>set\<close> with a ttl computes the
  absolute deadline now + ttl at insertion; \<open>get\<close> and \<open>has\<close> after the deadline behave as
  if the entry did not exist and remove it; \<open>delete\<close> removes exactly that entry. Section 8
  places the deadline itself on the expired side (a miss once the ttl has elapsed).
\<close>

definition new_TTLMap :: TTLMap where
  "new_TTLMap = \<lparr>m_values = Map.empty, m_ttls = Map.empty\<rparr>"

definition TTLMap_delete :: "TTLMap \<Rightarrow> key \<Rightarrow> TTLMap" where
  "TTLMap_delete m k = m\<lparr>m_values := (m_values m)(k := None), m_ttls := (m_ttls m)(k := None)\<rparr>"

definition expired :: "rat \<Rightarrow> TTLMap \<Rightarrow> key \<Rightarrow> bool" where
  "expired t m k = (case m_ttls m k of None \<Rightarrow> False | Some deadline \<Rightarrow> deadline \<le> t)"

definition TTLMap_has :: "rat \<Rightarrow> TTLMap \<Rightarrow> key \<Rightarrow> bool \<times> TTLMap" where
  "TTLMap_has t m k =
     (if expired t m k then (False, TTLMap_delete m k)
      else (m_values m k \<noteq> None, m))"

definition TTLMap_get :: "rat \<Rightarrow> TTLMap \<Rightarrow> key \<Rightarrow> val \<times> TTLMap" where
  "TTLMap_get t m k =
     (if expired t m k then (JUndefined, TTLMap_delete m k)
      else (case m_values m k of None \<Rightarrow> (JUndefined, m) | Some v \<Rightarrow> (v, m)))"

definition TTLMap_set :: "rat \<Rightarrow> TTLMap \<Rightarrow> key \<Rightarrow> val \<Rightarrow> val \<Rightarrow> TTLMap" where
  "TTLMap_set t m k v ttl_arg =
     m\<lparr>m_values := (m_values m)(k \<mapsto> v),
       m_ttls := (case ttl_arg of
                    JNum q \<Rightarrow> (m_ttls m)(k \<mapsto> t + q)
                  | _ \<Rightarrow> (m_ttls m)(k := None))\<rparr>"

section \<open>CacheLayer\<close>

text \<open>
  Writing the store of a receiver back into \<open>cachedValues\<close>: the stores are objects that
  index.js mutates in place.
\<close>

definition put_store :: "val \<Rightarrow> ctx \<Rightarrow> TTLMap \<Rightarrow> 'u state \<Rightarrow> 'u state" where
  "put_store f c m s =
     s\<lparr>cachedValues := (cachedValues s)
         (f \<mapsto> (case cachedValues s f of None \<Rightarrow> Map.empty | Some by_ctx \<Rightarrow> by_ctx)(c \<mapsto> m))\<rparr>"

text \<open>\<open>valueGetter.apply(this, arguments)\<close>: the body runs on the callables' state and is logged.\<close>

definition apply_body ::
  "'u env \<Rightarrow> val \<Rightarrow> val \<Rightarrow> val list \<Rightarrow> 'u state \<Rightarrow> (error + val) \<times> 'u state" where
  "apply_body env f this_arg args s =
     (case body env f this_arg args (user s) of
        (r, u) \<Rightarrow> (r, s\<lparr>user := u, calls := calls s @ [(f, this_arg, args)]\<rparr>))"

text \<open>\<open>const context = this === global ? noThis : this\<close> (line 69).\<close>

definition context_of :: "val \<Rightarrow> ctx" where
  "context_of this_arg = (if this_arg = global then noThis else This this_arg)"

text \<open>
  index.js lines 67 to 89, for the closure \<open>c\<close>. A \<open>WeakMap\<close> has no entry for a key that is
  not an object and throws when asked to set one.
\<close>

definition CacheLayer ::
  "'u env \<Rightarrow> closure \<Rightarrow> val \<Rightarrow> val list \<Rightarrow> 'u state \<Rightarrow> (error + val) \<times> 'u state" where
  "CacheLayer env c this_arg args s =
     (let context = context_of this_arg in
      case cachedValues s (cachedFunction c) of
        None \<Rightarrow> (Inl (TypeError ''Cannot read properties of undefined''), s)
      | Some by_ctx \<Rightarrow>
          if by_ctx context = None \<and> \<not> weak_key context
          then (Inl (TypeError ''Invalid value used as weak map key''), s)
          else
            let valuesForThis = (case by_ctx context of None \<Rightarrow> new_TTLMap | Some m \<Rightarrow> m);
                k = generateKey env args (strictArgMatch c)
            in case TTLMap_has (now s) valuesForThis k of
                 (True, m1) \<Rightarrow>
                   (case TTLMap_get (now s) m1 k of
                      (v, m2) \<Rightarrow> (Inr v, put_store (cachedFunction c) context m2 s))
               | (False, m1) \<Rightarrow>
                   (case apply_body env (valueGetter c) this_arg args
                           (put_store (cachedFunction c) context m1 s) of
                      (Inl e, s1) \<Rightarrow> (Inl e, s1)
                    | (Inr v, s1) \<Rightarrow>
                        (Inr v, put_store (cachedFunction c) context
                                  (TTLMap_set (now s) m1 k v (ttl c)) s1)))"

text \<open>
  Calling a function value: a CacheLayer runs its closure, any other function its body.
  What is not a function (the getter of an accessor without one) yields \<open>undefined\<close>.
\<close>

definition call ::
  "'u env \<Rightarrow> val \<Rightarrow> val \<Rightarrow> val list \<Rightarrow> 'u state \<Rightarrow> (error + val) \<times> 'u state" where
  "call env f this_arg args s =
     (case f of
        JFun (Wrapped i) \<Rightarrow>
          (case closures s i of
             Some c \<Rightarrow> CacheLayer env c this_arg args s
           | None \<Rightarrow> apply_body env f this_arg args s)
      | JFun (Plain n) \<Rightarrow> apply_body env f this_arg args s
      | _ \<Rightarrow> (Inr JUndefined, s))"

section \<open>CachedFunction\<close>

text \<open>
  \<open>cachedFunctions.has(valueGetter) && cachedFunctions.get(valueGetter).has(paramsKey)\<close> and
  the \<open>get\<close> that follows it (lines 57 and 58).
\<close>

definition registered :: "'u state \<Rightarrow> val \<Rightarrow> string \<Rightarrow> val option" where
  "registered s getter pk =
     (case cachedFunctions s getter of None \<Rightarrow> None | Some by_params \<Rightarrow> by_params pk)"

text \<open>\<open>valueGetter.name.replace(getRegex, '')\<close> with \<open>getRegex = /^get /\<close> (lines 18 and 66).\<close>

definition strip_get :: "string \<Rightarrow> string" where
  "strip_get name = (if take 4 name = ''get '' then drop 4 name else name)"

text \<open>
  index.js lines 51 to 100. \<open>this_arg\<close> is the \<open>this\<close> of the call: \<open>undefined\<close> for a direct
  call, the fresh object for a call with \<open>new\<close>. Binding the parameters comes first: the
  destructuring of line 51 throws a TypeError for \<open>null\<close>, before the check of line 52.
  Line 67 hands the name of the callable, less a leading \<open>get \<close>, to NamedFunction, which
  throws where it cannot build a function of that name; nothing has been stored by then.
  The messages of these two errors are the engine's and the package's; the model fixes
  one for each.
\<close>

definition CachedFunction ::
  "'u env \<Rightarrow> val \<Rightarrow> val \<Rightarrow> config \<Rightarrow> 'u state \<Rightarrow> (error + val) \<times> 'u state" where
  "CachedFunction env this_arg getter arg1 s =
     (if arg1 = Value JNull
      then (Inl (TypeError ''Cannot destructure the second argument as it is null''), s)
      else
        let strict = strict_of arg1;
            ttl_arg = ttl_of arg1
        in if typeof this_arg \<noteq> ''undefined''
           then (Inl (SyntaxError ''Do not call CachedFunction with `new`. Call it directly.''), s)
           else
             let pk = paramsKey env arg1 in
             case registered s getter pk of
               Some existing \<Rightarrow> (Inr existing, s)
             | None \<Rightarrow>
                 if \<not> check_function getter
                 then (Inl (TypeError ''valueGetter must be a function''), s)
                 else if \<not> check_maybe check_integer ttl_arg
                 then (Inl (TypeError ''ttl must be a positive integer''), s)
                 else if \<not> check_maybe check_positive ttl_arg
                 then (Inl (RangeError ''ttl must be a positive integer''), s)
                 else
                   let functionName = strip_get (function_name env getter) in
                   if \<not> NamedFunction_accepts env functionName
                   then (Inl (SyntaxError ''NamedFunction cannot compile a function of this name''), s)
                   else
                     let i = next_fn s;
                         cf = JFun (Wrapped i);
                         c = \<lparr>valueGetter = getter, strictArgMatch = strict, ttl = ttl_arg,
                              cachedFunction = cf\<rparr>
                     in (Inr cf,
                         s\<lparr>closures := (closures s)(i \<mapsto> c),
                           next_fn := Suc i,
                           cachedValues := (cachedValues s)(cf \<mapsto> Map.empty),
                           cachedFunctionOptions := (cachedFunctionOptions s)(cf \<mapsto> options_of arg1),
                           cachedFunctions := (cachedFunctions s)
                             (getter \<mapsto> (case cachedFunctions s getter of
                                           None \<Rightarrow> Map.empty
                                         | Some by_params \<Rightarrow> by_params)(pk \<mapsto> cf))\<rparr>))"

section \<open>clearCache\<close>

text \<open>
  The argument list as clearCache looks at it: \<open>undefined\<close>, \<open>null\<close> (which
  \<open>check.assert.maybe.array\<close> lets through), an array with its elements, or anything else.
\<close>

datatype arglist = ArgsUndefined | ArgsNull | ArgsArray "val list" | ArgsOther

definition view_args :: "'u env \<Rightarrow> val \<Rightarrow> arglist" where
  "view_args env v =
     (case v of
        JUndefined \<Rightarrow> ArgsUndefined
      | JNull \<Rightarrow> ArgsNull
      | JObj n \<Rightarrow> (case elements env n of Some xs \<Rightarrow> ArgsArray xs | None \<Rightarrow> ArgsOther)
      | _ \<Rightarrow> ArgsOther)"

text \<open>
  index.js lines 161 to 173, once \<open>cachedFunction\<close>, \<open>context\<close> and \<open>args\<close> are settled.
  \<open>Array.from(null)\<close> in \<open>generateKey\<close> throws a TypeError.
\<close>

definition clear_entries ::
  "'u env \<Rightarrow> val \<Rightarrow> ctx \<Rightarrow> arglist \<Rightarrow> 'u state \<Rightarrow> (error + unit) \<times> 'u state" where
  "clear_entries env cf context args s =
     (case cachedValues s cf of
        None \<Rightarrow> (Inl (ReferenceError ''Function is not cached.''), s)
      | Some by_ctx \<Rightarrow>
          if args = ArgsOther
          then (Inl (TypeError ''Arguments must be passed as an array''), s)
          else
            (case by_ctx context of
               None \<Rightarrow> (Inr (), s)
             | Some m \<Rightarrow>
                 (case args of
                    ArgsUndefined \<Rightarrow> (Inr (), s\<lparr>cachedValues := (cachedValues s)(cf \<mapsto> by_ctx(context := None))\<rparr>)
                  | ArgsNull \<Rightarrow> (Inl (TypeError ''object null is not iterable''), s)
                  | ArgsArray xs \<Rightarrow>
                      (case cachedFunctionOptions s cf of
                         None \<Rightarrow> (Inl (TypeError ''Cannot read properties of undefined''), s)
                       | Some opts \<Rightarrow>
                           (Inr (), put_store cf context
                              (TTLMap_delete m (generateKey env xs (opt_strictArgMatch opts))) s))
                  | ArgsOther \<Rightarrow> (Inl (TypeError ''Arguments must be passed as an array''), s))))"

text \<open>
  Reading \<open>objectOrFunction[methodName]\<close> (line 144): a data property gives its value, an
  accessor runs its getter with the object as receiver, a missing property is \<open>undefined\<close>.
\<close>

definition read_property ::
  "'u env \<Rightarrow> nat \<Rightarrow> string \<Rightarrow> 'u state \<Rightarrow> (error + val) \<times> 'u state" where
  "read_property env n name s =
     (case property env n name of
        None \<Rightarrow> (Inr JUndefined, s)
      | Some (Data v) \<Rightarrow> (Inr v, s)
      | Some (Accessor g) \<Rightarrow> call env g (JObj n) [] s)"

text \<open>
  index.js lines 135 to 174. The member is read at line 144 for its \<open>typeof\<close> and, when
  that is \<open>'function'\<close>, once more at line 145. Reading a property of \<open>null\<close>, whose
  \<open>typeof\<close> is \<open>'object'\<close>, throws a TypeError.
\<close>

definition clearCache ::
  "'u env \<Rightarrow> val \<Rightarrow> val \<Rightarrow> val \<Rightarrow> 'u state \<Rightarrow> (error + unit) \<times> 'u state" where
  "clearCache env objectOrFunction methodName args s =
     (if typeof objectOrFunction = ''object'' then
        (case (methodName, objectOrFunction) of
           (JStr name, JObj n) \<Rightarrow>
             (case read_property env n name s of
                (Inl e, s1) \<Rightarrow> (Inl e, s1)
              | (Inr member, s1) \<Rightarrow>
                  if typeof member = ''function''
                  then
                    (case read_property env n name s1 of
                       (Inl e, s2) \<Rightarrow> (Inl e, s2)
                     | (Inr cf, s2) \<Rightarrow>
                         clear_entries env cf (This objectOrFunction) (view_args env args) s2)
                  else
                    (case property env n name of
                       None \<Rightarrow>
                         (Inl (ReferenceError (''Could not find a method named '' @ [CHR 0x27] @ name @ [CHR 0x27])), s1)
                     | Some (Data v) \<Rightarrow>
                         clear_entries env JUndefined (This objectOrFunction) (ArgsArray []) s1
                     | Some (Accessor g) \<Rightarrow>
                         clear_entries env g (This objectOrFunction) (ArgsArray []) s1))
         | (JStr name, _) \<Rightarrow> (Inl (TypeError ''Cannot read properties of null''), s)
         | _ \<Rightarrow> (Inl (TypeError ''Must provide a method name if first argument is an object''), s))
      else if \<not> check_function objectOrFunction
      then (Inl (TypeError ''First argument must be a function or object''), s)
      else clear_entries env objectOrFunction noThis (view_args env methodName) s)"

section \<open>Reading the state\<close>

text \<open>The closure behind a function value, when it is a CacheLayer of this module.\<close>

definition closure_of :: "'u state \<Rightarrow> val \<Rightarrow> closure option" where
  "closure_of s f = (case f of JFun (Wrapped i) \<Rightarrow> closures s i | _ \<Rightarrow> None)"

text \<open>The store of a receiver, and what a caller can get out of a store at a time.\<close>

definition store_of :: "'u state \<Rightarrow> val \<Rightarrow> ctx \<Rightarrow> TTLMap option" where
  "store_of s f c = (case cachedValues s f of None \<Rightarrow> None | Some by_ctx \<Rightarrow> by_ctx c)"

definition cached :: "rat \<Rightarrow> TTLMap \<Rightarrow> key \<Rightarrow> val option" where
  "cached t m k = (if expired t m k then None else m_values m k)"

definition lookup :: "'u state \<Rightarrow> val \<Rightarrow> ctx \<Rightarrow> key \<Rightarrow> val option" where
  "lookup s f c k = (case store_of s f c of None \<Rightarrow> None | Some m \<Rightarrow> cached (now s) m k)"

text \<open>What a store physically holds under a key: the value and the deadline.\<close>

definition entry :: "'u state \<Rightarrow> val \<Rightarrow> ctx \<Rightarrow> key \<Rightarrow> val option \<times> rat option" where
  "entry s f c k =
     (case store_of s f c of None \<Rightarrow> (None, None) | Some m \<Rightarrow> (m_values m k, m_ttls m k))"

text \<open>
  What holds of every state the module reaches: a registered wrapper is a CacheLayer whose
  closure holds the callable it is registered under; a closure is older than the
  allocation counter, knows its own function, has its map of stores and its options
  (line 91 and 92), from which its matching mode was read, and holds a ttl that passed the
  checks of lines 62 and 63; only CacheLayers have a map of stores; and a wrapper is
  registered under one serialized configuration only.
\<close>

definition wf :: "'u state \<Rightarrow> bool" where
  "wf s \<longleftrightarrow>
     (\<forall>g by_params pk w. cachedFunctions s g = Some by_params \<longrightarrow> by_params pk = Some w \<longrightarrow>
        check_function g \<and> (\<exists>c. closure_of s w = Some c \<and> valueGetter c = g)) \<and>
     (\<forall>i c. closures s i = Some c \<longrightarrow>
        i < next_fn s \<and> cachedFunction c = JFun (Wrapped i) \<and>
        cachedValues s (JFun (Wrapped i)) \<noteq> None \<and>
        (\<exists>opts. cachedFunctionOptions s (JFun (Wrapped i)) = Some opts \<and>
           strictArgMatch c = (if opt_strictArgMatch opts = JUndefined then JBool True
                               else opt_strictArgMatch opts)) \<and>
        check_maybe check_integer (ttl c) \<and> check_maybe check_positive (ttl c)) \<and>
     (\<forall>f. cachedValues s f \<noteq> None \<longrightarrow> closure_of s f \<noteq> None) \<and>
     (\<forall>g by_params pk pk' w. cachedFunctions s g = Some by_params \<longrightarrow>
        by_params pk = Some w \<longrightarrow> by_params pk' = Some w \<longrightarrow> pk = pk')"

section \<open>The callables and values of the test suite\<close>

text \<open>
  The tests of the repository wrap a few small callables; they serve here as concrete
  inputs. Their shared state is the counter \<open>callbackCalls\<close>. \<open>Plain 1\<close> is the callback
  returning \<open>'value'\<close>, \<open>Plain 2\<close> is \<open>add\<close>, \<open>Plain 3\<close> is \<open>key => key\<close>, \<open>Plain 4\<close> is
  \<open>function callback () {}\<close>, which returns \<open>undefined\<close>, \<open>Plain 5\<close> is the getter of
  \<open>data\<close>, \<open>Plain 6\<close> a callable that throws, and \<open>Plain 7\<close> the method \<open>data\<close> that returns
  the \<open>value\<close> of its receiver. \<open>Plain 8\<close> is \<open>add.bind(null)\<close>, whose name \<open>bound add\<close> is no
  identifier.
\<close>

definition test_function_name :: "val \<Rightarrow> string" where
  "test_function_name f =
     (if f = JFun (Plain 1) \<or> f = JFun (Plain 4) \<or> f = JFun (Plain 6) then ''callback''
      else if f = JFun (Plain 2) then ''add''
      else if f = JFun (Plain 5) then ''get data''
      else if f = JFun (Plain 7) then ''data''
      else if f = JFun (Plain 8) then ''bound add''
      else [])"

definition test_accepts :: "string \<Rightarrow> bool" where
  "test_accepts name = (name = [] \<or> name = ''callback'' \<or> name = ''add'' \<or> name = ''data'')"

fun test_body :: "val \<Rightarrow> val \<Rightarrow> val list \<Rightarrow> nat \<Rightarrow> (error + val) \<times> nat" where
  "test_body (JFun (Plain n)) this_arg args callbackCalls =
     (if n = 1 then (Inr (JStr ''value''), Suc callbackCalls)
      else if n = 2 then
        (case args of
           [JNum a, JNum b] \<Rightarrow> (Inr (JNum (a + b)), Suc callbackCalls)
         | _ \<Rightarrow> (Inr JUndefined, Suc callbackCalls))
      else if n = 3 then
        (case args of
           [] \<Rightarrow> (Inr JUndefined, Suc callbackCalls)
         | k # rest \<Rightarrow> (Inr k, Suc callbackCalls))
      else if n = 5 then (Inr (JStr ''value''), Suc callbackCalls)
      else if n = 6 then (Inl (Thrown (JStr ''Callback was called again'')), Suc callbackCalls)
      else if n = 7 then
        (if this_arg = JObj 6 then (Inr (JStr ''value1''), Suc callbackCalls)
         else if this_arg = JObj 7 then (Inr (JStr ''value2''), Suc callbackCalls)
         else (Inr JUndefined, Suc callbackCalls))
      else (Inr JUndefined, Suc callbackCalls))"
| "test_body f this_arg args callbackCalls = (Inr JUndefined, callbackCalls)"

text \<open>
  The objects: \<open>JObj 1\<close> and \<open>JObj 2\<close> are two arrays \<open>['test']\<close>, \<open>JObj 3\<close> is \<open>[2, 2]\<close>,
  \<open>JObj 4\<close> is \<open>[5, 5]\<close>, \<open>JObj 5\<close> is \<open>[]\<close>; \<open>JObj 6\<close> and \<open>JObj 7\<close> are two instances
  of a class whose method \<open>data\<close> is the wrapper \<open>Wrapped 0\<close>; \<open>JObj 8\<close> is an instance of
  a class whose property \<open>data\<close> has the wrapper \<open>Wrapped 0\<close> as its getter, and \<open>JObj 10\<close>
  one whose property \<open>data\<close> has the callback \<open>Plain 1\<close>, which is no wrapper, as its getter.
\<close>

definition test_elements :: "nat \<rightharpoonup> val list" where
  "test_elements = [1 \<mapsto> [JStr ''test''], 2 \<mapsto> [JStr ''test''], 3 \<mapsto> [JNum 2, JNum 2],
     4 \<mapsto> [JNum 5, JNum 5], 5 \<mapsto> []]"

definition test_property :: "nat \<Rightarrow> string \<Rightarrow> descriptor option" where
  "test_property n name =
     (if name = ''data'' \<and> (n = 6 \<or> n = 7) then Some (Data (JFun (Wrapped 0)))
      else if name = ''data'' \<and> n = 8 then Some (Accessor (JFun (Wrapped 0)))
      else if name = ''data'' \<and> n = 10 then Some (Accessor (JFun (Plain 1)))
      else None)"

text \<open>The JSON text of the arrays \<open>['test']\<close> and of a string; nothing else is needed.\<close>

fun test_stringify :: "val \<Rightarrow> string option" where
  "test_stringify (JObj n) =
     (if n = 1 \<or> n = 2 then Some (''['' @ [CHR 0x22] @ ''test'' @ [CHR 0x22] @ '']'') else None)"
| "test_stringify (JStr s) = Some ([CHR 0x22] @ s @ [CHR 0x22])"
| "test_stringify v = None"

text \<open>
  The JSON text of the options \<open>{ttl: 10}\<close>, \<open>{ttl: 100}\<close>, \<open>{ttl: null}\<close> and
  \<open>{strictArgMatch: false}\<close>. Every other options object stands for one that cannot be
  serialized, such as an object that holds a reference to itself.
\<close>

definition test_stringify_options :: "options \<Rightarrow> string option" where
  "test_stringify_options opts =
     (if opts = \<lparr>opt_strictArgMatch = JUndefined, opt_ttl = JNum 10\<rparr>
      then Some (''{'' @ [CHR 0x22] @ ''ttl'' @ [CHR 0x22] @ '':10}'')
      else if opts = \<lparr>opt_strictArgMatch = JUndefined, opt_ttl = JNum 100\<rparr>
      then Some (''{'' @ [CHR 0x22] @ ''ttl'' @ [CHR 0x22] @ '':100}'')
      else if opts = \<lparr>opt_strictArgMatch = JUndefined, opt_ttl = JNull\<rparr>
      then Some (''{'' @ [CHR 0x22] @ ''ttl'' @ [CHR 0x22] @ '':null}'')
      else if opts = \<lparr>opt_strictArgMatch = JBool False, opt_ttl = JUndefined\<rparr>
      then Some (''{'' @ [CHR 0x22] @ ''strictArgMatch'' @ [CHR 0x22] @ '':false}'')
      else None)"

definition test_env :: "nat env" where
  "test_env = \<lparr>stringify = test_stringify, stringify_options = test_stringify_options,
     body = test_body, property = test_property, elements = test_elements,
     function_name = test_function_name, NamedFunction_accepts = test_accepts\<rparr>"

text \<open>
  States of the test suite: \<open>s_add\<close> once \<open>CachedFunction(add)\<close> has returned, \<open>s_add22\<close> once
  \<open>cachedAdd(2, 2)\<close> has.
\<close>

definition s_add :: "nat state" where
  "s_add = snd (CachedFunction test_env JUndefined (JFun (Plain 2)) (Value JUndefined) (init 0))"

definition s_add22 :: "nat state" where
  "s_add22 = snd (call test_env (JFun (Wrapped 0)) global [JNum 2, JNum 2] s_add)"

text \<open>
  \<open>s_cb\<close> once \<open>CachedFunction(callback)\<close> has returned for the callback that returns
  \<open>undefined\<close>, \<open>s_cb_called\<close> once that wrapper has been called with no arguments.
\<close>

definition s_cb :: "nat state" where
  "s_cb = snd (CachedFunction test_env JUndefined (JFun (Plain 4)) (Value JUndefined) (init 0))"

definition s_cb_called :: "nat state" where
  "s_cb_called = snd (call test_env (JFun (Wrapped 0)) global [] s_cb)"

text \<open>
  The test of \<open>strictArgMatch\<close>: \<open>s_strict\<close> once \<open>CachedFunction(key => key)\<close> has returned,
  \<open>s_loose\<close> once \<open>CachedFunction(key => key, {strictArgMatch: false})\<close> has, and
  \<open>s_strict1\<close>, \<open>s_loose1\<close> once the wrapper has been called with the first array.
\<close>

definition s_strict :: "nat state" where
  "s_strict = snd (CachedFunction test_env JUndefined (JFun (Plain 3)) (Value JUndefined) (init 0))"

definition s_strict1 :: "nat state" where
  "s_strict1 = snd (call test_env (JFun (Wrapped 0)) global [JObj 1] s_strict)"

definition s_loose :: "nat state" where
  "s_loose = snd (CachedFunction test_env JUndefined (JFun (Plain 3))
       (Options \<lparr>opt_strictArgMatch = JBool False, opt_ttl = JUndefined\<rparr>) (init 0))"

definition s_loose1 :: "nat state" where
  "s_loose1 = snd (call test_env (JFun (Wrapped 0)) global [JObj 1] s_loose)"

text \<open>
  The test of the ttl: \<open>s_ttl\<close> once \<open>CachedFunction(add, {ttl: 10})\<close> has returned,
  \<open>s_ttl1\<close> once \<open>cachedCallback(2, 2)\<close> has.
\<close>

definition s_ttl :: "nat state" where
  "s_ttl = snd (CachedFunction test_env JUndefined (JFun (Plain 2))
       (Options \<lparr>opt_strictArgMatch = JUndefined, opt_ttl = JNum 10\<rparr>) (init 0))"

definition s_ttl1 :: "nat state" where
  "s_ttl1 = snd (call test_env (JFun (Wrapped 0)) global [JNum 2, JNum 2] s_ttl)"

text \<open>
  The test of the class prototype: \<open>s_method\<close> once \<open>CachedFunction(TestClass.prototype.data)\<close>
  has returned, \<open>s_method1\<close> once \<open>test1.data()\<close> has, for the instance \<open>JObj 6\<close>.
\<close>

definition s_method :: "nat state" where
  "s_method = snd (CachedFunction test_env JUndefined (JFun (Plain 7)) (Value JUndefined) (init 0))"

definition s_method1 :: "nat state" where
  "s_method1 = snd (call test_env (JFun (Wrapped 0)) (JObj 6) [] s_method)"

text \<open>
  The example of the readme: \<open>s_add55\<close> once \<open>add(5, 5)\<close> has been called after
  \<open>CachedFunction(add)\<close>, \<open>s_add5522\<close> once \<open>add(2, 2)\<close> has been called after that.
\<close>

definition s_add55 :: "nat state" where
  "s_add55 = snd (call test_env (JFun (Wrapped 0)) global [JNum 5, JNum 5] s_add)"

definition s_add5522 :: "nat state" where
  "s_add5522 = snd (call test_env (JFun (Wrapped 0)) global [JNum 2, JNum 2] s_add55)"

text \<open>
  The test of the getter: \<open>s_getter\<close> once the getter of \<open>data\<close> has been wrapped, as
  \<open>cacheGetter\<close> does with \<open>CachedFunction(prop.get, options)\<close>; the instance is \<open>JObj 8\<close>.
\<close>

definition s_getter :: "nat state" where
  "s_getter = snd (CachedFunction test_env JUndefined (JFun (Plain 5)) (Value JUndefined) (init 0))"

section \<open>The invariant and the frame of each operation\<close>

lemma wf_init: "wf (init u)"
  by (simp add: wf_def init_def)

lemma wf_frame:
  assumes "wf s"
    and "cachedFunctions s' = cachedFunctions s"
    and "cachedFunctionOptions s' = cachedFunctionOptions s"
    and "closures s' = closures s"
    and "next_fn s' = next_fn s"
    and "\<And>f. cachedValues s' f = None \<longleftrightarrow> cachedValues s f = None"
  shows "wf s'"
proof -
  have "closure_of s' = closure_of s"
    using assms(4) by (auto simp: closure_of_def fun_eq_iff split: val.splits fn.splits)
  with assms show ?thesis
    unfolding wf_def by simp
qed

lemma wf_tick: "wf s \<Longrightarrow> wf (tick d s)"
  by (erule wf_frame) (simp_all add: tick_def)

lemma put_store_frame:
  "cachedFunctions (put_store f c m s) = cachedFunctions s"
  "cachedFunctionOptions (put_store f c m s) = cachedFunctionOptions s"
  "closures (put_store f c m s) = closures s"
  "next_fn (put_store f c m s) = next_fn s"
  "now (put_store f c m s) = now s"
  "user (put_store f c m s) = user s"
  "calls (put_store f c m s) = calls s"
  by (simp_all add: put_store_def)

lemma put_store_cachedValues:
  "cachedValues (put_store f c m s) g =
     (if g = f then Some ((case cachedValues s f of None \<Rightarrow> Map.empty | Some b \<Rightarrow> b)(c \<mapsto> m))
      else cachedValues s g)"
  by (simp add: put_store_def)

lemma apply_body_frame:
  assumes "apply_body env f t a s = (r, s')"
  shows "cachedFunctions s' = cachedFunctions s"
    and "cachedFunctionOptions s' = cachedFunctionOptions s"
    and "closures s' = closures s"
    and "next_fn s' = next_fn s"
    and "now s' = now s"
    and "cachedValues s' = cachedValues s"
    and "calls s' = calls s @ [(f, t, a)]"
  using assms by (auto simp: apply_body_def split: prod.splits)

lemma CacheLayer_frame:
  assumes "CacheLayer env c t a s = (r, s')"
  shows "cachedFunctions s' = cachedFunctions s"
    and "cachedFunctionOptions s' = cachedFunctionOptions s"
    and "closures s' = closures s"
    and "next_fn s' = next_fn s"
    and "now s' = now s"
    and "cachedValues s' g = None \<longleftrightarrow> cachedValues s g = None"
    and "g \<noteq> cachedFunction c \<Longrightarrow> cachedValues s' g = cachedValues s g"
  using assms
  by (auto simp: CacheLayer_def Let_def put_store_def apply_body_def
      split: option.splits if_splits prod.splits sum.splits bool.splits)

lemma put_store_same: "store_of s f c = Some m \<Longrightarrow> put_store f c m s = s"
  by (auto simp: store_of_def put_store_def map_upd_triv split: option.splits)

lemma store_of_put_store:
  "store_of (put_store f c m s) g c' =
     (if g = f \<and> c' = c then Some m else store_of s g c')"
  by (auto simp: store_of_def put_store_def split: option.splits)

lemma CacheLayer_hit:
  assumes "lookup s (cachedFunction c) (context_of t) (generateKey env a (strictArgMatch c)) = Some v"
  shows "CacheLayer env c t a s = (Inr v, s)"
  using assms
  by (auto simp: CacheLayer_def lookup_def store_of_def cached_def TTLMap_has_def TTLMap_get_def
      Let_def put_store_same split: option.splits if_splits)

lemma CacheLayer_miss:
  assumes "cachedValues s (cachedFunction c) = Some b"
    and "weak_key (context_of t) \<or> b (context_of t) \<noteq> None"
    and "lookup s (cachedFunction c) (context_of t) (generateKey env a (strictArgMatch c)) = None"
    and "CacheLayer env c t a s = (r, s')"
  shows "calls s' = calls s @ [(valueGetter c, t, a)]"
    and "body env (valueGetter c) t a (user s) = (r, user s')"
    and "r = Inr v \<Longrightarrow> \<exists>m. store_of s' (cachedFunction c) (context_of t) = Some m \<and>
           m_values m (generateKey env a (strictArgMatch c)) = Some v \<and>
           m_ttls m (generateKey env a (strictArgMatch c)) =
             (case ttl c of JNum q \<Rightarrow> Some (now s + q) | _ \<Rightarrow> None)"
  using assms
  by (auto simp: CacheLayer_def lookup_def store_of_def cached_def TTLMap_has_def TTLMap_get_def
      TTLMap_set_def TTLMap_delete_def new_TTLMap_def expired_def
      Let_def put_store_def apply_body_def split: option.splits if_splits prod.splits sum.splits val.splits)

lemma wf_CacheLayer:
  assumes "wf s" and "CacheLayer env c t a s = (r, s')"
  shows "wf s'"
  using assms(1)
  by (rule wf_frame) (simp_all add: CacheLayer_frame [OF assms(2)])

lemma wf_apply_body:
  assumes "wf s" and "apply_body env f t a s = (r, s')"
  shows "wf s'"
  using assms(1)
  by (rule wf_frame) (simp_all add: apply_body_frame [OF assms(2)])

lemma wf_call:
  assumes "wf s" and "call env f t a s = (r, s')"
  shows "wf s'"
  using assms
  by (auto simp: call_def split: val.splits fn.splits option.splits
      intro: wf_CacheLayer wf_apply_body)

lemma call_closure:
  "closure_of s f = Some c \<Longrightarrow> call env f t a s = CacheLayer env c t a s"
  by (auto simp: call_def closure_of_def split: val.splits fn.splits)

lemma call_plain:
  "call env (JFun (Plain n)) t a s = apply_body env (JFun (Plain n)) t a s"
  by (simp add: call_def)

lemma wf_closure:
  assumes "wf s" and "closure_of s f = Some c"
  shows "cachedFunction c = f"
    and "cachedValues s f \<noteq> None"
    and "\<exists>opts. cachedFunctionOptions s f = Some opts \<and>
           strictArgMatch c = (if opt_strictArgMatch opts = JUndefined then JBool True
                               else opt_strictArgMatch opts)"
    and "check_maybe check_integer (ttl c)"
    and "check_maybe check_positive (ttl c)"
proof -
  from assms(2) obtain i where f: "f = JFun (Wrapped i)" and c: "closures s i = Some c"
    by (auto simp: closure_of_def split: val.splits fn.splits)
  from assms(1) c have
    "cachedFunction c = JFun (Wrapped i) \<and>
     cachedValues s (JFun (Wrapped i)) \<noteq> None \<and>
     (\<exists>opts. cachedFunctionOptions s (JFun (Wrapped i)) = Some opts \<and>
        strictArgMatch c = (if opt_strictArgMatch opts = JUndefined then JBool True
                            else opt_strictArgMatch opts)) \<and>
     check_maybe check_integer (ttl c) \<and> check_maybe check_positive (ttl c)"
    unfolding wf_def by blast
  with f show "cachedFunction c = f"
    and "cachedValues s f \<noteq> None"
    and "\<exists>opts. cachedFunctionOptions s f = Some opts \<and>
           strictArgMatch c = (if opt_strictArgMatch opts = JUndefined then JBool True
                               else opt_strictArgMatch opts)"
    and "check_maybe check_integer (ttl c)"
    and "check_maybe check_positive (ttl c)"
    by simp_all
qed

lemma wf_not_cached:
  "wf s \<Longrightarrow> closure_of s f = None \<Longrightarrow> cachedValues s f = None"
  unfolding wf_def by blast

lemma wf_registered:
  assumes "wf s" and "registered s g pk = Some w"
  shows "check_function g" and "\<exists>c. closure_of s w = Some c \<and> valueGetter c = g"
  using assms unfolding wf_def registered_def
  by (auto split: option.splits)

lemma CachedFunction_new_call:
  "cfg \<noteq> Value JNull \<Longrightarrow> typeof t \<noteq> ''undefined'' \<Longrightarrow>
   CachedFunction env t g cfg s =
     (Inl (SyntaxError ''Do not call CachedFunction with `new`. Call it directly.''), s)"
  by (simp add: CachedFunction_def Let_def)

lemma CachedFunction_existing:
  "cfg \<noteq> Value JNull \<Longrightarrow> registered s g (paramsKey env cfg) = Some w \<Longrightarrow>
   CachedFunction env JUndefined g cfg s = (Inr w, s)"
  by (simp add: CachedFunction_def Let_def)

lemma CachedFunction_error_state:
  "CachedFunction env t g cfg s = (Inl e, s') \<Longrightarrow> s' = s"
  by (auto simp: CachedFunction_def Let_def split: if_splits option.splits)

lemma CachedFunction_registers:
  "CachedFunction env t g cfg s = (Inr w, s') \<Longrightarrow> registered s' g (paramsKey env cfg) = Some w"
  by (auto simp: CachedFunction_def Let_def registered_def split: if_splits option.splits)

lemma CachedFunction_fresh:
  assumes "registered s g (paramsKey env cfg) = None"
    and "CachedFunction env t g cfg s = (Inr w, s')"
  shows "w = JFun (Wrapped (next_fn s))"
    and "next_fn s' = Suc (next_fn s)"
    and "cachedValues s' = (cachedValues s)(w \<mapsto> Map.empty)"
    and "closures s' (next_fn s) =
           Some \<lparr>valueGetter = g, strictArgMatch = strict_of cfg, ttl = ttl_of cfg,
             cachedFunction = w\<rparr>"
    and "now s' = now s" and "calls s' = calls s" and "user s' = user s"
    and "cfg \<noteq> Value JNull"
    and "NamedFunction_accepts env (strip_get (function_name env g))"
  using assms
  by (auto simp: CachedFunction_def Let_def split: if_splits option.splits)

lemma closure_of_Wrapped: "closure_of s (JFun (Wrapped i)) = closures s i"
  by (simp add: closure_of_def)

lemma closure_of_SomeD:
  "closure_of s f = Some c \<Longrightarrow> \<exists>i. f = JFun (Wrapped i) \<and> closures s i = Some c"
  by (auto simp: closure_of_def split: val.splits fn.splits)

lemma wf_closures:
  assumes "wf s" and "closures s i = Some c"
  shows "i < next_fn s"
    and "cachedFunction c = JFun (Wrapped i)"
    and "cachedValues s (JFun (Wrapped i)) \<noteq> None"
    and "\<exists>opts. cachedFunctionOptions s (JFun (Wrapped i)) = Some opts \<and>
           strictArgMatch c = (if opt_strictArgMatch opts = JUndefined then JBool True
                               else opt_strictArgMatch opts)"
    and "check_maybe check_integer (ttl c)"
    and "check_maybe check_positive (ttl c)"
  using assms unfolding wf_def by blast+

lemma wf_registered_inj:
  assumes "wf s" and "registered s g pk = Some w" and "registered s g pk' = Some w"
  shows "pk = pk'"
  using assms unfolding wf_def registered_def by (auto split: option.splits)

lemma wf_fresh: "wf s \<Longrightarrow> closures s (next_fn s) = None"
  unfolding wf_def by (metis less_irrefl not_Some_eq)

lemma wf_CachedFunction:
  assumes "wf s" and "CachedFunction env t g cfg s = (r, s')"
  shows "wf s'"
proof (cases "cfg = Value JNull \<or> typeof t \<noteq> ''undefined'' \<or>
    registered s g (paramsKey env cfg) \<noteq> None \<or> (\<exists>e. r = Inl e)")
  case True
  then have "s' = s"
    using assms(2) by (auto simp: CachedFunction_def Let_def split: if_splits option.splits)
  with assms(1) show ?thesis by simp
next
  case False
  then obtain w where r: "r = Inr w" and reg: "registered s g (paramsKey env cfg) = None"
    by (cases r) auto
  let ?i = "next_fn s"
  let ?pk = "paramsKey env cfg"
  define c where "c = \<lparr>valueGetter = g, strictArgMatch = strict_of cfg, ttl = ttl_of cfg,
      cachedFunction = JFun (Wrapped ?i)\<rparr>"
  define o_new where "o_new = options_of cfg"
  from False assms(2) r reg have
    w: "w = JFun (Wrapped ?i)" and
    g: "check_function g" and
    cl: "closures s' = (closures s)(?i \<mapsto> c)" and
    nx: "next_fn s' = Suc ?i" and
    cv: "cachedValues s' = (cachedValues s)(w \<mapsto> Map.empty)" and
    co': "cachedFunctionOptions s' = (cachedFunctionOptions s)(w \<mapsto> o_new)" and
    cf: "cachedFunctions s' = (cachedFunctions s)
           (g \<mapsto> (case cachedFunctions s g of None \<Rightarrow> Map.empty | Some bp \<Rightarrow> bp)(?pk \<mapsto> w))" and
    ck: "check_maybe check_integer (ttl c)" "check_maybe check_positive (ttl c)"
    unfolding c_def o_new_def
    by (auto simp: CachedFunction_def Let_def split: if_splits)
  have c: "valueGetter c = g" "cachedFunction c = w"
       "check_maybe check_integer (ttl c)" "check_maybe check_positive (ttl c)"
    using ck w by (simp_all add: c_def)
  have "strictArgMatch c = (if opt_strictArgMatch o_new = JUndefined then JBool True
                               else opt_strictArgMatch o_new)"
    by (simp add: c_def o_new_def strict_of_def options_of_def split: config.splits)
  with co' have co: "\<exists>opts. cachedFunctionOptions s' = (cachedFunctionOptions s)(w \<mapsto> opts) \<and>
           strictArgMatch c = (if opt_strictArgMatch opts = JUndefined then JBool True
                               else opt_strictArgMatch opts)"
    by blast
  have fresh: "closures s ?i = None" by (rule wf_fresh [OF assms(1)])
  have old: "closure_of s f = Some d \<Longrightarrow> closure_of s' f = Some d" for f d
    using fresh cl by (auto simp: closure_of_def split: val.splits fn.splits)
  have new: "closure_of s' w = Some c"
    using cl w by (simp add: closure_of_def)
  have 1: "check_function h \<and> (\<exists>d. closure_of s' x = Some d \<and> valueGetter d = h)"
    if "cachedFunctions s' h = Some bp" "bp pk = Some x" for h bp pk x
  proof (cases "h = g \<and> pk = ?pk")
    case True
    with that cf have "x = w" by (auto split: if_splits)
    with True g new c show ?thesis by simp
  next
    case False
    with that cf have "registered s h pk = Some x"
      by (auto simp: registered_def split: if_splits option.splits)
    from wf_registered [OF assms(1) this] old show ?thesis by blast
  qed
  have 2: "j < next_fn s' \<and> cachedFunction d = JFun (Wrapped j) \<and>
        cachedValues s' (JFun (Wrapped j)) \<noteq> None \<and>
        (\<exists>opts. cachedFunctionOptions s' (JFun (Wrapped j)) = Some opts \<and>
           strictArgMatch d = (if opt_strictArgMatch opts = JUndefined then JBool True
                               else opt_strictArgMatch opts)) \<and>
        check_maybe check_integer (ttl d) \<and> check_maybe check_positive (ttl d)"
    if "closures s' j = Some d" for j d
  proof (cases "j = ?i")
    case True
    with that cl have "d = c" by simp
    with True c co w nx cv show ?thesis by auto
  next
    case False
    with that cl have d: "closures s j = Some d" by simp
    from False w have neq: "JFun (Wrapped j) \<noteq> w" by simp
    from wf_closures(4) [OF assms(1) d] obtain opts where
      "cachedFunctionOptions s (JFun (Wrapped j)) = Some opts"
      "strictArgMatch d = (if opt_strictArgMatch opts = JUndefined then JBool True
                               else opt_strictArgMatch opts)"
      by blast
    with co' neq have "\<exists>opts. cachedFunctionOptions s' (JFun (Wrapped j)) = Some opts \<and>
           strictArgMatch d = (if opt_strictArgMatch opts = JUndefined then JBool True
                               else opt_strictArgMatch opts)"
      by simp
    moreover have "j < next_fn s'"
      using wf_closures(1) [OF assms(1) d] nx by simp
    moreover have "cachedValues s' (JFun (Wrapped j)) \<noteq> None"
      using wf_closures(3) [OF assms(1) d] cv neq by simp
    ultimately show ?thesis
      using wf_closures(2,5,6) [OF assms(1) d] by blast
  qed
  have 3: "closure_of s' f \<noteq> None" if "cachedValues s' f \<noteq> None" for f
  proof (cases "f = w")
    case True
    with new show ?thesis by simp
  next
    case False
    with that cv have "cachedValues s f \<noteq> None" by simp
    with assms(1) have "closure_of s f \<noteq> None" unfolding wf_def by blast
    with old show ?thesis by auto
  qed
  have 4: "pk = pk'"
    if "cachedFunctions s' h = Some bp" "bp pk = Some x" "bp pk' = Some x" for h bp pk pk' x
  proof (cases "x = w")
    case True
    have "\<not> (h' = g \<and> q = ?pk) \<Longrightarrow> cachedFunctions s' h' = Some bp' \<Longrightarrow> bp' q \<noteq> Some w" for h' bp' q
    proof
      assume a: "\<not> (h' = g \<and> q = ?pk)" "cachedFunctions s' h' = Some bp'" "bp' q = Some w"
      with cf have "registered s h' q = Some w"
        by (auto simp: registered_def split: if_splits option.splits)
      from wf_registered(2) [OF assms(1) this] fresh w show False
        by (simp add: closure_of_def)
    qed
    with that True have "h = g \<and> pk = ?pk" "h = g \<and> pk' = ?pk" by blast+
    then show ?thesis by simp
  next
    case False
    with that cf have "registered s h pk = Some x" "registered s h pk' = Some x"
      by (auto simp: registered_def split: if_splits option.splits)
    with assms(1) show ?thesis
      unfolding wf_def registered_def by (auto split: option.splits)
  qed
  show ?thesis
    unfolding wf_def using 1 2 3 4 by blast
qed

lemma CachedFunction_closure:
  assumes "wf s" and "CachedFunction env t g cfg s = (Inr w, s')"
  shows "\<exists>c. closure_of s' w = Some c \<and> valueGetter c = g"
  using wf_registered(2) [OF wf_CachedFunction [OF assms] CachedFunction_registers [OF assms(2)]] .

lemma registered_call:
  assumes "call env g t a s = (r, s')"
  shows "registered s' f pk = registered s f pk"
proof -
  have "cachedFunctions s' = cachedFunctions s"
    using assms
    by (auto simp: call_def split: val.splits fn.splits option.splits
        dest: CacheLayer_frame(1) apply_body_frame(1))
  then show ?thesis by (simp add: registered_def)
qed

lemma CachedFunction_cachedValues_other:
  assumes "wf s" and "closure_of s w \<noteq> None" and "CachedFunction env t g cfg s = (r, s')"
  shows "cachedValues s' w = cachedValues s w"
proof (cases "registered s g (paramsKey env cfg) = None \<and> (\<exists>w'. r = Inr w')")
  case True
  then obtain w' where r: "r = Inr w'" by blast
  from CachedFunction_fresh(1,3) [OF conjunct1 [OF True] assms(3) [unfolded r]]
  have w': "w' = JFun (Wrapped (next_fn s))" and cv: "cachedValues s' = (cachedValues s)(w' \<mapsto> Map.empty)"
    by simp_all
  from wf_fresh [OF assms(1)] assms(2) w' have "w \<noteq> w'"
    by (auto simp: closure_of_def)
  with cv show ?thesis by simp
next
  case False
  then have "s' = s"
    using assms(3) by (auto simp: CachedFunction_def Let_def split: if_splits option.splits)
  then show ?thesis by simp
qed

section \<open>C2: one wrapper per callable and serialized configuration\<close>

text \<open>
  C2. A wrapper is registered under its callable and the serialization of its
  configuration (the empty string when there is none). After \<open>CachedFunction(f, cfg)\<close>
  has returned \<open>w\<close>, a call with a configuration of the same serialization returns \<open>w\<close>
  and leaves the whole state as it is, also once \<open>w\<close> has been invoked and has filled its
  stores; a call with a configuration of another serialization returns a wrapper other
  than \<open>w\<close> and leaves the stores of \<open>w\<close> as they are. A configuration is any second
  argument that line 51 can bind, absent or not; \<open>null\<close> is none, and the call that
  returned \<open>w\<close> was not made with it.
\<close>

theorem wrapper_identity_stable:
  assumes "wf s0" and "CachedFunction env JUndefined f cfg s0 = (Inr w, s1)"
  shows "registered s1 f (paramsKey env cfg) = Some w \<and>
    (cfg' \<noteq> Value JNull \<longrightarrow> paramsKey env cfg' = paramsKey env cfg \<longrightarrow>
       CachedFunction env JUndefined f cfg' s1 = (Inr w, s1) \<and>
       (\<forall>t a r s2. call env w t a s1 = (r, s2) \<longrightarrow>
          CachedFunction env JUndefined f cfg' s2 = (Inr w, s2))) \<and>
    (paramsKey env cfg' \<noteq> paramsKey env cfg \<longrightarrow>
       (\<forall>w' s2. CachedFunction env JUndefined f cfg' s1 = (Inr w', s2) \<longrightarrow>
          w' \<noteq> w \<and> cachedValues s2 w = cachedValues s1 w))"
proof (intro conjI impI allI)
  show reg: "registered s1 f (paramsKey env cfg) = Some w"
    by (rule CachedFunction_registers [OF assms(2)])
  have wf1: "wf s1" by (rule wf_CachedFunction [OF assms])
  {
    assume nn: "cfg' \<noteq> Value JNull" and eq: "paramsKey env cfg' = paramsKey env cfg"
    with reg show "CachedFunction env JUndefined f cfg' s1 = (Inr w, s1)"
      by (simp add: CachedFunction_existing)
    fix t a r s2
    assume "call env w t a s1 = (r, s2)"
    from registered_call [OF this] reg eq nn
    show "CachedFunction env JUndefined f cfg' s2 = (Inr w, s2)"
      by (simp add: CachedFunction_existing)
  }
  {
    fix w' s2
    assume neq: "paramsKey env cfg' \<noteq> paramsKey env cfg"
      and c2: "CachedFunction env JUndefined f cfg' s1 = (Inr w', s2)"
    have reg2: "registered s2 f (paramsKey env cfg') = Some w'"
      by (rule CachedFunction_registers [OF c2])
    have reg1: "registered s2 f (paramsKey env cfg) = Some w"
      using c2 reg neq
      by (auto simp: CachedFunction_def Let_def registered_def split: if_splits option.splits)
    have wf2: "wf s2" by (rule wf_CachedFunction [OF wf1 c2])
    show "w' \<noteq> w"
      using wf_registered_inj [OF wf2 reg2] reg1 neq by auto
    from wf_registered(2) [OF wf1 reg] have "closure_of s1 w \<noteq> None" by auto
    from CachedFunction_cachedValues_other [OF wf1 this c2]
    show "cachedValues s2 w = cachedValues s1 w" .
  }
qed

theorem wrapper_identity_stable_witness:
  "wf (init (0::nat)) \<and>
   fst (CachedFunction test_env JUndefined (JFun (Plain 4))
          (Options \<lparr>opt_strictArgMatch = JUndefined, opt_ttl = JNum 10\<rparr>) (init 0)) =
     Inr (JFun (Wrapped 0)) \<and>
   CachedFunction test_env JUndefined (JFun (Plain 4))
     (Options \<lparr>opt_strictArgMatch = JUndefined, opt_ttl = JNum 10\<rparr>)
     (snd (CachedFunction test_env JUndefined (JFun (Plain 4))
          (Options \<lparr>opt_strictArgMatch = JUndefined, opt_ttl = JNum 10\<rparr>) (init 0))) =
     (Inr (JFun (Wrapped 0)),
      snd (CachedFunction test_env JUndefined (JFun (Plain 4))
          (Options \<lparr>opt_strictArgMatch = JUndefined, opt_ttl = JNum 10\<rparr>) (init 0))) \<and>
   fst (CachedFunction test_env JUndefined (JFun (Plain 4))
     (Options \<lparr>opt_strictArgMatch = JUndefined, opt_ttl = JNum 100\<rparr>)
     (snd (CachedFunction test_env JUndefined (JFun (Plain 4))
          (Options \<lparr>opt_strictArgMatch = JUndefined, opt_ttl = JNum 10\<rparr>) (init 0)))) \<noteq>
     Inr (JFun (Wrapped 0))"
proof -
  let ?f = "JFun (Plain 4)"
  let ?c10 = "Options \<lparr>opt_strictArgMatch = JUndefined, opt_ttl = JNum 10\<rparr>"
  let ?c100 = "Options \<lparr>opt_strictArgMatch = JUndefined, opt_ttl = JNum 100\<rparr>"
  let ?s1 = "snd (CachedFunction test_env JUndefined ?f ?c10 (init (0::nat)))"
  have w: "fst (CachedFunction test_env JUndefined ?f ?c10 (init (0::nat))) = Inr (JFun (Wrapped 0))"
    by (simp add: CachedFunction_def Let_def init_def registered_def check_function_def
        check_maybe_def ttl_of_def strip_get_def test_env_def test_function_name_def
        test_accepts_def)
  then have h: "CachedFunction test_env JUndefined ?f ?c10 (init (0::nat)) = (Inr (JFun (Wrapped 0)), ?s1)"
    by (simp add: prod_eq_iff)
  have k: "paramsKey test_env ?c100 \<noteq> paramsKey test_env ?c10"
    by (simp add: paramsKey_def test_env_def test_stringify_options_def)
  from wrapper_identity_stable [OF wf_init h, of ?c10]
  have same: "CachedFunction test_env JUndefined ?f ?c10 ?s1 = (Inr (JFun (Wrapped 0)), ?s1)"
    by simp
  from wrapper_identity_stable [OF wf_init h, of ?c100] k
  have "\<forall>w' s2. CachedFunction test_env JUndefined ?f ?c100 ?s1 = (Inr w', s2) \<longrightarrow>
          w' \<noteq> JFun (Wrapped 0)"
    by simp
  then have other: "fst (CachedFunction test_env JUndefined ?f ?c100 ?s1) \<noteq> Inr (JFun (Wrapped 0))"
    by (metis prod.collapse)
  have "wf (init (0::nat))" by (rule wf_init)
  with w same other show ?thesis by (intro conjI)
qed

section \<open>C1: memoization\<close>

lemma calls_tick: "calls (tick d s) = calls s"
  by (simp add: tick_def)

lemma now_tick: "now (tick d s) = now s + d"
  by (simp add: tick_def)

lemma store_of_tick: "store_of (tick d s) f c = store_of s f c"
  by (simp add: tick_def store_of_def)

lemma closure_of_cong: "closures s' = closures s \<Longrightarrow> closure_of s' f = closure_of s f"
  by (auto simp: closure_of_def split: val.splits fn.splits)

lemma closure_of_tick: "closure_of (tick d s) f = closure_of s f"
  by (rule closure_of_cong) (simp add: tick_def)

lemma positive_ttl:
  "check_maybe check_positive (JNum q) \<Longrightarrow> 0 < q"
  by (simp add: check_maybe_def)

lemma CacheLayer_closure_of:
  assumes "CacheLayer env c t a s = (r, s')"
  shows "closure_of s' f = closure_of s f"
  by (rule closure_of_cong) (rule CacheLayer_frame(3) [OF assms])

text \<open>After a call of a wrapper has returned, its value is in the store of the receiver.\<close>

lemma CacheLayer_then_cached:
  assumes "cachedValues s (cachedFunction c) \<noteq> None"
    and "check_maybe check_positive (ttl c)"
    and "CacheLayer env c t a s = (Inr v, s1)"
  shows "lookup s1 (cachedFunction c) (context_of t) (generateKey env a (strictArgMatch c)) = Some v"
proof (cases "lookup s (cachedFunction c) (context_of t) (generateKey env a (strictArgMatch c))")
  case (Some v')
  from CacheLayer_hit [OF this] assms(3) Some show ?thesis by simp
next
  case None
  from assms(1) obtain b where b: "cachedValues s (cachedFunction c) = Some b" by auto
  have wk: "weak_key (context_of t) \<or> b (context_of t) \<noteq> None"
    using assms(3) b by (auto simp: CacheLayer_def Let_def split: if_splits)
  from CacheLayer_miss(3) [OF b wk None assms(3) refl] obtain m where
    m: "store_of s1 (cachedFunction c) (context_of t) = Some m"
       "m_values m (generateKey env a (strictArgMatch c)) = Some v"
       "m_ttls m (generateKey env a (strictArgMatch c)) =
          (case ttl c of JNum q \<Rightarrow> Some (now s + q) | _ \<Rightarrow> None)"
    by blast
  have "now s1 = now s" by (rule CacheLayer_frame(5) [OF assms(3)])
  with m assms(2) show ?thesis
    by (auto simp: lookup_def cached_def expired_def dest: positive_ttl split: val.splits)
qed

text \<open>
  The heart of memoization: a call that finds nothing stored and returns runs the body
  once and stores the value; until the deadline of that entry every further call with
  the same receiver and arguments returns it and leaves the state, the log of
  invocations with it, as it is.
\<close>

lemma miss_then_hit:
  assumes "wf s" and "closure_of s w = Some c"
    and "lookup s w (context_of t) (generateKey env a (strictArgMatch c)) = None"
    and "call env w t a s = (Inr v, s1)"
    and "0 \<le> d" and "\<forall>q. ttl c = JNum q \<longrightarrow> d < q"
  shows "calls s1 = calls s @ [(valueGetter c, t, a)]"
    and "body env (valueGetter c) t a (user s) = (Inr v, user s1)"
    and "call env w t a (tick d s1) = (Inr v, tick d s1)"
proof -
  have cf: "cachedFunction c = w" by (rule wf_closure(1) [OF assms(1,2)])
  from wf_closure(2) [OF assms(1,2)] obtain b where b: "cachedValues s w = Some b" by auto
  have cl: "CacheLayer env c t a s = (Inr v, s1)"
    using assms(4) call_closure [OF assms(2)] by simp
  have wk: "weak_key (context_of t) \<or> b (context_of t) \<noteq> None"
    using cl b cf by (auto simp: CacheLayer_def Let_def split: if_splits)
  note miss = CacheLayer_miss [OF b [folded cf] wk assms(3) [folded cf] cl]
  show "calls s1 = calls s @ [(valueGetter c, t, a)]" by (rule miss(1))
  show "body env (valueGetter c) t a (user s) = (Inr v, user s1)" by (rule miss(2))
  from miss(3) [OF refl] cf obtain m where
    m: "store_of s1 w (context_of t) = Some m"
       "m_values m (generateKey env a (strictArgMatch c)) = Some v"
       "m_ttls m (generateKey env a (strictArgMatch c)) =
          (case ttl c of JNum q \<Rightarrow> Some (now s + q) | _ \<Rightarrow> None)"
    by auto
  have now1: "now s1 = now s" by (rule CacheLayer_frame(5) [OF cl])
  have "lookup (tick d s1) w (context_of t) (generateKey env a (strictArgMatch c)) = Some v"
    using m now1 assms(6)
    by (auto simp: lookup_def store_of_tick now_tick cached_def expired_def split: val.splits)
  from CacheLayer_hit [of "tick d s1" c t env a v] this cf
  have "CacheLayer env c t a (tick d s1) = (Inr v, tick d s1)" by simp
  moreover have "closure_of (tick d s1) w = Some c"
    using CacheLayer_closure_of [OF cl] assms(2) by (simp add: closure_of_tick)
  ultimately show "call env w t a (tick d s1) = (Inr v, tick d s1)"
    by (simp add: call_closure)
qed

lemma hit_never_invokes:
  assumes "wf s" and "closure_of s w = Some c"
    and "lookup s w (context_of t) (generateKey env a (strictArgMatch c)) = Some v"
  shows "call env w t a s = (Inr v, s)"
  using CacheLayer_hit [of s c t env a v] assms wf_closure(1) [OF assms(1,2)]
  by (simp add: call_closure)

text \<open>The definitions a concrete call is evaluated with.\<close>

lemmas eval_defs =
  CachedFunction_def Let_def init_def registered_def check_function_def check_maybe_def
  paramsKey_def call_def CacheLayer_def context_of_def global_def generateKey_def
  TTLMap_has_def TTLMap_get_def TTLMap_set_def TTLMap_delete_def expired_def new_TTLMap_def
  apply_body_def put_store_def test_env_def closure_of_def lookup_def store_of_def cached_def
  tick_def strict_of_def ttl_of_def options_of_def strip_get_def test_function_name_def
  test_accepts_def

lemma s_add_eq:
  "s_add = \<lparr>cachedFunctions = [JFun (Plain 2) \<mapsto> [[] \<mapsto> JFun (Wrapped 0)]],
     cachedFunctionOptions = [JFun (Wrapped 0) \<mapsto> \<lparr>opt_strictArgMatch = JUndefined, opt_ttl = JUndefined\<rparr>],
     cachedValues = [JFun (Wrapped 0) \<mapsto> Map.empty],
     closures = [0 \<mapsto> \<lparr>valueGetter = JFun (Plain 2), strictArgMatch = JBool True,
        ttl = JUndefined, cachedFunction = JFun (Wrapped 0)\<rparr>],
     next_fn = 1, now = 0, user = 0, calls = []\<rparr>"
  by (simp add: s_add_def eval_defs)

lemma CachedFunction_add:
  "CachedFunction test_env JUndefined (JFun (Plain 2)) (Value JUndefined) (init 0) = (Inr (JFun (Wrapped 0)), s_add)"
  by (simp add: s_add_def prod_eq_iff) (simp add: eval_defs)

lemma call_add22:
  "call test_env (JFun (Wrapped 0)) global [JNum 2, JNum 2] s_add = (Inr (JNum 4), s_add22)"
  by (simp add: s_add22_def prod_eq_iff) (simp add: s_add_eq eval_defs)

lemma lookup_s_add: "lookup s_add (JFun (Wrapped 0)) noThis [JNum 2, JNum 2] = None"
  by (simp add: s_add_eq eval_defs)


text \<open>
  C1. Let \<open>w\<close> be the wrapper \<open>CachedFunction(f)\<close> returned, with closure \<open>c\<close>, and let nothing
  be stored yet for the receiver \<open>t\<close> and the arguments \<open>a\<close>. If the invocation of \<open>w\<close>
  returns \<open>v\<close>, then it has run the body of \<open>f\<close> once, on \<open>t\<close> and \<open>a\<close>, and \<open>v\<close> is what
  the body returned; a second invocation with the same receiver and arguments, any time
  \<open>d\<close> later that is before the ttl has elapsed and with no clear in between, returns
  \<open>v\<close> and leaves the state unchanged, the log of invocations of \<open>f\<close> included. And in
  every state a hit returns the stored value and changes nothing, so it never invokes \<open>f\<close>.
\<close>

theorem memoization:
  assumes "wf s0" and "CachedFunction env JUndefined f cfg s0 = (Inr w, s)"
    and "closure_of s w = Some c"
    and "lookup s w (context_of t) (generateKey env a (strictArgMatch c)) = None"
    and "call env w t a s = (Inr v, s1)"
    and "0 \<le> d" and "\<forall>q. ttl c = JNum q \<longrightarrow> d < q"
  shows "valueGetter c = f \<and>
    calls s1 = calls s @ [(f, t, a)] \<and>
    body env f t a (user s) = (Inr v, user s1) \<and>
    call env w t a (tick d s1) = (Inr v, tick d s1) \<and>
    calls (snd (call env w t a (tick d s1))) = calls s @ [(f, t, a)] \<and>
    (\<forall>s' v'. wf s' \<longrightarrow> closure_of s' w = Some c \<longrightarrow>
       lookup s' w (context_of t) (generateKey env a (strictArgMatch c)) = Some v' \<longrightarrow>
       call env w t a s' = (Inr v', s'))"
proof -
  have wf1: "wf s" by (rule wf_CachedFunction [OF assms(1,2)])
  from CachedFunction_closure [OF assms(1,2)] assms(3) have f: "valueGetter c = f" by auto
  note mh = miss_then_hit [OF wf1 assms(3,4,5,6,7)]
  have "calls (tick d s1) = calls s1" by (rule calls_tick)
  with mh f show ?thesis
    by (auto intro: hit_never_invokes)
qed

theorem memoization_witness:
  "CachedFunction test_env JUndefined (JFun (Plain 2)) (Value JUndefined) (init 0) = (Inr (JFun (Wrapped 0)), s_add) \<and>
   call test_env (JFun (Wrapped 0)) global [JNum 2, JNum 2] s_add = (Inr (JNum 4), s_add22) \<and>
   calls s_add22 = [(JFun (Plain 2), global, [JNum 2, JNum 2])] \<and>
   call test_env (JFun (Wrapped 0)) global [JNum 2, JNum 2] (tick 5 s_add22) =
     (Inr (JNum 4), tick 5 s_add22) \<and>
   calls (snd (call test_env (JFun (Wrapped 0)) global [JNum 2, JNum 2] (tick 5 s_add22))) =
     [(JFun (Plain 2), global, [JNum 2, JNum 2])]"
proof -
  let ?c = "\<lparr>valueGetter = JFun (Plain 2), strictArgMatch = JBool True,
        ttl = JUndefined, cachedFunction = JFun (Wrapped 0)\<rparr>"
  have c: "closure_of s_add (JFun (Wrapped 0)) = Some ?c"
    by (simp add: s_add_eq closure_of_def)
  have l: "lookup s_add (JFun (Wrapped 0)) (context_of global)
      (generateKey test_env [JNum 2, JNum 2] (strictArgMatch ?c)) = None"
    by (simp add: s_add_eq eval_defs)
  have d: "(0::rat) \<le> 5" and t: "\<forall>q. ttl ?c = JNum q \<longrightarrow> 5 < q" by simp_all
  have e: "calls s_add = []" by (simp add: s_add_eq)
  from memoization [OF wf_init CachedFunction_add c l call_add22 d t] e
    CachedFunction_add call_add22
  show ?thesis by (simp add: calls_tick)
qed

section \<open>C7: what CachedFunction checks, and when\<close>

lemma wf_not_function_unregistered:
  "wf s \<Longrightarrow> \<not> check_function g \<Longrightarrow> registered s g pk = None"
  using wf_registered(1) by (cases "registered s g pk") auto

lemma CachedFunction_builds:
  assumes "cfg \<noteq> Value JNull" and "check_function g"
    and "registered s g (paramsKey env cfg) = None"
    and "ttl_of cfg = JUndefined \<or> ttl_of cfg = JNull \<or>
         check_integer (ttl_of cfg) \<and> check_positive (ttl_of cfg)"
    and "NamedFunction_accepts env (strip_get (function_name env g))"
  shows "fst (CachedFunction env JUndefined g cfg s) = Inr (JFun (Wrapped (next_fn s)))"
    and "closure_of (snd (CachedFunction env JUndefined g cfg s)) (JFun (Wrapped (next_fn s))) =
           Some \<lparr>valueGetter = g, strictArgMatch = strict_of cfg, ttl = ttl_of cfg,
             cachedFunction = JFun (Wrapped (next_fn s))\<rparr>"
proof -
  from assms(4) have "check_maybe check_integer (ttl_of cfg)" "check_maybe check_positive (ttl_of cfg)"
    by (auto simp: check_maybe_def)
  with assms(1,2,3,5)
  show "fst (CachedFunction env JUndefined g cfg s) = Inr (JFun (Wrapped (next_fn s)))"
    and "closure_of (snd (CachedFunction env JUndefined g cfg s)) (JFun (Wrapped (next_fn s))) =
           Some \<lparr>valueGetter = g, strictArgMatch = strict_of cfg, ttl = ttl_of cfg,
             cachedFunction = JFun (Wrapped (next_fn s))\<rparr>"
    by (simp_all add: CachedFunction_def Let_def closure_of_def)
qed

lemma fresh_wrapper_keeps:
  assumes "wf s" and "registered s g (paramsKey env cfg) = None"
    and "ttl_of cfg = JUndefined"
    and "CachedFunction env JUndefined g cfg s = (Inr w, s')"
    and "call env w t a s' = (Inr v, s1)" and "0 \<le> d"
  shows "call env w t a (tick d s1) = (Inr v, tick d s1)"
proof -
  let ?c = "\<lparr>valueGetter = g, strictArgMatch = strict_of cfg, ttl = ttl_of cfg,
             cachedFunction = w\<rparr>"
  note fr = CachedFunction_fresh [OF assms(2,4)]
  have wf': "wf s'" by (rule wf_CachedFunction [OF assms(1,4)])
  have cl: "closure_of s' w = Some ?c"
    using fr(1,4) by (simp add: closure_of_def)
  have l: "lookup s' w (context_of t) (generateKey env a (strictArgMatch ?c)) = None"
    using fr(3) by (simp add: lookup_def store_of_def)
  have nq: "\<forall>q. ttl ?c = JNum q \<longrightarrow> d < q"
    using assms(3) by simp
  show ?thesis
    by (rule miss_then_hit(3) [OF wf' cl l assms(5,6) nq])
qed

text \<open>
  C7, as the code has it, for a second argument that line 51 can bind, that is, any but
  \<open>null\<close>. Called with \<open>new\<close>, CachedFunction throws the SyntaxError (UsageError) whatever
  its other arguments, also for a registered pair. Called directly, it throws a TypeError
  (InvalidArgument) for a first argument that is not a function. The lookup of line 57
  comes before the checks of the ttl: a pair of callable and serialized configuration
  that is registered gets its wrapper back, the state as it was. Where the function is
  not registered under the serialized configuration, a ttl that is neither \<open>undefined\<close>
  nor \<open>null\<close> gets a TypeError when it is no whole number and a RangeError
  (InvalidArgument) when it is a whole number that is not positive; and for a ttl that
  is \<open>undefined\<close>, \<open>null\<close> or a positive whole number, and a function under whose name
  (less a leading \<open>get \<close>) NamedFunction builds a function, a new wrapper is returned
  whose closure holds the callable, the matching mode and that ttl. An absent ttl means
  no expiration: what the first call of a wrapper built without a ttl has returned,
  the same call returns at every later time, the state unchanged.
\<close>

theorem construction_validation:
  assumes "wf s" and "cfg \<noteq> Value JNull"
  shows
    "(typeof t \<noteq> ''undefined'' \<longrightarrow>
        CachedFunction env t g cfg s =
          (Inl (SyntaxError ''Do not call CachedFunction with `new`. Call it directly.''), s) \<and>
        UsageError (SyntaxError ''Do not call CachedFunction with `new`. Call it directly.'')) \<and>
     (\<not> check_function g \<longrightarrow>
        CachedFunction env JUndefined g cfg s =
          (Inl (TypeError ''valueGetter must be a function''), s) \<and>
        InvalidArgument (TypeError ''valueGetter must be a function'')) \<and>
     (\<forall>w. registered s g (paramsKey env cfg) = Some w \<longrightarrow>
        CachedFunction env JUndefined g cfg s = (Inr w, s)) \<and>
     (check_function g \<longrightarrow> registered s g (paramsKey env cfg) = None \<longrightarrow>
      ttl_of cfg \<noteq> JUndefined \<longrightarrow> ttl_of cfg \<noteq> JNull \<longrightarrow>
        (\<not> check_integer (ttl_of cfg) \<longrightarrow>
           CachedFunction env JUndefined g cfg s =
             (Inl (TypeError ''ttl must be a positive integer''), s) \<and>
           InvalidArgument (TypeError ''ttl must be a positive integer'')) \<and>
        (check_integer (ttl_of cfg) \<longrightarrow> \<not> check_positive (ttl_of cfg) \<longrightarrow>
           CachedFunction env JUndefined g cfg s =
             (Inl (RangeError ''ttl must be a positive integer''), s) \<and>
           InvalidArgument (RangeError ''ttl must be a positive integer''))) \<and>
     (check_function g \<longrightarrow> registered s g (paramsKey env cfg) = None \<longrightarrow>
      ttl_of cfg = JUndefined \<or> ttl_of cfg = JNull \<or>
        check_integer (ttl_of cfg) \<and> check_positive (ttl_of cfg) \<longrightarrow>
      NamedFunction_accepts env (strip_get (function_name env g)) \<longrightarrow>
        fst (CachedFunction env JUndefined g cfg s) = Inr (JFun (Wrapped (next_fn s))) \<and>
        closure_of (snd (CachedFunction env JUndefined g cfg s)) (JFun (Wrapped (next_fn s))) =
          Some \<lparr>valueGetter = g, strictArgMatch = strict_of cfg, ttl = ttl_of cfg,
            cachedFunction = JFun (Wrapped (next_fn s))\<rparr>) \<and>
     (\<forall>w s' t' a v s1 d.
        registered s g (paramsKey env cfg) = None \<longrightarrow> ttl_of cfg = JUndefined \<longrightarrow>
        CachedFunction env JUndefined g cfg s = (Inr w, s') \<longrightarrow>
        call env w t' a s' = (Inr v, s1) \<longrightarrow> 0 \<le> d \<longrightarrow>
          call env w t' a (tick d s1) = (Inr v, tick d s1))"
proof (intro conjI impI allI)
  show "UsageError (SyntaxError ''Do not call CachedFunction with `new`. Call it directly.'')"
    and "InvalidArgument (TypeError ''valueGetter must be a function'')"
    and "InvalidArgument (TypeError ''ttl must be a positive integer'')"
    and "InvalidArgument (RangeError ''ttl must be a positive integer'')"
    by simp_all
next
  assume "typeof t \<noteq> ''undefined''"
  with assms(2) show "CachedFunction env t g cfg s =
      (Inl (SyntaxError ''Do not call CachedFunction with `new`. Call it directly.''), s)"
    by (rule CachedFunction_new_call)
next
  assume g: "\<not> check_function g"
  with assms(1) have "registered s g (paramsKey env cfg) = None"
    by (rule wf_not_function_unregistered)
  with g assms(2) show "CachedFunction env JUndefined g cfg s =
      (Inl (TypeError ''valueGetter must be a function''), s)"
    by (simp add: CachedFunction_def Let_def)
next
  fix w assume "registered s g (paramsKey env cfg) = Some w"
  with assms(2) show "CachedFunction env JUndefined g cfg s = (Inr w, s)"
    by (rule CachedFunction_existing)
next
  assume "check_function g" "registered s g (paramsKey env cfg) = None"
    "ttl_of cfg \<noteq> JUndefined" "ttl_of cfg \<noteq> JNull" "\<not> check_integer (ttl_of cfg)"
  with assms(2) show "CachedFunction env JUndefined g cfg s =
      (Inl (TypeError ''ttl must be a positive integer''), s)"
    by (simp add: CachedFunction_def Let_def check_maybe_def)
next
  assume "check_function g" "registered s g (paramsKey env cfg) = None"
    "ttl_of cfg \<noteq> JUndefined" "ttl_of cfg \<noteq> JNull" "check_integer (ttl_of cfg)"
    "\<not> check_positive (ttl_of cfg)"
  with assms(2) show "CachedFunction env JUndefined g cfg s =
      (Inl (RangeError ''ttl must be a positive integer''), s)"
    by (simp add: CachedFunction_def Let_def check_maybe_def)
next
  assume a: "check_function g" "registered s g (paramsKey env cfg) = None"
    "ttl_of cfg = JUndefined \<or> ttl_of cfg = JNull \<or>
       check_integer (ttl_of cfg) \<and> check_positive (ttl_of cfg)"
    "NamedFunction_accepts env (strip_get (function_name env g))"
  show "fst (CachedFunction env JUndefined g cfg s) = Inr (JFun (Wrapped (next_fn s)))"
    by (rule CachedFunction_builds(1) [OF assms(2) a])
  show "closure_of (snd (CachedFunction env JUndefined g cfg s)) (JFun (Wrapped (next_fn s))) =
          Some \<lparr>valueGetter = g, strictArgMatch = strict_of cfg, ttl = ttl_of cfg,
            cachedFunction = JFun (Wrapped (next_fn s))\<rparr>"
    by (rule CachedFunction_builds(2) [OF assms(2) a])
next
  fix w s' t' a v s1 and d :: rat
  assume "registered s g (paramsKey env cfg) = None" "ttl_of cfg = JUndefined"
    "CachedFunction env JUndefined g cfg s = (Inr w, s')"
    "call env w t' a s' = (Inr v, s1)" "0 \<le> d"
  then show "call env w t' a (tick d s1) = (Inr v, tick d s1)"
    by (rule fresh_wrapper_keeps [OF assms(1)])
qed

lemma registered_init: "registered (init u) g pk = None"
  by (simp add: registered_def init_def)

lemma next_fn_init: "next_fn (init u) = 0"
  by (simp add: init_def)

lemma check_integer_examples:
  "\<not> check_integer (JNum (3 / 2))" "check_integer (JNum (- 1))" "check_integer (JNum 10)"
  "\<not> check_integer (JStr ''10'')"
  by code_simp+

lemma test_names:
  "NamedFunction_accepts test_env (strip_get (function_name test_env (JFun (Plain 2))))"
  "NamedFunction_accepts test_env (strip_get (function_name test_env (JFun (Plain 5))))"
  "\<not> NamedFunction_accepts test_env (strip_get (function_name test_env (JFun (Plain 8))))"
  by (simp_all add: test_env_def test_function_name_def test_accepts_def strip_get_def)

theorem construction_validation_witness:
  "CachedFunction test_env (JObj 9) (JFun (Plain 2)) (Value JUndefined) (init (0::nat)) =
     (Inl (SyntaxError ''Do not call CachedFunction with `new`. Call it directly.''), init 0) \<and>
   CachedFunction test_env JUndefined (JStr ''this is not a function'') (Value JUndefined)
       (init (0::nat)) =
     (Inl (TypeError ''valueGetter must be a function''), init 0) \<and>
   CachedFunction test_env JUndefined (JFun (Plain 2)) (Value JUndefined) s_add =
     (Inr (JFun (Wrapped 0)), s_add) \<and>
   CachedFunction test_env JUndefined (JFun (Plain 2))
       (Options \<lparr>opt_strictArgMatch = JUndefined, opt_ttl = JNum (3 / 2)\<rparr>) (init (0::nat)) =
     (Inl (TypeError ''ttl must be a positive integer''), init 0) \<and>
   CachedFunction test_env JUndefined (JFun (Plain 2))
       (Options \<lparr>opt_strictArgMatch = JUndefined, opt_ttl = JNum (- 1)\<rparr>) (init (0::nat)) =
     (Inl (RangeError ''ttl must be a positive integer''), init 0) \<and>
   fst (CachedFunction test_env JUndefined (JFun (Plain 2))
       (Options \<lparr>opt_strictArgMatch = JUndefined, opt_ttl = JNum 10\<rparr>) (init (0::nat))) =
     Inr (JFun (Wrapped 0)) \<and>
   closure_of (snd (CachedFunction test_env JUndefined (JFun (Plain 2))
       (Options \<lparr>opt_strictArgMatch = JUndefined, opt_ttl = JNum 10\<rparr>) (init (0::nat))))
       (JFun (Wrapped 0)) =
     Some \<lparr>valueGetter = JFun (Plain 2), strictArgMatch = JBool True, ttl = JNum 10,
       cachedFunction = JFun (Wrapped 0)\<rparr> \<and>
   call test_env (JFun (Wrapped 0)) global [JNum 2, JNum 2] (tick 1000 s_add22) =
     (Inr (JNum 4), tick 1000 s_add22)"
proof -
  let ?none = "Value JUndefined"
  let ?bad1 = "Options \<lparr>opt_strictArgMatch = JUndefined, opt_ttl = JNum (3 / 2)\<rparr>"
  let ?bad2 = "Options \<lparr>opt_strictArgMatch = JUndefined, opt_ttl = JNum (- 1)\<rparr>"
  let ?good = "Options \<lparr>opt_strictArgMatch = JUndefined, opt_ttl = JNum 10\<rparr>"
  have wf0: "wf (init (0::nat))" by (rule wf_init)
  have wf1: "wf s_add" by (rule wf_CachedFunction [OF wf_init CachedFunction_add])
  have n0: "?none \<noteq> Value JNull" by simp
  have n1: "?bad1 \<noteq> Value JNull" and n2: "?bad2 \<noteq> Value JNull" and n3: "?good \<noteq> Value JNull"
    by simp_all
  have 1: "CachedFunction test_env (JObj 9) (JFun (Plain 2)) ?none (init (0::nat)) =
     (Inl (SyntaxError ''Do not call CachedFunction with `new`. Call it directly.''), init 0)"
    using construction_validation [OF wf0 n0, where t = "JObj 9" and env = test_env
        and g = "JFun (Plain 2)"]
    by simp
  have 2: "CachedFunction test_env JUndefined (JStr ''this is not a function'') ?none (init (0::nat)) =
     (Inl (TypeError ''valueGetter must be a function''), init 0)"
    using construction_validation [OF wf0 n0, where t = JUndefined and env = test_env
        and g = "JStr ''this is not a function''"]
    by (simp add: check_function_def)
  have r: "registered s_add (JFun (Plain 2)) (paramsKey test_env ?none) = Some (JFun (Wrapped 0))"
    by (simp add: s_add_eq registered_def paramsKey_def)
  have 3: "CachedFunction test_env JUndefined (JFun (Plain 2)) ?none s_add =
     (Inr (JFun (Wrapped 0)), s_add)"
    using construction_validation [OF wf1 n0, where t = JUndefined and env = test_env
        and g = "JFun (Plain 2)", THEN conjunct2, THEN conjunct2, THEN conjunct1, rule_format, OF r] .
  have 4: "CachedFunction test_env JUndefined (JFun (Plain 2)) ?bad1 (init (0::nat)) =
     (Inl (TypeError ''ttl must be a positive integer''), init 0)"
    using construction_validation [OF wf0 n1, where t = JUndefined and env = test_env
        and g = "JFun (Plain 2)"] check_integer_examples
    by (simp add: check_function_def registered_init ttl_of_def del: check_integer.simps)
  have 5: "CachedFunction test_env JUndefined (JFun (Plain 2)) ?bad2 (init (0::nat)) =
     (Inl (RangeError ''ttl must be a positive integer''), init 0)"
    using construction_validation [OF wf0 n2, where t = JUndefined and env = test_env
        and g = "JFun (Plain 2)"] check_integer_examples
    by (simp add: check_function_def registered_init ttl_of_def del: check_integer.simps)
  have ok: "ttl_of ?good = JUndefined \<or> ttl_of ?good = JNull \<or>
      check_integer (ttl_of ?good) \<and> check_positive (ttl_of ?good)"
    using check_integer_examples(3) by (simp add: ttl_of_def del: check_integer.simps)
  have f: "check_function (JFun (Plain 2))" by (simp add: check_function_def)
  note b = construction_validation [OF wf0 n3, where t = JUndefined and env = test_env
        and g = "JFun (Plain 2)", THEN conjunct2, THEN conjunct2, THEN conjunct2,
        THEN conjunct2, THEN conjunct1, rule_format, OF f registered_init ok test_names(1)]
  have 6: "fst (CachedFunction test_env JUndefined (JFun (Plain 2)) ?good (init (0::nat))) =
     Inr (JFun (Wrapped 0))"
    using b by (simp add: next_fn_init)
  have 7: "closure_of (snd (CachedFunction test_env JUndefined (JFun (Plain 2)) ?good (init (0::nat))))
       (JFun (Wrapped 0)) =
     Some \<lparr>valueGetter = JFun (Plain 2), strictArgMatch = JBool True, ttl = JNum 10,
       cachedFunction = JFun (Wrapped 0)\<rparr>"
    using b by (simp add: next_fn_init ttl_of_def strict_of_def)
  have u: "ttl_of ?none = JUndefined" by (simp add: ttl_of_def)
  have z: "(0::rat) \<le> 1000" by simp
  have 8: "call test_env (JFun (Wrapped 0)) global [JNum 2, JNum 2] (tick 1000 s_add22) =
     (Inr (JNum 4), tick 1000 s_add22)"
    using construction_validation [OF wf0 n0, where t = JUndefined and env = test_env
        and g = "JFun (Plain 2)", THEN conjunct2, THEN conjunct2, THEN conjunct2,
        THEN conjunct2, THEN conjunct2, rule_format,
        OF registered_init u CachedFunction_add call_add22 z] .
  from 1 2 3 4 5 6 7 8 show ?thesis by (intro conjI)
qed

text \<open>
  The claim as it was written fails twice: for \<open>{ttl: null}\<close> the \<open>maybe\<close> of lines 62 and
  63 lets the ttl through and a wrapper is built; and a configuration with the ttl \<open>-1\<close>
  is not checked at all when a wrapper is already registered under its serialization.
  Here two options objects that hold a reference to themselves, one with the ttl \<open>7\<close> and
  one with the ttl \<open>-1\<close>, both fall back to the empty string of line 56.
\<close>

theorem construction_validation_counterexample:
  "fst (CachedFunction test_env JUndefined (JFun (Plain 2))
          (Options \<lparr>opt_strictArgMatch = JUndefined, opt_ttl = JNull\<rparr>) (init (0::nat))) =
     Inr (JFun (Wrapped 0)) \<and>
   fst (CachedFunction test_env JUndefined (JFun (Plain 2))
          (Options \<lparr>opt_strictArgMatch = JUndefined, opt_ttl = JNum (- 1)\<rparr>)
          (snd (CachedFunction test_env JUndefined (JFun (Plain 2))
             (Options \<lparr>opt_strictArgMatch = JUndefined, opt_ttl = JNum 7\<rparr>) (init (0::nat))))) =
     Inr (JFun (Wrapped 0))"
  by (simp add: eval_defs test_stringify_options_def)

section \<open>C9: a stored \<open>undefined\<close> is a hit\<close>

lemma s_cb_eq:
  "s_cb = \<lparr>cachedFunctions = [JFun (Plain 4) \<mapsto> [[] \<mapsto> JFun (Wrapped 0)]],
     cachedFunctionOptions = [JFun (Wrapped 0) \<mapsto> \<lparr>opt_strictArgMatch = JUndefined, opt_ttl = JUndefined\<rparr>],
     cachedValues = [JFun (Wrapped 0) \<mapsto> Map.empty],
     closures = [0 \<mapsto> \<lparr>valueGetter = JFun (Plain 4), strictArgMatch = JBool True,
        ttl = JUndefined, cachedFunction = JFun (Wrapped 0)\<rparr>],
     next_fn = 1, now = 0, user = 0, calls = []\<rparr>"
  by (simp add: s_cb_def eval_defs)

lemma call_cb:
  "call test_env (JFun (Wrapped 0)) global [] s_cb = (Inr JUndefined, s_cb_called)"
  by (simp add: s_cb_called_def prod_eq_iff) (simp add: s_cb_eq eval_defs)

lemma wf_s_cb: "wf s_cb"
  unfolding s_cb_def
  by (rule wf_CachedFunction [OF wf_init]) (rule surjective_pairing)

text \<open>
  C9. CacheLayer asks the store whether it has the key (line 81) and does not look at the
  value: a call that finds nothing stored and returns a falsy value \<open>v\<close>, \<open>undefined\<close>
  among them, leaves a store that has the key; the store answers \<open>has\<close> with true although
  \<open>get\<close> of a stored \<open>undefined\<close> gives what \<open>get\<close> of a missing key gives; and the next call
  with the same receiver and arguments returns \<open>v\<close> without invoking the callable: state
  and log stay as they are.
\<close>

theorem memoizes_undefined:
  assumes "wf s" and "closure_of s w = Some c"
    and "lookup s w (context_of t) (generateKey env a (strictArgMatch c)) = None"
    and "call env w t a s = (Inr v, s1)"
    and "\<not> truthy v"
    and "0 \<le> d" and "\<forall>q. ttl c = JNum q \<longrightarrow> d < q"
  shows "call env w t a (tick d s1) = (Inr v, tick d s1) \<and>
    calls (tick d s1) = calls s @ [(valueGetter c, t, a)] \<and>
    (\<exists>m. store_of s1 w (context_of t) = Some m \<and>
       TTLMap_has (now s1 + d) m (generateKey env a (strictArgMatch c)) = (True, m) \<and>
       TTLMap_get (now s1 + d) m (generateKey env a (strictArgMatch c)) = (v, m) \<and>
       (v = JUndefined \<longrightarrow>
          fst (TTLMap_get (now s1 + d) new_TTLMap (generateKey env a (strictArgMatch c))) = v))"
proof -
  let ?k = "generateKey env a (strictArgMatch c)"
  note mh = miss_then_hit [OF assms(1,2,3,4,6,7)]
  have cf: "cachedFunction c = w" by (rule wf_closure(1) [OF assms(1,2)])
  have cl: "CacheLayer env c t a s = (Inr v, s1)"
    using assms(4) call_closure [OF assms(2)] by simp
  have cl2: "CacheLayer env c t a (tick d s1) = (Inr v, tick d s1)"
    using mh(3) call_closure [of "tick d s1" w c]
      CacheLayer_closure_of [OF cl] assms(2) by (simp add: closure_of_tick)
  from wf_closure(2) [OF assms(1,2)] have "cachedValues s1 w \<noteq> None"
    using CacheLayer_frame(6) [OF cl] by simp
  then have cv: "cachedValues (tick d s1) (cachedFunction c) \<noteq> None"
    by (simp add: cf tick_def)
  have pos: "check_maybe check_positive (ttl c)" by (rule wf_closure(5) [OF assms(1,2)])
  from CacheLayer_then_cached [OF cv pos cl2]
  have "lookup (tick d s1) w (context_of t) ?k = Some v" by (simp add: cf)
  then obtain m where m: "store_of s1 w (context_of t) = Some m"
      "\<not> expired (now s1 + d) m ?k" "m_values m ?k = Some v"
    by (auto simp: lookup_def store_of_tick now_tick cached_def split: option.splits if_splits)
  then have "TTLMap_has (now s1 + d) m ?k = (True, m)" "TTLMap_get (now s1 + d) m ?k = (v, m)"
    by (simp_all add: TTLMap_has_def TTLMap_get_def)
  moreover have "fst (TTLMap_get (now s1 + d) new_TTLMap ?k) = JUndefined"
    by (simp add: TTLMap_get_def new_TTLMap_def expired_def)
  ultimately show ?thesis
    using mh m(1) by (simp add: calls_tick)
qed

theorem memoizes_undefined_witness:
  "call test_env (JFun (Wrapped 0)) global [] s_cb = (Inr JUndefined, s_cb_called) \<and>
   call test_env (JFun (Wrapped 0)) global [] (tick 0 s_cb_called) =
     (Inr JUndefined, tick 0 s_cb_called) \<and>
   calls (tick 0 s_cb_called) = [(JFun (Plain 4), global, [])]"
proof -
  let ?c = "\<lparr>valueGetter = JFun (Plain 4), strictArgMatch = JBool True,
        ttl = JUndefined, cachedFunction = JFun (Wrapped 0)\<rparr>"
  have c: "closure_of s_cb (JFun (Wrapped 0)) = Some ?c"
    by (simp add: s_cb_eq closure_of_def)
  have l: "lookup s_cb (JFun (Wrapped 0)) (context_of global)
      (generateKey test_env [] (strictArgMatch ?c)) = None"
    by (simp add: s_cb_eq eval_defs)
  have f: "\<not> truthy JUndefined" by simp
  have d: "(0::rat) \<le> 0" and t: "\<forall>q. ttl ?c = JNum q \<longrightarrow> 0 < q" by simp_all
  have e: "calls s_cb = []" by (simp add: s_cb_eq)
  from memoizes_undefined [OF wf_s_cb c l call_cb f d t] e call_cb
  show ?thesis by simp
qed

section \<open>C3: strict and loose matching\<close>

lemma lookup_entry:
  "lookup s f c k =
     (case entry s f c k of
        (vo, None) \<Rightarrow> vo
      | (vo, Some deadline) \<Rightarrow> if deadline \<le> now s then None else vo)"
  by (simp add: lookup_def entry_def cached_def expired_def split: option.splits)

lemma TTLMap_delete_other:
  "k' \<noteq> k \<Longrightarrow> m_values (TTLMap_delete m k) k' = m_values m k'"
  "k' \<noteq> k \<Longrightarrow> m_ttls (TTLMap_delete m k) k' = m_ttls m k'"
  by (simp_all add: TTLMap_delete_def)

lemma TTLMap_delete_same:
  "m_values (TTLMap_delete m k) k = None" "m_ttls (TTLMap_delete m k) k = None"
  by (simp_all add: TTLMap_delete_def)

lemma TTLMap_has_other:
  assumes "TTLMap_has t m k = (b, m1)" and "k' \<noteq> k"
  shows "m_values m1 k' = m_values m k'" and "m_ttls m1 k' = m_ttls m k'"
  using assms by (auto simp: TTLMap_has_def TTLMap_delete_other split: if_splits)

lemma TTLMap_get_other:
  assumes "TTLMap_get t m k = (v, m1)" and "k' \<noteq> k"
  shows "m_values m1 k' = m_values m k'" and "m_ttls m1 k' = m_ttls m k'"
  using assms
  by (auto simp: TTLMap_get_def TTLMap_delete_other split: if_splits option.splits)

lemma TTLMap_set_other:
  assumes "k' \<noteq> k"
  shows "m_values (TTLMap_set t m k v x) k' = m_values m k'"
    and "m_ttls (TTLMap_set t m k v x) k' = m_ttls m k'"
  using assms by (auto simp: TTLMap_set_def split: val.splits)

text \<open>
  What a run of CacheLayer leaves behind: the state as it was, or the state with the store
  of the receiver replaced by one that differs at most under the key of the call, and
  with the callables' own state and the log as the body left them.
\<close>

lemma CacheLayer_outcome:
  assumes "CacheLayer env c t a s = (r, s1)"
  shows "s1 = s \<or>
    (\<exists>b m u l. cachedValues s (cachedFunction c) = Some b \<and>
       s1 = (put_store (cachedFunction c) (context_of t) m s)\<lparr>user := u, calls := l\<rparr> \<and>
       (\<forall>k'. k' \<noteq> generateKey env a (strictArgMatch c) \<longrightarrow>
          m_values m k' = m_values (case b (context_of t) of None \<Rightarrow> new_TTLMap | Some m0 \<Rightarrow> m0) k' \<and>
          m_ttls m k' = m_ttls (case b (context_of t) of None \<Rightarrow> new_TTLMap | Some m0 \<Rightarrow> m0) k'))"
proof (cases "cachedValues s (cachedFunction c)")
  case None
  with assms have "s1 = s" by (simp add: CacheLayer_def Let_def)
  then show ?thesis ..
next
  case (Some b)
  let ?ctx = "context_of t"
  let ?k = "generateKey env a (strictArgMatch c)"
  let ?m0 = "case b ?ctx of None \<Rightarrow> new_TTLMap | Some m0 \<Rightarrow> m0"
  have fin: ?thesis
    if "s1 = (put_store (cachedFunction c) ?ctx m s)\<lparr>user := u, calls := l\<rparr>"
      and "\<And>k'. k' \<noteq> ?k \<Longrightarrow> m_values m k' = m_values ?m0 k'"
      and "\<And>k'. k' \<noteq> ?k \<Longrightarrow> m_ttls m k' = m_ttls ?m0 k'" for m u l
  proof (rule disjI2, intro exI conjI allI impI)
    show "cachedValues s (cachedFunction c) = Some b" by (rule Some)
    show "s1 = (put_store (cachedFunction c) ?ctx m s)\<lparr>user := u, calls := l\<rparr>" by (rule that(1))
    fix k' assume "k' \<noteq> ?k"
    then show "m_values m k' = m_values ?m0 k'" "m_ttls m k' = m_ttls ?m0 k'"
      by (rule that(2), rule that(3))
  qed
  show ?thesis
  proof (cases "b ?ctx = None \<and> \<not> weak_key ?ctx")
    case True
    with assms Some have "s1 = s" by (simp add: CacheLayer_def Let_def)
    then show ?thesis ..
  next
    case False
    obtain hit m1 where h: "TTLMap_has (now s) ?m0 ?k = (hit, m1)" by (cases "TTLMap_has (now s) ?m0 ?k")
    note h1 = TTLMap_has_other [OF h]
    have unf: "CacheLayer env c t a s =
        (case (hit, m1) of
           (True, m1) \<Rightarrow>
             (case TTLMap_get (now s) m1 ?k of
                (v, m2) \<Rightarrow> (Inr v, put_store (cachedFunction c) ?ctx m2 s))
         | (False, m1) \<Rightarrow>
             (case apply_body env (valueGetter c) t a (put_store (cachedFunction c) ?ctx m1 s) of
                (Inl e, s1) \<Rightarrow> (Inl e, s1)
              | (Inr v, s1) \<Rightarrow>
                  (Inr v, put_store (cachedFunction c) ?ctx (TTLMap_set (now s) m1 ?k v (ttl c)) s1)))"
      using Some False h by (auto simp: CacheLayer_def Let_def)
    show ?thesis
    proof (cases hit)
      case True
      obtain v m2 where g: "TTLMap_get (now s) m1 ?k = (v, m2)" by (cases "TTLMap_get (now s) m1 ?k")
      note g1 = TTLMap_get_other [OF g]
      from assms unf True g
      have "s1 = put_store (cachedFunction c) ?ctx m2 s" by simp
      then have "s1 = (put_store (cachedFunction c) ?ctx m2 s)\<lparr>user := user s, calls := calls s\<rparr>"
        by (simp add: put_store_def)
      then show ?thesis
        by (rule fin) (simp_all add: h1 g1)
    next
      case miss: False
      obtain r' u where bd: "body env (valueGetter c) t a (user s) = (r', u)"
        by (cases "body env (valueGetter c) t a (user s)")
      then have ab: "apply_body env (valueGetter c) t a (put_store (cachedFunction c) ?ctx m1 s) =
          (r', (put_store (cachedFunction c) ?ctx m1 s)\<lparr>user := u, calls := calls s @ [(valueGetter c, t, a)]\<rparr>)"
        by (simp add: apply_body_def put_store_def)
      show ?thesis
      proof (cases r')
        case (Inl e)
        from assms unf miss ab Inl
        have "s1 = (put_store (cachedFunction c) ?ctx m1 s)
            \<lparr>user := u, calls := calls s @ [(valueGetter c, t, a)]\<rparr>"
          by simp
        then show ?thesis
          by (rule fin) (simp_all add: h1)
      next
        case (Inr v)
        let ?m2 = "TTLMap_set (now s) m1 ?k v (ttl c)"
        from assms unf miss ab Inr
        have "s1 = put_store (cachedFunction c) ?ctx ?m2 ((put_store (cachedFunction c) ?ctx m1 s)
            \<lparr>user := u, calls := calls s @ [(valueGetter c, t, a)]\<rparr>)"
          by simp
        then have "s1 = (put_store (cachedFunction c) ?ctx ?m2 s)
            \<lparr>user := u, calls := calls s @ [(valueGetter c, t, a)]\<rparr>"
          by (simp add: put_store_def)
        then show ?thesis
          by (rule fin) (simp_all add: h1 TTLMap_set_other)
      qed
    qed
  qed
qed

lemma store_of_user_calls:
  "store_of (s\<lparr>user := u, calls := l\<rparr>) f c = store_of s f c"
  by (simp add: store_of_def)

lemma CacheLayer_store_other:
  assumes "CacheLayer env c t a s = (r, s1)"
    and "f \<noteq> cachedFunction c \<or> c' \<noteq> context_of t"
  shows "store_of s1 f c' = store_of s f c'"
  using CacheLayer_outcome [OF assms(1)] assms(2)
  by (auto simp: store_of_user_calls store_of_put_store)

lemma CacheLayer_entry_other:
  assumes "CacheLayer env c t a s = (r, s1)"
    and "f \<noteq> cachedFunction c \<or> c' \<noteq> context_of t \<or> k' \<noteq> generateKey env a (strictArgMatch c)"
  shows "entry s1 f c' k' = entry s f c' k'"
proof (cases "f \<noteq> cachedFunction c \<or> c' \<noteq> context_of t")
  case True
  from CacheLayer_store_other [OF assms(1) this] show ?thesis by (simp add: entry_def)
next
  case False
  with assms(2) have k: "k' \<noteq> generateKey env a (strictArgMatch c)"
    and f: "f = cachedFunction c" and c: "c' = context_of t" by auto
  from CacheLayer_outcome [OF assms(1)] show ?thesis
  proof
    assume "s1 = s" then show ?thesis by simp
  next
    assume "\<exists>b m u l. cachedValues s (cachedFunction c) = Some b \<and>
       s1 = (put_store (cachedFunction c) (context_of t) m s)\<lparr>user := u, calls := l\<rparr> \<and>
       (\<forall>k'. k' \<noteq> generateKey env a (strictArgMatch c) \<longrightarrow>
          m_values m k' = m_values (case b (context_of t) of None \<Rightarrow> new_TTLMap | Some m0 \<Rightarrow> m0) k' \<and>
          m_ttls m k' = m_ttls (case b (context_of t) of None \<Rightarrow> new_TTLMap | Some m0 \<Rightarrow> m0) k')"
    then obtain b m u l where b: "cachedValues s (cachedFunction c) = Some b"
      and s1: "s1 = (put_store (cachedFunction c) (context_of t) m s)\<lparr>user := u, calls := l\<rparr>"
      and m: "m_values m k' = m_values (case b (context_of t) of None \<Rightarrow> new_TTLMap | Some m0 \<Rightarrow> m0) k'"
         "m_ttls m k' = m_ttls (case b (context_of t) of None \<Rightarrow> new_TTLMap | Some m0 \<Rightarrow> m0) k'"
      using k by blast
    have "store_of s1 f c' = Some m"
      by (simp add: s1 f c store_of_user_calls store_of_put_store)
    moreover have "store_of s f c' = b (context_of t)"
      by (simp add: store_of_def f c b)
    ultimately show ?thesis using m
      by (simp add: entry_def new_TTLMap_def split: option.splits)
  qed
qed

lemma CacheLayer_lookup_other:
  assumes "CacheLayer env c t a s = (r, s1)"
    and "f \<noteq> cachedFunction c \<or> c' \<noteq> context_of t \<or> k' \<noteq> generateKey env a (strictArgMatch c)"
  shows "lookup s1 f c' k' = lookup s f c' k'"
  using CacheLayer_entry_other [OF assms] CacheLayer_frame(5) [OF assms(1)]
  by (simp add: lookup_entry split: prod.splits option.splits)

lemma generateKey_strict:
  "truthy x \<Longrightarrow> generateKey env a x = a"
  by (auto simp: generateKey_def Let_def)

lemma generateKey_loose:
  "\<not> truthy x \<Longrightarrow> x \<noteq> JUndefined \<Longrightarrow>
   generateKey env a x = map (\<lambda>arg. maybeStringify env arg JUndefined) a"
  by (auto simp: generateKey_def Let_def)

lemma wf_strict_defined:
  "wf s \<Longrightarrow> closure_of s w = Some c \<Longrightarrow> strictArgMatch c \<noteq> JUndefined"
  using wf_closure(3) by (fastforce split: if_splits)

lemma maybeStringify_cong:
  "map (stringify env) a' = map (stringify env) a \<Longrightarrow>
   map (\<lambda>arg. maybeStringify env arg x) a' = map (\<lambda>arg. maybeStringify env arg x) a"
proof (induction a' arbitrary: a)
  case Nil
  then show ?case by simp
next
  case (Cons y ys)
  then obtain z zs where "a = z # zs" by (cases a) auto
  with Cons show ?case by (simp add: maybeStringify_def)
qed

lemma call_then_cached:
  assumes "wf s" and "closure_of s w = Some c" and "call env w t a s = (Inr v, s1)"
  shows "lookup s1 w (context_of t) (generateKey env a (strictArgMatch c)) = Some v"
    and "closure_of s1 w = Some c" and "wf s1"
proof -
  have cf: "cachedFunction c = w" by (rule wf_closure(1) [OF assms(1,2)])
  have cl: "CacheLayer env c t a s = (Inr v, s1)"
    using assms(3) call_closure [OF assms(2)] by simp
  from CacheLayer_then_cached [OF _ wf_closure(5) [OF assms(1,2)] cl] wf_closure(2) [OF assms(1,2)] cf
  show "lookup s1 w (context_of t) (generateKey env a (strictArgMatch c)) = Some v" by simp
  show "closure_of s1 w = Some c" using CacheLayer_closure_of [OF cl] assms(2) by simp
  show "wf s1" by (rule wf_CacheLayer [OF assms(1) cl])
qed

lemma call_miss_invokes:
  assumes "wf s" and "closure_of s w = Some c"
    and "store_of s w (context_of t) \<noteq> None \<or> weak_key (context_of t)"
    and "lookup s w (context_of t) (generateKey env a (strictArgMatch c)) = None"
    and "call env w t a s = (r, s1)"
  shows "calls s1 = calls s @ [(valueGetter c, t, a)]"
    and "body env (valueGetter c) t a (user s) = (r, user s1)"
proof -
  have cf: "cachedFunction c = w" by (rule wf_closure(1) [OF assms(1,2)])
  from wf_closure(2) [OF assms(1,2)] obtain b where b: "cachedValues s w = Some b" by auto
  have cl: "CacheLayer env c t a s = (r, s1)"
    using assms(5) call_closure [OF assms(2)] by simp
  have wk: "weak_key (context_of t) \<or> b (context_of t) \<noteq> None"
    using assms(3) b by (auto simp: store_of_def)
  note miss = CacheLayer_miss [OF b [folded cf] wk assms(4) [folded cf] cl]
  show "calls s1 = calls s @ [(valueGetter c, t, a)]" by (rule miss(1))
  show "body env (valueGetter c) t a (user s) = (r, user s1)" by (rule miss(2))
qed

lemma lookup_store: "lookup s f c k = Some v \<Longrightarrow> store_of s f c \<noteq> None"
  by (auto simp: lookup_def split: option.splits)

text \<open>
  C3. Let a call of the wrapper \<open>w\<close> with the arguments \<open>a\<close> have returned \<open>v\<close>. Under strict
  matching the key is \<open>a\<close> itself: for any other sequence \<open>a'\<close> of values, two different
  objects being different values whatever they hold, the store answers as it did before
  the call, and if it had nothing for \<open>a'\<close> the call with \<open>a'\<close> runs the body. Under loose
  matching the key is the sequence of the serialized arguments: a call with any \<open>a'\<close> that
  serializes argument by argument as \<open>a\<close> does returns \<open>v\<close> and leaves the state as it is.
\<close>

theorem key_matching:
  assumes "wf s" and "closure_of s w = Some c" and "call env w t a s = (Inr v, s1)"
  shows
    "(truthy (strictArgMatch c) \<longrightarrow>
        generateKey env a (strictArgMatch c) = a \<and>
        (\<forall>a'. a' \<noteq> a \<longrightarrow>
           generateKey env a' (strictArgMatch c) \<noteq> generateKey env a (strictArgMatch c) \<and>
           lookup s1 w (context_of t) a' = lookup s w (context_of t) a' \<and>
           (lookup s w (context_of t) a' = None \<longrightarrow>
              (\<forall>r s2. call env w t a' s1 = (r, s2) \<longrightarrow>
                 calls s2 = calls s1 @ [(valueGetter c, t, a')])))) \<and>
     (\<not> truthy (strictArgMatch c) \<longrightarrow>
        generateKey env a (strictArgMatch c) = map (\<lambda>arg. maybeStringify env arg JUndefined) a \<and>
        (\<forall>a'. map (stringify env) a' = map (stringify env) a \<longrightarrow>
           generateKey env a' (strictArgMatch c) = generateKey env a (strictArgMatch c) \<and>
           call env w t a' s1 = (Inr v, s1)))"
proof (intro conjI impI allI)
  have cf: "cachedFunction c = w" by (rule wf_closure(1) [OF assms(1,2)])
  have cl: "CacheLayer env c t a s = (Inr v, s1)"
    using assms(3) call_closure [OF assms(2)] by simp
  note after = call_then_cached [OF assms]
  {
    assume st: "truthy (strictArgMatch c)"
    show k: "generateKey env a (strictArgMatch c) = a"
      by (rule generateKey_strict [OF st])
    fix a' assume ne: "a' \<noteq> a"
    show "generateKey env a' (strictArgMatch c) \<noteq> generateKey env a (strictArgMatch c)"
      using ne by (simp add: generateKey_strict [OF st])
    show same: "lookup s1 w (context_of t) a' = lookup s w (context_of t) a'"
      using CacheLayer_lookup_other [OF cl, of w "context_of t" a'] ne k by simp
    fix r s2
    assume none: "lookup s w (context_of t) a' = None" and c2: "call env w t a' s1 = (r, s2)"
    have "lookup s1 w (context_of t) (generateKey env a' (strictArgMatch c)) = None"
      using same none by (simp add: generateKey_strict [OF st])
    from call_miss_invokes(1) [OF after(3) after(2) _ this c2] lookup_store [OF after(1)]
    show "calls s2 = calls s1 @ [(valueGetter c, t, a')]" by simp
  }
  {
    assume lo: "\<not> truthy (strictArgMatch c)"
    note ud = wf_strict_defined [OF assms(1,2)]
    show "generateKey env a (strictArgMatch c) = map (\<lambda>arg. maybeStringify env arg JUndefined) a"
      by (rule generateKey_loose [OF lo ud])
    fix a' assume eq: "map (stringify env) a' = map (stringify env) a"
    show k: "generateKey env a' (strictArgMatch c) = generateKey env a (strictArgMatch c)"
      by (simp add: generateKey_loose [OF lo ud] maybeStringify_cong [OF eq])
    from hit_never_invokes [OF after(3) after(2), of t env a' v] after(1) k
    show "call env w t a' s1 = (Inr v, s1)" by simp
  }
qed

lemma s_strict_eq:
  "s_strict = \<lparr>cachedFunctions = [JFun (Plain 3) \<mapsto> [[] \<mapsto> JFun (Wrapped 0)]],
     cachedFunctionOptions = [JFun (Wrapped 0) \<mapsto> \<lparr>opt_strictArgMatch = JUndefined, opt_ttl = JUndefined\<rparr>],
     cachedValues = [JFun (Wrapped 0) \<mapsto> Map.empty],
     closures = [0 \<mapsto> \<lparr>valueGetter = JFun (Plain 3), strictArgMatch = JBool True,
        ttl = JUndefined, cachedFunction = JFun (Wrapped 0)\<rparr>],
     next_fn = 1, now = 0, user = 0, calls = []\<rparr>"
  by (simp add: s_strict_def eval_defs)

lemma s_loose_eq:
  "s_loose = \<lparr>cachedFunctions = [JFun (Plain 3) \<mapsto>
        [''{'' @ [CHR 0x22] @ ''strictArgMatch'' @ [CHR 0x22] @ '':false}'' \<mapsto> JFun (Wrapped 0)]],
     cachedFunctionOptions = [JFun (Wrapped 0) \<mapsto> \<lparr>opt_strictArgMatch = JBool False, opt_ttl = JUndefined\<rparr>],
     cachedValues = [JFun (Wrapped 0) \<mapsto> Map.empty],
     closures = [0 \<mapsto> \<lparr>valueGetter = JFun (Plain 3), strictArgMatch = JBool False,
        ttl = JUndefined, cachedFunction = JFun (Wrapped 0)\<rparr>],
     next_fn = 1, now = 0, user = 0, calls = []\<rparr>"
  by (simp add: s_loose_def eval_defs test_stringify_options_def)

lemma call_strict1:
  "call test_env (JFun (Wrapped 0)) global [JObj 1] s_strict = (Inr (JObj 1), s_strict1)"
  by (simp add: s_strict1_def prod_eq_iff) (simp add: s_strict_eq eval_defs)

lemma call_loose1:
  "call test_env (JFun (Wrapped 0)) global [JObj 1] s_loose = (Inr (JObj 1), s_loose1)"
  by (simp add: s_loose1_def prod_eq_iff) (simp add: s_loose_eq eval_defs maybeStringify_def)

lemma wf_s_strict: "wf s_strict"
  unfolding s_strict_def
  by (rule wf_CachedFunction [OF wf_init]) (rule surjective_pairing)

lemma wf_s_loose: "wf s_loose"
  unfolding s_loose_def
  by (rule wf_CachedFunction [OF wf_init]) (rule surjective_pairing)

theorem key_matching_witness:
  "call test_env (JFun (Wrapped 0)) global [JObj 1] s_strict = (Inr (JObj 1), s_strict1) \<and>
   stringify test_env (JObj 2) = stringify test_env (JObj 1) \<and>
   calls (snd (call test_env (JFun (Wrapped 0)) global [JObj 2] s_strict1)) =
     calls s_strict1 @ [(JFun (Plain 3), global, [JObj 2])] \<and>
   call test_env (JFun (Wrapped 0)) global [JObj 1] s_loose = (Inr (JObj 1), s_loose1) \<and>
   call test_env (JFun (Wrapped 0)) global [JObj 2] s_loose1 = (Inr (JObj 1), s_loose1)"
proof -
  let ?cs = "\<lparr>valueGetter = JFun (Plain 3), strictArgMatch = JBool True,
        ttl = JUndefined, cachedFunction = JFun (Wrapped 0)\<rparr>"
  let ?cl = "\<lparr>valueGetter = JFun (Plain 3), strictArgMatch = JBool False,
        ttl = JUndefined, cachedFunction = JFun (Wrapped 0)\<rparr>"
  have cs: "closure_of s_strict (JFun (Wrapped 0)) = Some ?cs"
    by (simp add: s_strict_eq closure_of_def)
  have cl: "closure_of s_loose (JFun (Wrapped 0)) = Some ?cl"
    by (simp add: s_loose_eq closure_of_def)
  have ser: "stringify test_env (JObj 2) = stringify test_env (JObj 1)"
    by (simp add: test_env_def)
  have none: "lookup s_strict (JFun (Wrapped 0)) (context_of global) [JObj 2] = None"
    by (simp add: s_strict_eq eval_defs)
  from key_matching [OF wf_s_strict cs call_strict1] none
  have 1: "calls (snd (call test_env (JFun (Wrapped 0)) global [JObj 2] s_strict1)) =
     calls s_strict1 @ [(JFun (Plain 3), global, [JObj 2])]"
    by (simp add: prod_eq_iff)
  from key_matching [OF wf_s_loose cl call_loose1] ser
  have 2: "call test_env (JFun (Wrapped 0)) global [JObj 2] s_loose1 = (Inr (JObj 1), s_loose1)"
    by simp
  from call_strict1 ser 1 call_loose1 2 show ?thesis by (intro conjI)
qed

section \<open>C4: expiry\<close>

lemma user_tick: "user (tick d s) = user s"
  by (simp add: tick_def)

lemma entry_tick: "entry (tick d s) f c k = entry s f c k"
  by (simp add: entry_def store_of_tick)

lemma TTLMap_set_entry:
  "m_values (TTLMap_set t0 m k v x) k = Some v"
  "m_ttls (TTLMap_set t0 m k v (JNum q)) k = Some (t0 + q)"
  "x = JUndefined \<or> x = JNull \<Longrightarrow> m_ttls (TTLMap_set t0 m k v x) k = None"
  by (auto simp: TTLMap_set_def)

lemma TTLMap_read_live:
  assumes "m_values m k = Some v" and "\<not> expired t m k"
  shows "TTLMap_has t m k = (True, m)" and "TTLMap_get t m k = (v, m)"
  using assms by (simp_all add: TTLMap_has_def TTLMap_get_def)

lemma TTLMap_read_expired:
  assumes "expired t m k"
  shows "TTLMap_has t m k = (False, TTLMap_delete m k)"
    and "TTLMap_get t m k = (JUndefined, TTLMap_delete m k)"
  using assms by (simp_all add: TTLMap_has_def TTLMap_get_def)

lemma miss_stores:
  assumes "wf s" and "closure_of s w = Some c"
    and "lookup s w (context_of t) (generateKey env a (strictArgMatch c)) = None"
    and "call env w t a s = (Inr v, s1)"
  shows "entry s1 w (context_of t) (generateKey env a (strictArgMatch c)) =
     (Some v, case ttl c of JNum q \<Rightarrow> Some (now s + q) | _ \<Rightarrow> None)"
proof -
  have cf: "cachedFunction c = w" by (rule wf_closure(1) [OF assms(1,2)])
  from wf_closure(2) [OF assms(1,2)] obtain b where b: "cachedValues s w = Some b" by auto
  have cl: "CacheLayer env c t a s = (Inr v, s1)"
    using assms(4) call_closure [OF assms(2)] by simp
  have wk: "weak_key (context_of t) \<or> b (context_of t) \<noteq> None"
    using cl b cf by (auto simp: CacheLayer_def Let_def split: if_splits)
  from CacheLayer_miss(3) [OF b [folded cf] wk assms(3) [folded cf] cl refl] cf
  show ?thesis by (auto simp: entry_def)
qed

text \<open>
  C4. In the store: an entry set at time \<open>t0\<close> with a ttl \<open>q > 0\<close> has the deadline
  \<open>t0 + q\<close>; \<open>has\<close> and \<open>get\<close> before the deadline find it and change nothing; from the
  deadline on they answer as for a missing key and remove the entry; an entry set with
  no ttl (\<open>undefined\<close> or \<open>null\<close>) is found at any time. In CacheLayer: after a call that
  found nothing stored and returned \<open>v\<close>, the entry carries the deadline \<open>now + ttl\<close>; a
  call before it returns \<open>v\<close> and changes nothing; a call from the deadline on runs the
  body again and gives what the body gives now, never the stale \<open>v\<close> for its own sake;
  without a ttl every later call returns \<open>v\<close>. The deadline itself counts as expired
  (Section 8 of the specification: a miss once the ttl has elapsed).
\<close>

theorem ttl_expiry:
  assumes "wf s" and "closure_of s w = Some c"
    and "lookup s w (context_of t) (generateKey env a (strictArgMatch c)) = None"
    and "call env w t a s = (Inr v, s1)"
  shows
    "(\<forall>q t0 m k x. 0 < q \<longrightarrow>
        m_ttls (TTLMap_set t0 m k x (JNum q)) k = Some (t0 + q) \<and>
        (\<forall>t'. t' < t0 + q \<longrightarrow>
           TTLMap_has t' (TTLMap_set t0 m k x (JNum q)) k = (True, TTLMap_set t0 m k x (JNum q)) \<and>
           TTLMap_get t' (TTLMap_set t0 m k x (JNum q)) k = (x, TTLMap_set t0 m k x (JNum q))) \<and>
        (\<forall>t'. t0 + q \<le> t' \<longrightarrow>
           TTLMap_has t' (TTLMap_set t0 m k x (JNum q)) k =
             (False, TTLMap_delete (TTLMap_set t0 m k x (JNum q)) k) \<and>
           TTLMap_get t' (TTLMap_set t0 m k x (JNum q)) k =
             (JUndefined, TTLMap_delete (TTLMap_set t0 m k x (JNum q)) k) \<and>
           m_values (TTLMap_delete (TTLMap_set t0 m k x (JNum q)) k) k = None \<and>
           m_ttls (TTLMap_delete (TTLMap_set t0 m k x (JNum q)) k) k = None) \<and>
        (\<forall>t'. TTLMap_has t' (TTLMap_set t0 m k x JUndefined) k = (True, TTLMap_set t0 m k x JUndefined) \<and>
           TTLMap_get t' (TTLMap_set t0 m k x JUndefined) k = (x, TTLMap_set t0 m k x JUndefined))) \<and>
     (\<forall>q. ttl c = JNum q \<longrightarrow>
        0 < q \<and>
        entry s1 w (context_of t) (generateKey env a (strictArgMatch c)) = (Some v, Some (now s + q)) \<and>
        (\<forall>d. 0 \<le> d \<longrightarrow> d < q \<longrightarrow> call env w t a (tick d s1) = (Inr v, tick d s1)) \<and>
        (\<forall>d r s2. q \<le> d \<longrightarrow> call env w t a (tick d s1) = (r, s2) \<longrightarrow>
           calls s2 = calls s1 @ [(valueGetter c, t, a)] \<and>
           body env (valueGetter c) t a (user s1) = (r, user s2))) \<and>
     (ttl c = JUndefined \<or> ttl c = JNull \<longrightarrow>
        (\<forall>d. 0 \<le> d \<longrightarrow> call env w t a (tick d s1) = (Inr v, tick d s1)))"
proof (intro conjI)
  show "\<forall>q t0 m k x. 0 < q \<longrightarrow>
        m_ttls (TTLMap_set t0 m k x (JNum q)) k = Some (t0 + q) \<and>
        (\<forall>t'. t' < t0 + q \<longrightarrow>
           TTLMap_has t' (TTLMap_set t0 m k x (JNum q)) k = (True, TTLMap_set t0 m k x (JNum q)) \<and>
           TTLMap_get t' (TTLMap_set t0 m k x (JNum q)) k = (x, TTLMap_set t0 m k x (JNum q))) \<and>
        (\<forall>t'. t0 + q \<le> t' \<longrightarrow>
           TTLMap_has t' (TTLMap_set t0 m k x (JNum q)) k =
             (False, TTLMap_delete (TTLMap_set t0 m k x (JNum q)) k) \<and>
           TTLMap_get t' (TTLMap_set t0 m k x (JNum q)) k =
             (JUndefined, TTLMap_delete (TTLMap_set t0 m k x (JNum q)) k) \<and>
           m_values (TTLMap_delete (TTLMap_set t0 m k x (JNum q)) k) k = None \<and>
           m_ttls (TTLMap_delete (TTLMap_set t0 m k x (JNum q)) k) k = None) \<and>
        (\<forall>t'. TTLMap_has t' (TTLMap_set t0 m k x JUndefined) k = (True, TTLMap_set t0 m k x JUndefined) \<and>
           TTLMap_get t' (TTLMap_set t0 m k x JUndefined) k = (x, TTLMap_set t0 m k x JUndefined))"
  proof (intro allI impI conjI)
    fix q t0 :: rat and m k x
    let ?m = "TTLMap_set t0 m k x (JNum q)"
    let ?n = "TTLMap_set t0 m k x JUndefined"
    show "m_ttls ?m k = Some (t0 + q)" by (rule TTLMap_set_entry(2))
    {
      fix t' assume "t' < t0 + q"
      then have "\<not> expired t' ?m k" by (simp add: expired_def TTLMap_set_entry)
      from TTLMap_read_live [OF TTLMap_set_entry(1) this]
      show "TTLMap_has t' ?m k = (True, ?m)" "TTLMap_get t' ?m k = (x, ?m)" .
    }
    {
      fix t' assume "t0 + q \<le> t'"
      then have "expired t' ?m k" by (simp add: expired_def TTLMap_set_entry)
      from TTLMap_read_expired [OF this]
      show "TTLMap_has t' ?m k = (False, TTLMap_delete ?m k)"
        "TTLMap_get t' ?m k = (JUndefined, TTLMap_delete ?m k)" .
      show "m_values (TTLMap_delete ?m k) k = None" "m_ttls (TTLMap_delete ?m k) k = None"
        by (rule TTLMap_delete_same)+
    }
    {
      fix t'
      have "\<not> expired t' ?n k" by (simp add: expired_def TTLMap_set_entry)
      from TTLMap_read_live [OF TTLMap_set_entry(1) this]
      show "TTLMap_has t' ?n k = (True, ?n)" "TTLMap_get t' ?n k = (x, ?n)" .
    }
  qed
next
  let ?k = "generateKey env a (strictArgMatch c)"
  note after = call_then_cached [OF assms(1,2,4)]
  note ent = miss_stores [OF assms]
  have now1: "now s1 = now s"
    using assms(4) call_closure [OF assms(2)] CacheLayer_frame(5) by metis
  show "\<forall>q. ttl c = JNum q \<longrightarrow>
        0 < q \<and>
        entry s1 w (context_of t) ?k = (Some v, Some (now s + q)) \<and>
        (\<forall>d. 0 \<le> d \<longrightarrow> d < q \<longrightarrow> call env w t a (tick d s1) = (Inr v, tick d s1)) \<and>
        (\<forall>d r s2. q \<le> d \<longrightarrow> call env w t a (tick d s1) = (r, s2) \<longrightarrow>
           calls s2 = calls s1 @ [(valueGetter c, t, a)] \<and>
           body env (valueGetter c) t a (user s1) = (r, user s2))"
  proof (intro allI impI conjI)
    fix q assume q: "ttl c = JNum q"
    from wf_closure(5) [OF assms(1,2)] q show "0 < q" by (simp add: positive_ttl)
    from ent q show e: "entry s1 w (context_of t) ?k = (Some v, Some (now s + q))" by simp
    {
      fix d :: rat assume "0 \<le> d" "d < q"
      then show "call env w t a (tick d s1) = (Inr v, tick d s1)"
        using miss_then_hit(3) [OF assms, of d] q by simp
    }
    {
      fix d r s2
      assume d: "q \<le> d" and c2: "call env w t a (tick d s1) = (r, s2)"
      have l: "lookup (tick d s1) w (context_of t) ?k = None"
        using e d now1 by (simp add: lookup_entry entry_tick now_tick)
      have st: "store_of (tick d s1) w (context_of t) \<noteq> None \<or> weak_key (context_of t)"
        using lookup_store [OF after(1)] by (simp add: store_of_tick)
      have cl: "closure_of (tick d s1) w = Some c" using after(2) by (simp add: closure_of_tick)
      from call_miss_invokes [OF wf_tick [OF after(3)] cl st l c2]
      show "calls s2 = calls s1 @ [(valueGetter c, t, a)]"
        and "body env (valueGetter c) t a (user s1) = (r, user s2)"
        by (simp_all add: calls_tick user_tick)
    }
  qed
  show "ttl c = JUndefined \<or> ttl c = JNull \<longrightarrow>
        (\<forall>d. 0 \<le> d \<longrightarrow> call env w t a (tick d s1) = (Inr v, tick d s1))"
  proof (intro allI impI)
    fix d :: rat assume "ttl c = JUndefined \<or> ttl c = JNull" "0 \<le> d"
    then show "call env w t a (tick d s1) = (Inr v, tick d s1)"
      using miss_then_hit(3) [OF assms, of d] by auto
  qed
qed

lemma s_ttl_eq:
  "s_ttl = \<lparr>cachedFunctions = [JFun (Plain 2) \<mapsto>
        [''{'' @ [CHR 0x22] @ ''ttl'' @ [CHR 0x22] @ '':10}'' \<mapsto> JFun (Wrapped 0)]],
     cachedFunctionOptions = [JFun (Wrapped 0) \<mapsto> \<lparr>opt_strictArgMatch = JUndefined, opt_ttl = JNum 10\<rparr>],
     cachedValues = [JFun (Wrapped 0) \<mapsto> Map.empty],
     closures = [0 \<mapsto> \<lparr>valueGetter = JFun (Plain 2), strictArgMatch = JBool True,
        ttl = JNum 10, cachedFunction = JFun (Wrapped 0)\<rparr>],
     next_fn = 1, now = 0, user = 0, calls = []\<rparr>"
  by (simp add: s_ttl_def eval_defs test_stringify_options_def)

lemma call_ttl1:
  "call test_env (JFun (Wrapped 0)) global [JNum 2, JNum 2] s_ttl = (Inr (JNum 4), s_ttl1)"
  by (simp add: s_ttl1_def prod_eq_iff) (simp add: s_ttl_eq eval_defs)

lemma wf_s_ttl: "wf s_ttl"
  unfolding s_ttl_def
  by (rule wf_CachedFunction [OF wf_init]) (rule surjective_pairing)

theorem ttl_expiry_witness:
  "call test_env (JFun (Wrapped 0)) global [JNum 2, JNum 2] s_ttl = (Inr (JNum 4), s_ttl1) \<and>
   entry s_ttl1 (JFun (Wrapped 0)) noThis [JNum 2, JNum 2] = (Some (JNum 4), Some 10) \<and>
   call test_env (JFun (Wrapped 0)) global [JNum 2, JNum 2] (tick 5 s_ttl1) =
     (Inr (JNum 4), tick 5 s_ttl1) \<and>
   calls (snd (call test_env (JFun (Wrapped 0)) global [JNum 2, JNum 2] (tick 20 s_ttl1))) =
     [(JFun (Plain 2), global, [JNum 2, JNum 2]), (JFun (Plain 2), global, [JNum 2, JNum 2])] \<and>
   TTLMap_has 20 (TTLMap_set 0 new_TTLMap [JNum 2, JNum 2] (JNum 4) (JNum 10)) [JNum 2, JNum 2] =
     (False, TTLMap_delete (TTLMap_set 0 new_TTLMap [JNum 2, JNum 2] (JNum 4) (JNum 10)) [JNum 2, JNum 2])"
proof -
  let ?c = "\<lparr>valueGetter = JFun (Plain 2), strictArgMatch = JBool True,
        ttl = JNum 10, cachedFunction = JFun (Wrapped 0)\<rparr>"
  have c: "closure_of s_ttl (JFun (Wrapped 0)) = Some ?c"
    by (simp add: s_ttl_eq closure_of_def)
  have l: "lookup s_ttl (JFun (Wrapped 0)) (context_of global)
      (generateKey test_env [JNum 2, JNum 2] (strictArgMatch ?c)) = None"
    by (simp add: s_ttl_eq eval_defs)
  have e: "calls s_ttl = []" "now s_ttl = 0" by (simp_all add: s_ttl_eq)
  have k: "generateKey test_env [JNum 2, JNum 2] (JBool True) = [JNum 2, JNum 2]"
    "context_of global = noThis"
    by (simp_all add: generateKey_def context_of_def)
  note th = ttl_expiry [OF wf_s_ttl c l call_ttl1]
  from th have 1: "entry s_ttl1 (JFun (Wrapped 0)) noThis [JNum 2, JNum 2] = (Some (JNum 4), Some 10)"
    by (simp add: e k)
  from th have 2: "call test_env (JFun (Wrapped 0)) global [JNum 2, JNum 2] (tick 5 s_ttl1) =
     (Inr (JNum 4), tick 5 s_ttl1)"
    by simp
  have "calls s_ttl1 = [(JFun (Plain 2), global, [JNum 2, JNum 2])]"
    using call_miss_invokes(1) [OF wf_s_ttl c _ l call_ttl1] e by (simp add: k)
  with th have 3: "calls (snd (call test_env (JFun (Wrapped 0)) global [JNum 2, JNum 2] (tick 20 s_ttl1))) =
     [(JFun (Plain 2), global, [JNum 2, JNum 2]), (JFun (Plain 2), global, [JNum 2, JNum 2])]"
    by (simp add: prod_eq_iff)
  from th have 4: "TTLMap_has 20 (TTLMap_set 0 new_TTLMap [JNum 2, JNum 2] (JNum 4) (JNum 10)) [JNum 2, JNum 2] =
     (False, TTLMap_delete (TTLMap_set 0 new_TTLMap [JNum 2, JNum 2] (JNum 4) (JNum 10)) [JNum 2, JNum 2])"
    by simp
  from call_ttl1 1 2 3 4 show ?thesis by (intro conjI)
qed

section \<open>C5: one store per receiver\<close>

lemma clear_entries_frame:
  assumes "clear_entries env cf ctx args s = (r, s')"
  shows "cachedFunctions s' = cachedFunctions s"
    and "cachedFunctionOptions s' = cachedFunctionOptions s"
    and "closures s' = closures s"
    and "next_fn s' = next_fn s"
    and "now s' = now s"
    and "user s' = user s"
    and "calls s' = calls s"
    and "cachedValues s' g = None \<longleftrightarrow> cachedValues s g = None"
  using assms
  by (auto simp: clear_entries_def put_store_def
      split: option.splits if_splits arglist.splits)

lemma clear_entries_store_other:
  assumes "clear_entries env cf ctx args s = (r, s')"
    and "f \<noteq> cf \<or> c' \<noteq> ctx"
  shows "store_of s' f c' = store_of s f c'"
  using assms
  by (auto simp: clear_entries_def store_of_def put_store_def
      split: option.splits if_splits arglist.splits)

lemma wf_clear_entries:
  assumes "wf s" and "clear_entries env cf ctx args s = (r, s')"
  shows "wf s'"
  using assms(1)
  by (rule wf_frame) (simp_all add: clear_entries_frame [OF assms(2)])

lemma clear_entries_not_cached:
  "cachedValues s cf = None \<Longrightarrow>
   clear_entries env cf ctx args s = (Inl (ReferenceError ''Function is not cached.''), s)"
  by (simp add: clear_entries_def)

lemma clear_entries_not_array:
  "cachedValues s cf \<noteq> None \<Longrightarrow>
   clear_entries env cf ctx ArgsOther s =
     (Inl (TypeError ''Arguments must be passed as an array''), s)"
  by (auto simp: clear_entries_def)

lemma clear_entries_no_store:
  "cachedValues s cf \<noteq> None \<Longrightarrow> store_of s cf ctx = None \<Longrightarrow> args \<noteq> ArgsOther \<Longrightarrow>
   clear_entries env cf ctx args s = (Inr (), s)"
  by (auto simp: clear_entries_def store_of_def)

lemma clear_entries_all:
  assumes "store_of s cf ctx = Some m"
  shows "clear_entries env cf ctx ArgsUndefined s =
     (Inr (), s\<lparr>cachedValues := (cachedValues s)(cf \<mapsto> (the (cachedValues s cf))(ctx := None))\<rparr>)"
  using assms by (auto simp: clear_entries_def store_of_def split: option.splits)

lemma clear_entries_array:
  assumes "store_of s cf ctx = Some m" and "cachedFunctionOptions s cf = Some opts"
  shows "clear_entries env cf ctx (ArgsArray xs) s =
     (Inr (), put_store cf ctx (TTLMap_delete m (generateKey env xs (opt_strictArgMatch opts))) s)"
  using assms by (auto simp: clear_entries_def store_of_def split: option.splits)

lemma clearCache_function:
  "clearCache env (JFun f) x y s = clear_entries env (JFun f) noThis (view_args env x) s"
  by (simp add: clearCache_def check_function_def)

lemma clearCache_method:
  "property env n name = Some (Data (JFun f)) \<Longrightarrow>
   clearCache env (JObj n) (JStr name) x s =
     clear_entries env (JFun f) (This (JObj n)) (view_args env x) s"
  by (simp add: clearCache_def read_property_def)

lemma call_frame:
  assumes "call env g t a s = (r, s')"
  shows "cachedFunctions s' = cachedFunctions s"
    and "cachedFunctionOptions s' = cachedFunctionOptions s"
    and "closures s' = closures s"
    and "next_fn s' = next_fn s"
    and "now s' = now s"
    and "cachedValues s' f = None \<longleftrightarrow> cachedValues s f = None"
  using assms
  by (auto simp: call_def split: val.splits fn.splits option.splits
      dest: CacheLayer_frame apply_body_frame)

lemma call_store_other:
  assumes "call env g t a s = (r, s')" and "c' \<noteq> context_of t"
  shows "store_of s' f c' = store_of s f c'"
proof -
  have "store_of s' f c' = store_of s f c'" if "apply_body env g t a s = (r, s')"
    using apply_body_frame(6) [OF that] by (simp add: store_of_def)
  moreover have "store_of s' f c' = store_of s f c'" if "CacheLayer env c t a s = (r, s')" for c
    using CacheLayer_store_other [OF that] assms(2) by simp
  ultimately show ?thesis
    using assms(1)
    by (auto simp: call_def split: val.splits fn.splits option.splits)
qed

lemma read_property_store_other:
  assumes "read_property env n name s = (r, s')" and "c' \<noteq> context_of (JObj n)"
  shows "store_of s' f c' = store_of s f c'"
  using assms
  by (auto simp: read_property_def split: option.splits descriptor.splits
      dest: call_store_other)

lemma read_property_closures:
  assumes "read_property env n name s = (r, s')"
  shows "closures s' = closures s"
  using assms
  by (auto simp: read_property_def split: option.splits descriptor.splits
      dest: call_frame(3))

lemma wf_read_property:
  assumes "wf s" and "read_property env n name s = (r, s')"
  shows "wf s'"
  using assms
  by (auto simp: read_property_def split: option.splits descriptor.splits
      intro: wf_call)

text \<open>
  clearCache on an object reads the property and then clears in the store of that object
  or fails; the stores of every other receiver stay as they are.
\<close>

lemma clearCache_object_outcome:
  assumes "clearCache env (JObj n) (JStr name) x s = (r, s')"
  shows "\<exists>r1 s1. read_property env n name s = (r1, s1) \<and>
     (s' = s1 \<or> (\<exists>cf args. clear_entries env cf (This (JObj n)) args s1 = (r, s')) \<or>
      (\<exists>r2 s2. read_property env n name s1 = (r2, s2) \<and>
         (s' = s2 \<or> (\<exists>cf args. clear_entries env cf (This (JObj n)) args s2 = (r, s')))))"
proof -
  obtain r1 s1 where rp: "read_property env n name s = (r1, s1)"
    by (cases "read_property env n name s")
  obtain r2 s2 where rp2: "read_property env n name s1 = (r2, s2)"
    by (cases "read_property env n name s1")
  from assms rp rp2
  have "s' = s1 \<or> (\<exists>cf args. clear_entries env cf (This (JObj n)) args s1 = (r, s')) \<or>
      s' = s2 \<or> (\<exists>cf args. clear_entries env cf (This (JObj n)) args s2 = (r, s'))"
    by (auto simp: clearCache_def split: sum.splits if_splits option.splits descriptor.splits)
  with rp rp2 show ?thesis by blast
qed

lemma clearCache_object_store_other:
  assumes "clearCache env (JObj n) m x s = (r, s')"
    and "c' \<noteq> This (JObj n)" and "c' \<noteq> context_of (JObj n)"
  shows "store_of s' f c' = store_of s f c'"
proof (cases m)
  case (JStr name)
  have rd: "store_of t' f c' = store_of t f c'" if "read_property env n name t = (q, t')" for q t t'
    by (rule read_property_store_other [OF that assms(3)])
  have ce: "store_of t' f c' = store_of t f c'"
    if "clear_entries env cf (This (JObj n)) args t = (q, t')" for cf args q t t'
    using clear_entries_store_other [OF that] assms(2) by simp
  from clearCache_object_outcome [OF assms(1) [unfolded JStr]] rd ce show ?thesis
    by (elim exE conjE disjE) simp_all
qed (use assms(1) in \<open>auto simp: clearCache_def\<close>)

lemma wf_clearCache:
  assumes "wf s" and "clearCache env ob m x s = (r, s')"
  shows "wf s'"
proof (cases "\<exists>n name. ob = JObj n \<and> m = JStr name")
  case True
  then obtain n name where ob: "ob = JObj n" "m = JStr name" by blast
  have rd: "wf t'" if "wf t" "read_property env n name t = (q, t')" for q t t'
    by (rule wf_read_property [OF that])
  have ce: "wf t'" if "wf t" "clear_entries env cf c args t = (q, t')" for cf c args q t t'
    by (rule wf_clear_entries [OF that])
  from clearCache_object_outcome [OF assms(2) [unfolded ob]] assms(1) show ?thesis
    by (elim exE conjE disjE) (blast intro: rd ce)+
next
  case False
  with assms(2) have "s' = s \<or> (\<exists>cf c args. clear_entries env cf c args s = (r, s'))"
    by (cases ob; cases m) (auto simp: clearCache_def split: if_splits)
  with assms(1) show ?thesis by (auto intro: wf_clear_entries)
qed

lemma context_of_inj: "context_of t = context_of t' \<longleftrightarrow> t = t'"
  by (auto simp: context_of_def)

lemma context_of_weak: "is_object t \<Longrightarrow> weak_key (context_of t)"
  by (simp add: context_of_def)

text \<open>
  C5. The store a call uses is found by the identity of its receiver, the global object
  standing for no receiver and mapped to \<open>noThis\<close>. Let a call of the wrapper \<open>w\<close> on the
  receiver \<open>t\<close> with the arguments \<open>a\<close> have found nothing stored and returned \<open>v\<close>, and let
  \<open>t'\<close> be another object. Then a second call on \<open>t\<close> returns \<open>v\<close> from the store; the store
  of \<open>t'\<close> is as it was before the call, so that a call on \<open>t'\<close> with the same arguments
  runs the body again if it had nothing stored; clearCache given the wrapper itself
  leaves every store but that of \<open>noThis\<close> as it is, and clearCache given an object leaves
  the stores of every other receiver as they are.
\<close>

theorem context_isolation:
  assumes "wf s" and "closure_of s w = Some c"
    and "lookup s w (context_of t) (generateKey env a (strictArgMatch c)) = None"
    and "call env w t a s = (Inr v, s1)"
    and "t' \<noteq> t" and "is_object t'"
  shows "context_of global = noThis \<and>
    context_of t' \<noteq> context_of t \<and>
    call env w t a s1 = (Inr v, s1) \<and>
    store_of s1 w (context_of t') = store_of s w (context_of t') \<and>
    (lookup s w (context_of t') (generateKey env a (strictArgMatch c)) = None \<longrightarrow>
       (\<forall>r s2. call env w t' a s1 = (r, s2) \<longrightarrow>
          calls s2 = calls s1 @ [(valueGetter c, t', a)] \<and>
          body env (valueGetter c) t' a (user s1) = (r, user s2) \<and>
          store_of s2 w (context_of t) = store_of s1 w (context_of t))) \<and>
    (\<forall>x y r s' ctx. clearCache env w x y s1 = (r, s') \<longrightarrow> ctx \<noteq> noThis \<longrightarrow>
       store_of s' w ctx = store_of s1 w ctx) \<and>
    (\<forall>n m x r s' ctx f. clearCache env (JObj n) m x s1 = (r, s') \<longrightarrow>
       ctx \<noteq> This (JObj n) \<longrightarrow> ctx \<noteq> context_of (JObj n) \<longrightarrow>
       store_of s' f ctx = store_of s1 f ctx)"
proof (intro conjI allI impI)
  let ?k = "generateKey env a (strictArgMatch c)"
  note after = call_then_cached [OF assms(1,2,4)]
  have cf: "cachedFunction c = w" by (rule wf_closure(1) [OF assms(1,2)])
  have cl: "CacheLayer env c t a s = (Inr v, s1)"
    using assms(4) call_closure [OF assms(2)] by simp
  show "context_of global = noThis" by (simp add: context_of_def)
  show ne: "context_of t' \<noteq> context_of t" using assms(5) by (simp add: context_of_inj)
  show "call env w t a s1 = (Inr v, s1)"
    by (rule hit_never_invokes [OF after(3) after(2) after(1)])
  show st: "store_of s1 w (context_of t') = store_of s w (context_of t')"
    using CacheLayer_store_other [OF cl, of w "context_of t'"] ne by simp
  {
    fix r s2
    assume none: "lookup s w (context_of t') ?k = None" and c2: "call env w t' a s1 = (r, s2)"
    have "lookup s1 w (context_of t') ?k = lookup s w (context_of t') ?k"
      using CacheLayer_lookup_other [OF cl, of w "context_of t'" ?k] ne by simp
    with none have l: "lookup s1 w (context_of t') ?k = None" by simp
    have wk: "store_of s1 w (context_of t') \<noteq> None \<or> weak_key (context_of t')"
      using context_of_weak [OF assms(6)] by simp
    from call_miss_invokes [OF after(3) after(2) wk l c2]
    show "calls s2 = calls s1 @ [(valueGetter c, t', a)]"
      and "body env (valueGetter c) t' a (user s1) = (r, user s2)" .
    show "store_of s2 w (context_of t) = store_of s1 w (context_of t)"
      using call_store_other [OF c2, of "context_of t" w] ne by simp
  }
  {
    fix x y r s' ctx
    assume cc: "clearCache env w x y s1 = (r, s')" and nn: "ctx \<noteq> noThis"
    from closure_of_SomeD [OF assms(2)] obtain i where w: "w = JFun (Wrapped i)" by blast
    from cc have "clear_entries env w noThis (view_args env x) s1 = (r, s')"
      by (simp add: w clearCache_function)
    from clear_entries_store_other [OF this, of w ctx] nn
    show "store_of s' w ctx = store_of s1 w ctx" by simp
  }
  {
    fix n m x r s' ctx f
    assume "clearCache env (JObj n) m x s1 = (r, s')" "ctx \<noteq> This (JObj n)"
      "ctx \<noteq> context_of (JObj n)"
    then show "store_of s' f ctx = store_of s1 f ctx"
      by (rule clearCache_object_store_other)
  }
qed

lemma s_method_eq:
  "s_method = \<lparr>cachedFunctions = [JFun (Plain 7) \<mapsto> [[] \<mapsto> JFun (Wrapped 0)]],
     cachedFunctionOptions = [JFun (Wrapped 0) \<mapsto> \<lparr>opt_strictArgMatch = JUndefined, opt_ttl = JUndefined\<rparr>],
     cachedValues = [JFun (Wrapped 0) \<mapsto> Map.empty],
     closures = [0 \<mapsto> \<lparr>valueGetter = JFun (Plain 7), strictArgMatch = JBool True,
        ttl = JUndefined, cachedFunction = JFun (Wrapped 0)\<rparr>],
     next_fn = 1, now = 0, user = 0, calls = []\<rparr>"
  by (simp add: s_method_def eval_defs)

lemma call_method1:
  "call test_env (JFun (Wrapped 0)) (JObj 6) [] s_method = (Inr (JStr ''value1''), s_method1)"
  by (simp add: s_method1_def prod_eq_iff) (simp add: s_method_eq eval_defs)

lemma wf_s_method: "wf s_method"
  unfolding s_method_def
  by (rule wf_CachedFunction [OF wf_init]) (rule surjective_pairing)

theorem context_isolation_witness:
  "call test_env (JFun (Wrapped 0)) (JObj 6) [] s_method = (Inr (JStr ''value1''), s_method1) \<and>
   call test_env (JFun (Wrapped 0)) (JObj 6) [] s_method1 = (Inr (JStr ''value1''), s_method1) \<and>
   store_of s_method1 (JFun (Wrapped 0)) (This (JObj 7)) = None \<and>
   calls (snd (call test_env (JFun (Wrapped 0)) (JObj 7) [] s_method1)) =
     [(JFun (Plain 7), JObj 6, []), (JFun (Plain 7), JObj 7, [])] \<and>
   fst (call test_env (JFun (Wrapped 0)) (JObj 7) [] s_method1) = Inr (JStr ''value2'') \<and>
   store_of (snd (clearCache test_env (JObj 7) (JStr ''data'') JUndefined s_method1))
       (JFun (Wrapped 0)) (This (JObj 6)) =
     store_of s_method1 (JFun (Wrapped 0)) (This (JObj 6)) \<and>
   store_of (snd (clearCache test_env (JFun (Wrapped 0)) JUndefined JUndefined s_method1))
       (JFun (Wrapped 0)) (This (JObj 6)) =
     store_of s_method1 (JFun (Wrapped 0)) (This (JObj 6))"
proof -
  let ?c = "\<lparr>valueGetter = JFun (Plain 7), strictArgMatch = JBool True,
        ttl = JUndefined, cachedFunction = JFun (Wrapped 0)\<rparr>"
  let ?w = "JFun (Wrapped 0)"
  have c: "closure_of s_method ?w = Some ?c"
    by (simp add: s_method_eq closure_of_def)
  have l: "lookup s_method ?w (context_of (JObj 6)) (generateKey test_env [] (strictArgMatch ?c)) = None"
    by (simp add: s_method_eq eval_defs)
  have l7: "lookup s_method ?w (context_of (JObj 7)) (generateKey test_env [] (strictArgMatch ?c)) = None"
    by (simp add: s_method_eq eval_defs)
  have ne: "JObj 7 \<noteq> JObj 6" and ob: "is_object (JObj 7)" by simp_all
  have e: "calls s_method = []" "store_of s_method ?w (This (JObj 7)) = None"
    by (simp_all add: s_method_eq store_of_def)
  have k: "context_of (JObj 7) = This (JObj 7)" "context_of (JObj 6) = This (JObj 6)"
    by (simp_all add: context_of_def global_def)
  have u: "user s_method1 = 1" "calls s_method1 = [(JFun (Plain 7), JObj 6, [])]"
    using call_miss_invokes [OF wf_s_method c _ l call_method1] e
    by (simp_all add: k test_env_def s_method_eq)
  note th = context_isolation [OF wf_s_method c l call_method1 ne ob]
  from th have 1: "call test_env ?w (JObj 6) [] s_method1 = (Inr (JStr ''value1''), s_method1)"
    by simp
  from th e k have 2: "store_of s_method1 ?w (This (JObj 7)) = None" by simp
  obtain r s2 where c2: "call test_env ?w (JObj 7) [] s_method1 = (r, s2)"
    by (cases "call test_env ?w (JObj 7) [] s_method1")
  from th l7 c2 have "calls s2 = calls s_method1 @ [(JFun (Plain 7), JObj 7, [])]"
    and "body test_env (JFun (Plain 7)) (JObj 7) [] (user s_method1) = (r, user s2)"
    by simp_all
  with u c2 have 3: "calls (snd (call test_env ?w (JObj 7) [] s_method1)) =
     [(JFun (Plain 7), JObj 6, []), (JFun (Plain 7), JObj 7, [])]"
    and 4: "fst (call test_env ?w (JObj 7) [] s_method1) = Inr (JStr ''value2'')"
    by (simp_all add: test_env_def)
  from th [THEN conjunct2, THEN conjunct2, THEN conjunct2, THEN conjunct2, THEN conjunct2, THEN conjunct2]
  have 5: "store_of (snd (clearCache test_env (JObj 7) (JStr ''data'') JUndefined s_method1))
       ?w (This (JObj 6)) = store_of s_method1 ?w (This (JObj 6))"
    by (simp add: prod_eq_iff k)
  from th [THEN conjunct2, THEN conjunct2, THEN conjunct2, THEN conjunct2, THEN conjunct2, THEN conjunct1]
  have 6: "store_of (snd (clearCache test_env ?w JUndefined JUndefined s_method1))
       ?w (This (JObj 6)) = store_of s_method1 ?w (This (JObj 6))"
    by (simp add: prod_eq_iff)
  from call_method1 1 2 3 4 5 6 show ?thesis by (intro conjI)
qed

section \<open>C6: clearing one argument list\<close>

lemma generateKey_default:
  "strict = (if x = JUndefined then JBool True else x) \<Longrightarrow>
   generateKey env a x = generateKey env a strict"
  by (simp add: generateKey_def Let_def)

lemma wf_clear_key:
  assumes "wf s" and "closure_of s w = Some c"
  shows "\<exists>opts. cachedFunctionOptions s w = Some opts \<and>
     generateKey env a (opt_strictArgMatch opts) = generateKey env a (strictArgMatch c)"
proof -
  from wf_closure(3) [OF assms] obtain opts where
    o: "cachedFunctionOptions s w = Some opts"
       "strictArgMatch c = (if opt_strictArgMatch opts = JUndefined then JBool True
                               else opt_strictArgMatch opts)"
    by blast
  from generateKey_default [OF o(2)] o(1) show ?thesis by blast
qed

lemma entry_put_store:
  "entry (put_store f c m s) g c' k =
     (if g = f \<and> c' = c then (m_values m k, m_ttls m k) else entry s g c' k)"
  by (simp add: entry_def store_of_put_store)

text \<open>
  Clearing one key of a store that exists: the entry under the key is gone, every other
  entry and every other store is as before, and nothing else of the state changes.
\<close>

lemma clear_key:
  assumes "wf s" and "closure_of s w = Some c" and "store_of s w ctx = Some m"
  shows "clear_entries env w ctx (ArgsArray a) s =
     (Inr (), put_store w ctx (TTLMap_delete m (generateKey env a (strictArgMatch c))) s)"
proof -
  from wf_clear_key [OF assms(1,2)] obtain opts where
    "cachedFunctionOptions s w = Some opts"
    "generateKey env a (opt_strictArgMatch opts) = generateKey env a (strictArgMatch c)"
    by blast
  with clear_entries_array [OF assms(3), of opts env a] show ?thesis by simp
qed

lemma closure_of_put_store: "closure_of (put_store f c m s) g = closure_of s g"
  by (rule closure_of_cong) (simp add: put_store_frame)

lemma wf_put_store:
  assumes "wf s" and "cachedValues s f \<noteq> None"
  shows "wf (put_store f c m s)"
  using assms(1)
  by (rule wf_frame) (auto simp: put_store_frame put_store_cachedValues assms(2))

text \<open>
  C6. Let a call \<open>w(a)\<close> without receiver have found nothing stored and have returned \<open>v\<close>,
  and let \<open>JObj n\<close> be an array with the elements \<open>a\<close>. Then \<open>clearCache(w, JObj n)\<close>
  succeeds; it removes the entry of \<open>a\<close> from the store of \<open>noThis\<close>, leaves every other
  entry of that store, every other store, the log and the callables' state as they are;
  the next call \<open>w(a)\<close> runs the body again, and returns \<open>v\<close> again if the result of the
  body does not depend on the callables' state. With \<open>undefined\<close> for the argument list
  \<open>clearCache(w)\<close> removes the whole store of \<open>noThis\<close> and nothing else.
\<close>

theorem targeted_clear:
  assumes "wf s" and "closure_of s w = Some c"
    and "lookup s w noThis (generateKey env a (strictArgMatch c)) = None"
    and "call env w global a s = (Inr v, s1)"
    and "elements env n = Some a"
  shows
    "(\<forall>y r s2. clearCache env w (JObj n) y s1 = (r, s2) \<longrightarrow>
        r = Inr () \<and>
        entry s2 w noThis (generateKey env a (strictArgMatch c)) = (None, None) \<and>
        (\<forall>k. k \<noteq> generateKey env a (strictArgMatch c) \<longrightarrow>
           entry s2 w noThis k = entry s1 w noThis k) \<and>
        (\<forall>f ctx. f \<noteq> w \<or> ctx \<noteq> noThis \<longrightarrow> store_of s2 f ctx = store_of s1 f ctx) \<and>
        calls s2 = calls s1 \<and> user s2 = user s1 \<and> now s2 = now s1 \<and>
        (\<forall>r' s3. call env w global a s2 = (r', s3) \<longrightarrow>
           calls s3 = calls s2 @ [(valueGetter c, global, a)] \<and>
           body env (valueGetter c) global a (user s2) = (r', user s3) \<and>
           ((\<forall>u u'. fst (body env (valueGetter c) global a u) =
                    fst (body env (valueGetter c) global a u')) \<longrightarrow> r' = Inr v))) \<and>
     (\<forall>y r s2. clearCache env w JUndefined y s1 = (r, s2) \<longrightarrow>
        r = Inr () \<and> store_of s2 w noThis = None \<and>
        (\<forall>f ctx. f \<noteq> w \<or> ctx \<noteq> noThis \<longrightarrow> store_of s2 f ctx = store_of s1 f ctx) \<and>
        calls s2 = calls s1)"
proof (intro conjI allI impI)
  let ?k = "generateKey env a (strictArgMatch c)"
  have g: "context_of global = noThis" by (simp add: context_of_def)
  note after = call_then_cached [OF assms(1,2,4), unfolded g]
  note first = call_miss_invokes [OF assms(1,2) _ assms(3) [folded g] assms(4)]
  from closure_of_SomeD [OF assms(2)] obtain i where w: "w = JFun (Wrapped i)" by blast
  from lookup_store [OF after(1)] obtain m where m: "store_of s1 w noThis = Some m" by auto
  have va: "view_args env (JObj n) = ArgsArray a" by (simp add: view_args_def assms(5))
  have vu: "view_args env JUndefined = ArgsUndefined" by (simp add: view_args_def)
  {
    fix y r s2
    assume cc: "clearCache env w (JObj n) y s1 = (r, s2)"
    then have ce: "clear_entries env w noThis (ArgsArray a) s1 = (r, s2)"
      by (simp add: w clearCache_function va)
    with clear_key [OF after(3) after(2) m, of env a]
    have r: "r = Inr ()" and s2: "s2 = put_store w noThis (TTLMap_delete m ?k) s1" by simp_all
    show "r = Inr ()" by (rule r)
    show e: "entry s2 w noThis ?k = (None, None)"
      by (simp add: s2 entry_put_store TTLMap_delete_same)
    show "entry s2 w noThis k = entry s1 w noThis k" if "k \<noteq> ?k" for k
    proof -
      have "entry s1 w noThis k = (m_values m k, m_ttls m k)" by (simp add: entry_def m)
      with that show ?thesis by (simp add: s2 entry_put_store TTLMap_delete_other)
    qed
    show "store_of s2 f ctx = store_of s1 f ctx" if "f \<noteq> w \<or> ctx \<noteq> noThis" for f ctx
      using clear_entries_store_other [OF ce, of f ctx] that by simp
    show "calls s2 = calls s1" "user s2 = user s1" "now s2 = now s1"
      by (simp_all add: s2 put_store_frame)
    fix r' s3
    assume c3: "call env w global a s2 = (r', s3)"
    have wf2: "wf s2" by (rule wf_clear_entries [OF after(3) ce])
    have cl2: "closure_of s2 w = Some c" using after(2) by (simp add: s2 closure_of_put_store)
    have l2: "lookup s2 w (context_of global) ?k = None"
      using e by (simp add: lookup_entry g)
    have wk: "store_of s2 w (context_of global) \<noteq> None \<or> weak_key (context_of global)"
      by (simp add: g)
    note again = call_miss_invokes [OF wf2 cl2 wk l2 c3]
    show "calls s3 = calls s2 @ [(valueGetter c, global, a)]" by (rule again(1))
    show b3: "body env (valueGetter c) global a (user s2) = (r', user s3)" by (rule again(2))
    assume pure: "\<forall>u u'. fst (body env (valueGetter c) global a u) =
                    fst (body env (valueGetter c) global a u')"
    have "body env (valueGetter c) global a (user s) = (Inr v, user s1)"
      using first(2) by (simp add: g)
    with b3 pure [rule_format, of "user s" "user s2"] show "r' = Inr v" by simp
  }
  {
    fix y r s2
    assume cc: "clearCache env w JUndefined y s1 = (r, s2)"
    then have ce: "clear_entries env w noThis ArgsUndefined s1 = (r, s2)"
      by (simp add: w clearCache_function vu)
    with clear_entries_all [OF m, of env]
    have r: "r = Inr ()"
      and s2: "s2 = s1\<lparr>cachedValues := (cachedValues s1)(w \<mapsto> (the (cachedValues s1 w))(noThis := None))\<rparr>"
      by simp_all
    show "r = Inr ()" by (rule r)
    show "store_of s2 w noThis = None" by (simp add: s2 store_of_def)
    show "store_of s2 f ctx = store_of s1 f ctx" if "f \<noteq> w \<or> ctx \<noteq> noThis" for f ctx
      using clear_entries_store_other [OF ce, of f ctx] that by simp
    show "calls s2 = calls s1" by (simp add: s2)
  }
qed

lemma wf_s_add: "wf s_add"
  unfolding s_add_def
  by (rule wf_CachedFunction [OF wf_init]) (rule surjective_pairing)

lemma call_add55:
  "call test_env (JFun (Wrapped 0)) global [JNum 5, JNum 5] s_add = (Inr (JNum 10), s_add55)"
  by (simp add: s_add55_def prod_eq_iff) (simp add: s_add_eq eval_defs)

lemma s_add55_eq:
  "s_add55 = \<lparr>cachedFunctions = [JFun (Plain 2) \<mapsto> [[] \<mapsto> JFun (Wrapped 0)]],
     cachedFunctionOptions = [JFun (Wrapped 0) \<mapsto> \<lparr>opt_strictArgMatch = JUndefined, opt_ttl = JUndefined\<rparr>],
     cachedValues = [JFun (Wrapped 0) \<mapsto>
        [noThis \<mapsto> \<lparr>m_values = [[JNum 5, JNum 5] \<mapsto> JNum 10], m_ttls = Map.empty\<rparr>]],
     closures = [0 \<mapsto> \<lparr>valueGetter = JFun (Plain 2), strictArgMatch = JBool True,
        ttl = JUndefined, cachedFunction = JFun (Wrapped 0)\<rparr>],
     next_fn = 1, now = 0, user = 1, calls = [(JFun (Plain 2), global, [JNum 5, JNum 5])]\<rparr>"
  by (simp add: s_add55_def s_add_eq eval_defs)

lemma call_add5522:
  "call test_env (JFun (Wrapped 0)) global [JNum 2, JNum 2] s_add55 = (Inr (JNum 4), s_add5522)"
  by (simp add: s_add5522_def prod_eq_iff) (simp add: s_add55_eq eval_defs)

lemma wf_s_add55: "wf s_add55"
  by (rule wf_call [OF wf_s_add call_add55])

theorem targeted_clear_witness:
  "call test_env (JFun (Wrapped 0)) global [JNum 2, JNum 2] s_add55 = (Inr (JNum 4), s_add5522) \<and>
   fst (clearCache test_env (JFun (Wrapped 0)) (JObj 3) JUndefined s_add5522) = Inr () \<and>
   entry (snd (clearCache test_env (JFun (Wrapped 0)) (JObj 3) JUndefined s_add5522))
     (JFun (Wrapped 0)) noThis [JNum 2, JNum 2] = (None, None) \<and>
   entry (snd (clearCache test_env (JFun (Wrapped 0)) (JObj 3) JUndefined s_add5522))
     (JFun (Wrapped 0)) noThis [JNum 5, JNum 5] = (Some (JNum 10), None) \<and>
   fst (call test_env (JFun (Wrapped 0)) global [JNum 2, JNum 2]
     (snd (clearCache test_env (JFun (Wrapped 0)) (JObj 3) JUndefined s_add5522))) = Inr (JNum 4) \<and>
   calls (snd (call test_env (JFun (Wrapped 0)) global [JNum 2, JNum 2]
     (snd (clearCache test_env (JFun (Wrapped 0)) (JObj 3) JUndefined s_add5522)))) =
     [(JFun (Plain 2), global, [JNum 5, JNum 5]), (JFun (Plain 2), global, [JNum 2, JNum 2]),
      (JFun (Plain 2), global, [JNum 2, JNum 2])] \<and>
   store_of (snd (clearCache test_env (JFun (Wrapped 0)) JUndefined JUndefined s_add5522))
     (JFun (Wrapped 0)) noThis = None"
proof -
  let ?c = "\<lparr>valueGetter = JFun (Plain 2), strictArgMatch = JBool True,
        ttl = JUndefined, cachedFunction = JFun (Wrapped 0)\<rparr>"
  let ?w = "JFun (Wrapped 0)"
  let ?s2 = "snd (clearCache test_env ?w (JObj 3) JUndefined s_add5522)"
  have c: "closure_of s_add55 ?w = Some ?c"
    by (simp add: s_add55_eq closure_of_def)
  have k: "generateKey test_env [JNum 2, JNum 2] (strictArgMatch ?c) = [JNum 2, JNum 2]"
    by (simp add: generateKey_def)
  have l: "lookup s_add55 ?w noThis (generateKey test_env [JNum 2, JNum 2] (strictArgMatch ?c)) = None"
    by (simp add: s_add55_eq eval_defs)
  have el: "elements test_env 3 = Some [JNum 2, JNum 2]"
    by (simp add: test_env_def test_elements_def)
  have e55: "entry s_add55 ?w noThis [JNum 5, JNum 5] = (Some (JNum 10), None)"
    by (simp add: s_add55_eq entry_def store_of_def)
  have e5522: "entry s_add5522 ?w noThis [JNum 5, JNum 5] = (Some (JNum 10), None)"
    by (simp add: s_add5522_def s_add55_eq eval_defs entry_def)
  have cs: "calls s_add5522 = [(JFun (Plain 2), global, [JNum 5, JNum 5]),
      (JFun (Plain 2), global, [JNum 2, JNum 2])]"
    using call_miss_invokes(1) [OF wf_s_add55 c _ _ call_add5522] l
    by (simp add: context_of_def s_add55_eq)
  have pure: "\<forall>u u'. fst (body test_env (valueGetter ?c) global [JNum 2, JNum 2] u) =
      fst (body test_env (valueGetter ?c) global [JNum 2, JNum 2] u')"
    by (simp add: test_env_def)
  note th = targeted_clear [OF wf_s_add55 c l call_add5522 el]
  note t1 = th [THEN conjunct1, rule_format, of JUndefined
      "fst (clearCache test_env ?w (JObj 3) JUndefined s_add5522)" ?s2, OF surjective_pairing,
      unfolded k]
  from t1 have 1: "fst (clearCache test_env ?w (JObj 3) JUndefined s_add5522) = Inr ()"
    and 2: "entry ?s2 ?w noThis [JNum 2, JNum 2] = (None, None)"
    and 3: "entry ?s2 ?w noThis [JNum 5, JNum 5] = entry s_add5522 ?w noThis [JNum 5, JNum 5]"
    and cs2: "calls ?s2 = calls s_add5522"
    by simp_all
  from t1 have "\<forall>r' s3. call test_env ?w global [JNum 2, JNum 2] ?s2 = (r', s3) \<longrightarrow>
           calls s3 = calls ?s2 @ [(valueGetter ?c, global, [JNum 2, JNum 2])] \<and>
           body test_env (valueGetter ?c) global [JNum 2, JNum 2] (user ?s2) = (r', user s3) \<and>
           ((\<forall>u u'. fst (body test_env (valueGetter ?c) global [JNum 2, JNum 2] u) =
                    fst (body test_env (valueGetter ?c) global [JNum 2, JNum 2] u')) \<longrightarrow>
            r' = Inr (JNum 4))"
    by (elim conjE)
  note t2 = this [rule_format, OF surjective_pairing]
  from t2 pure have 4: "fst (call test_env ?w global [JNum 2, JNum 2] ?s2) = Inr (JNum 4)"
    by blast
  from t2 have 5: "calls (snd (call test_env ?w global [JNum 2, JNum 2] ?s2)) =
      calls ?s2 @ [(JFun (Plain 2), global, [JNum 2, JNum 2])]"
    by simp
  note t3 = th [THEN conjunct2, rule_format, of JUndefined
      "fst (clearCache test_env ?w JUndefined JUndefined s_add5522)"
      "snd (clearCache test_env ?w JUndefined JUndefined s_add5522)", OF surjective_pairing]
  from t3 have 6: "store_of (snd (clearCache test_env ?w JUndefined JUndefined s_add5522)) ?w noThis = None"
    by simp
  from call_add5522 1 2 3 e5522 4 5 cs2 cs 6 show ?thesis by simp
qed

section \<open>C8: the errors of clearCache, and clearing what is not there\<close>

lemma TTLMap_delete_absent:
  "m_values m k = None \<Longrightarrow> m_ttls m k = None \<Longrightarrow> TTLMap_delete m k = m"
  by (simp add: TTLMap_delete_def fun_upd_idem)

lemma TTLMap_delete_twice: "TTLMap_delete (TTLMap_delete m k) k = TTLMap_delete m k"
  by (simp add: TTLMap_delete_def)

lemma closure_is_function: "closure_of s w = Some c \<Longrightarrow> \<exists>f. w = JFun f"
  by (auto dest: closure_of_SomeD)

lemma clear_entries_ok_state:
  assumes "wf s" and "closure_of s w = Some c"
    and "clear_entries env w ctx args s = (Inr (), s')"
  shows "s' = s \<and> store_of s w ctx = None \<or>
     (\<exists>m. store_of s w ctx = Some m \<and> args = ArgsUndefined \<and> store_of s' w ctx = None \<and>
        cachedValues s' w \<noteq> None) \<or>
     (\<exists>m a. store_of s w ctx = Some m \<and> args = ArgsArray a \<and>
        s' = put_store w ctx (TTLMap_delete m (generateKey env a (strictArgMatch c))) s)"
proof (cases "store_of s w ctx")
  case None
  with assms(3) wf_closure(2) [OF assms(1,2)] show ?thesis
    by (auto simp: clear_entries_def store_of_def split: if_splits)
next
  case (Some m)
  show ?thesis
  proof (cases args)
    case ArgsUndefined
    with clear_entries_all [OF Some, of env] assms(3) Some show ?thesis
      by (auto simp: store_of_def)
  next
    case (ArgsArray a)
    with clear_key [OF assms(1,2) Some, of env a] assms(3) Some show ?thesis by auto
  next
    case ArgsNull
    with assms(3) Some show ?thesis
      by (auto simp: clear_entries_def store_of_def split: option.splits if_splits)
  next
    case ArgsOther
    with assms(3) Some show ?thesis
      by (auto simp: clear_entries_def store_of_def split: option.splits if_splits)
  qed
qed

lemma clear_entries_idempotent:
  assumes "wf s" and "closure_of s w = Some c"
    and "clear_entries env w ctx args s = (Inr (), s')"
  shows "clear_entries env w ctx args s' = (Inr (), s')"
proof -
  have wf': "wf s'" by (rule wf_clear_entries [OF assms(1,3)])
  have cl': "closure_of s' w = Some c"
    using closure_of_cong [OF clear_entries_frame(3) [OF assms(3)]] assms(2) by simp
  have cv': "cachedValues s' w \<noteq> None" by (rule wf_closure(2) [OF wf' cl'])
  from clear_entries_ok_state [OF assms] show ?thesis
  proof (elim disjE conjE exE)
    assume "s' = s" "store_of s w ctx = None"
    with assms(3) show ?thesis by simp
  next
    fix m assume "args = ArgsUndefined" "store_of s' w ctx = None"
    with clear_entries_no_store [OF cv', of ctx args env] show ?thesis by simp
  next
    fix m a
    assume a: "args = ArgsArray a"
      and s': "s' = put_store w ctx (TTLMap_delete m (generateKey env a (strictArgMatch c))) s"
    let ?k = "generateKey env a (strictArgMatch c)"
    have st: "store_of s' w ctx = Some (TTLMap_delete m ?k)"
      by (simp add: s' store_of_put_store)
    from clear_key [OF wf' cl' st, of env a]
    have "clear_entries env w ctx (ArgsArray a) s' =
        (Inr (), put_store w ctx (TTLMap_delete m ?k) s')"
      by (simp add: TTLMap_delete_twice)
    with put_store_same [OF st] a show ?thesis by simp
  qed
qed

lemma clear_entries_array_returns:
  assumes "wf s" and "closure_of s w = Some c"
  shows "fst (clear_entries env w ctx (ArgsArray a) s) = Inr ()"
proof (cases "store_of s w ctx")
  case None
  from clear_entries_no_store [OF wf_closure(2) [OF assms] None, of "ArgsArray a" env]
  show ?thesis by simp
next
  case (Some m)
  from clear_key [OF assms Some, of env a] show ?thesis by simp
qed

text \<open>
  C8, as the code has it. clearCache throws the ReferenceError (NotCached) for a function
  that is no wrapper of this module, for a member name the object does not have, and for
  a data member that is no wrapper. Let the member be an accessor, and let the read of
  line 144, which runs its getter, return a value that is no function: then the third
  argument is ignored, so that clearCache does what it does without one; it throws the
  ReferenceError when the getter is no wrapper; and when the getter is a wrapper it
  returns whatever the third argument was, which is never validated. Given a wrapper \<open>w\<close>
  directly, or an object whose data member is the wrapper, it works on the store of
  \<open>noThis\<close> or of the object as lines 161 to 173 say, and then: an argument list that is
  neither \<open>undefined\<close>, \<open>null\<close> nor an array gets the TypeError (InvalidArgument); for an
  argument list that is \<open>undefined\<close> or an array, with no store for the receiver, or with
  an array and a store that holds nothing under its key, the call returns and leaves the
  whole state as it is; and a clear with such an argument list that has returned can be
  repeated and changes nothing more.
\<close>

theorem clear_errors:
  assumes "wf s"
  shows
    "(closure_of s (JFun f) = None \<longrightarrow>
        clearCache env (JFun f) x y s = (Inl (ReferenceError ''Function is not cached.''), s) \<and>
        NotCached (ReferenceError ''Function is not cached.'')) \<and>
     (property env n name = None \<longrightarrow>
        clearCache env (JObj n) (JStr name) x s =
          (Inl (ReferenceError (''Could not find a method named '' @ [CHR 0x27] @ name @ [CHR 0x27])), s) \<and>
        NotCached (ReferenceError (''Could not find a method named '' @ [CHR 0x27] @ name @ [CHR 0x27]))) \<and>
     (\<forall>v. property env n name = Some (Data v) \<longrightarrow> closure_of s v = None \<longrightarrow>
        clearCache env (JObj n) (JStr name) x s =
          (Inl (ReferenceError ''Function is not cached.''), s)) \<and>
     (\<forall>g member s1. property env n name = Some (Accessor g) \<longrightarrow>
        read_property env n name s = (Inr member, s1) \<longrightarrow> typeof member \<noteq> ''function'' \<longrightarrow>
        clearCache env (JObj n) (JStr name) x s = clearCache env (JObj n) (JStr name) JUndefined s \<and>
        (closure_of s g = None \<longrightarrow>
           clearCache env (JObj n) (JStr name) x s =
             (Inl (ReferenceError ''Function is not cached.''), s1)) \<and>
        (\<forall>c. closure_of s g = Some c \<longrightarrow>
           fst (clearCache env (JObj n) (JStr name) x s) = Inr ())) \<and>
     (\<forall>w c. closure_of s w = Some c \<longrightarrow>
        clearCache env w x y s = clear_entries env w noThis (view_args env x) s \<and>
        (property env n name = Some (Data w) \<longrightarrow>
           clearCache env (JObj n) (JStr name) x s =
             clear_entries env w (This (JObj n)) (view_args env x) s) \<and>
        (\<forall>ctx args.
           (args = ArgsOther \<longrightarrow>
              clear_entries env w ctx args s =
                (Inl (TypeError ''Arguments must be passed as an array''), s) \<and>
              InvalidArgument (TypeError ''Arguments must be passed as an array'')) \<and>
           (args \<noteq> ArgsOther \<longrightarrow> args \<noteq> ArgsNull \<longrightarrow> store_of s w ctx = None \<longrightarrow>
              clear_entries env w ctx args s = (Inr (), s)) \<and>
           (\<forall>a. args = ArgsArray a \<longrightarrow>
              entry s w ctx (generateKey env a (strictArgMatch c)) = (None, None) \<longrightarrow>
              clear_entries env w ctx args s = (Inr (), s)) \<and>
           (\<forall>s'. args \<noteq> ArgsOther \<longrightarrow> args \<noteq> ArgsNull \<longrightarrow>
              clear_entries env w ctx args s = (Inr (), s') \<longrightarrow>
              clear_entries env w ctx args s' = (Inr (), s'))))"
proof (intro conjI allI impI)
  show "NotCached (ReferenceError ''Function is not cached.'')"
    and "NotCached (ReferenceError (''Could not find a method named '' @ [CHR 0x27] @ name @ [CHR 0x27]))"
    and "InvalidArgument (TypeError ''Arguments must be passed as an array'')"
    by simp_all
next
  assume "closure_of s (JFun f) = None"
  from wf_not_cached [OF assms this]
  show "clearCache env (JFun f) x y s = (Inl (ReferenceError ''Function is not cached.''), s)"
    by (simp add: clearCache_function clear_entries_not_cached)
next
  assume "property env n name = None"
  then show "clearCache env (JObj n) (JStr name) x s =
      (Inl (ReferenceError (''Could not find a method named '' @ [CHR 0x27] @ name @ [CHR 0x27])), s)"
    by (simp add: clearCache_def read_property_def)
next
  fix v assume p: "property env n name = Some (Data v)" and c: "closure_of s v = None"
  have u: "cachedValues s JUndefined = None"
    by (rule wf_not_cached [OF assms]) (simp add: closure_of_def)
  from p wf_not_cached [OF assms c] u
  show "clearCache env (JObj n) (JStr name) x s =
      (Inl (ReferenceError ''Function is not cached.''), s)"
    by (simp add: clearCache_def read_property_def clear_entries_not_cached)
next
  fix g member s1
  assume p: "property env n name = Some (Accessor g)"
    and rd: "read_property env n name s = (Inr member, s1)"
    and ty: "typeof member \<noteq> ''function''"
  have sh: "clearCache env (JObj n) (JStr name) z s =
      clear_entries env g (This (JObj n)) (ArgsArray []) s1" for z
    using p rd ty by (simp add: clearCache_def)
  show "clearCache env (JObj n) (JStr name) x s = clearCache env (JObj n) (JStr name) JUndefined s"
    by (simp only: sh)
  have wf1: "wf s1" by (rule wf_read_property [OF assms rd])
  {
    assume c: "closure_of s g = None"
    have "closure_of s1 g = None"
      using closure_of_cong [OF read_property_closures [OF rd]] c by simp
    with wf1 have "cachedValues s1 g = None" by (rule wf_not_cached)
    then show "clearCache env (JObj n) (JStr name) x s =
        (Inl (ReferenceError ''Function is not cached.''), s1)"
      by (simp add: sh clear_entries_not_cached)
  }
  {
    fix c assume c: "closure_of s g = Some c"
    have "closure_of s1 g = Some c"
      using closure_of_cong [OF read_property_closures [OF rd]] c by simp
    from clear_entries_array_returns [OF wf1 this]
    show "fst (clearCache env (JObj n) (JStr name) x s) = Inr ()"
      by (simp only: sh)
  }
next
  fix w c assume c: "closure_of s w = Some c"
  from closure_is_function [OF c] obtain f where w: "w = JFun f" by blast
  show "clearCache env w x y s = clear_entries env w noThis (view_args env x) s"
    by (simp add: w clearCache_function)
  {
    assume "property env n name = Some (Data w)"
    then show "clearCache env (JObj n) (JStr name) x s =
        clear_entries env w (This (JObj n)) (view_args env x) s"
      by (simp add: w clearCache_method)
  }
  note cv = wf_closure(2) [OF assms c]
  fix ctx args
  {
    assume "args = ArgsOther"
    with clear_entries_not_array [OF cv]
    show "clear_entries env w ctx args s =
        (Inl (TypeError ''Arguments must be passed as an array''), s)"
      by simp
  }
  {
    assume "args \<noteq> ArgsOther" "store_of s w ctx = None"
    with clear_entries_no_store [OF cv]
    show "clear_entries env w ctx args s = (Inr (), s)" by simp
  }
  {
    fix a
    assume a: "args = ArgsArray a"
      and e: "entry s w ctx (generateKey env a (strictArgMatch c)) = (None, None)"
    show "clear_entries env w ctx args s = (Inr (), s)"
    proof (cases "store_of s w ctx")
      case None
      with clear_entries_no_store [OF cv None, of args env] a show ?thesis by simp
    next
      case (Some m)
      with e have "TTLMap_delete m (generateKey env a (strictArgMatch c)) = m"
        by (simp add: entry_def TTLMap_delete_absent)
      with clear_key [OF assms c Some, of env a] put_store_same [OF Some] a
      show ?thesis by simp
    qed
  }
  {
    fix s' assume "clear_entries env w ctx args s = (Inr (), s')"
    then show "clear_entries env w ctx args s' = (Inr (), s')"
      by (rule clear_entries_idempotent [OF assms c])
  }
qed

lemma wf_s_method1: "wf s_method1"
  by (rule wf_call [OF wf_s_method call_method1])

lemma s_method1_facts:
  "closure_of s_method1 (JFun (Wrapped 0)) =
     Some \<lparr>valueGetter = JFun (Plain 7), strictArgMatch = JBool True,
        ttl = JUndefined, cachedFunction = JFun (Wrapped 0)\<rparr>"
  "closure_of s_method1 (JFun (Plain 2)) = None"
  "store_of s_method1 (JFun (Wrapped 0)) noThis = None"
  "store_of s_method1 (JFun (Wrapped 0)) (This (JObj 7)) = None"
  "store_of s_method1 (JFun (Wrapped 0)) (This (JObj 6)) =
     Some \<lparr>m_values = [[] \<mapsto> JStr ''value1''], m_ttls = Map.empty\<rparr>"
  "closure_of s_method1 (JFun (Plain 1)) = None"
  by (simp_all add: s_method1_def s_method_eq eval_defs)

lemma test_heap_facts:
  "property test_env 6 ''data'' = Some (Data (JFun (Wrapped 0)))"
  "property test_env 7 ''data'' = Some (Data (JFun (Wrapped 0)))"
  "property test_env 8 ''data'' = Some (Accessor (JFun (Wrapped 0)))"
  "property test_env 6 ''nothing'' = None"
  "view_args test_env (JObj 5) = ArgsArray []"
  "view_args test_env (JObj 3) = ArgsArray [JNum 2, JNum 2]"
  "view_args test_env (JStr ''extra'') = ArgsOther"
  "view_args test_env JUndefined = ArgsUndefined"
  "property test_env 10 ''data'' = Some (Accessor (JFun (Plain 1)))"
  by (simp_all add: test_env_def test_property_def test_elements_def view_args_def)

lemma s_getter_eq:
  "s_getter = \<lparr>cachedFunctions = [JFun (Plain 5) \<mapsto> [[] \<mapsto> JFun (Wrapped 0)]],
     cachedFunctionOptions = [JFun (Wrapped 0) \<mapsto> \<lparr>opt_strictArgMatch = JUndefined, opt_ttl = JUndefined\<rparr>],
     cachedValues = [JFun (Wrapped 0) \<mapsto> Map.empty],
     closures = [0 \<mapsto> \<lparr>valueGetter = JFun (Plain 5), strictArgMatch = JBool True,
        ttl = JUndefined, cachedFunction = JFun (Wrapped 0)\<rparr>],
     next_fn = 1, now = 0, user = 0, calls = []\<rparr>"
  by (simp add: s_getter_def eval_defs)

lemma read_getter:
  "read_property test_env 8 ''data'' s_getter =
     (Inr (JStr ''value''),
      snd (call test_env (JFun (Wrapped 0)) (JObj 8) [] s_getter))"
  by (simp add: read_property_def test_heap_facts prod_eq_iff) (simp add: s_getter_eq eval_defs)

lemma getter_read_state:
  "snd (call test_env (JFun (Wrapped 0)) (JObj 8) [] s_getter) =
     \<lparr>cachedFunctions = [JFun (Plain 5) \<mapsto> [[] \<mapsto> JFun (Wrapped 0)]],
      cachedFunctionOptions = [JFun (Wrapped 0) \<mapsto> \<lparr>opt_strictArgMatch = JUndefined, opt_ttl = JUndefined\<rparr>],
      cachedValues = [JFun (Wrapped 0) \<mapsto>
        [This (JObj 8) \<mapsto> \<lparr>m_values = [[] \<mapsto> JStr ''value''], m_ttls = Map.empty\<rparr>]],
      closures = [0 \<mapsto> \<lparr>valueGetter = JFun (Plain 5), strictArgMatch = JBool True,
        ttl = JUndefined, cachedFunction = JFun (Wrapped 0)\<rparr>],
      next_fn = 1, now = 0, user = 1, calls = [(JFun (Plain 5), JObj 8, [])]\<rparr>"
  by (simp add: s_getter_eq eval_defs)

lemma clear_getter_eval:
  "clearCache test_env (JObj 8) (JStr ''data'') x s_getter =
     clear_entries test_env (JFun (Wrapped 0)) (This (JObj 8)) (ArgsArray [])
       (snd (call test_env (JFun (Wrapped 0)) (JObj 8) [] s_getter))"
  by (simp add: clearCache_def read_getter test_heap_facts)

lemma read_plain_getter:
  "read_property test_env 10 ''data'' s =
     (Inr (JStr ''value''), snd (read_property test_env 10 ''data'' s))"
  by (simp add: read_property_def test_heap_facts prod_eq_iff)
     (simp add: call_def apply_body_def test_env_def split: prod.splits)

theorem clear_errors_witness:
  "clearCache test_env (JFun (Plain 2)) JUndefined JUndefined s_method1 =
     (Inl (ReferenceError ''Function is not cached.''), s_method1) \<and>
   clearCache test_env (JObj 6) (JStr ''nothing'') JUndefined s_method1 =
     (Inl (ReferenceError (''Could not find a method named '' @ [CHR 0x27] @ ''nothing'' @ [CHR 0x27])),
      s_method1) \<and>
   clearCache test_env (JFun (Wrapped 0)) (JStr ''extra'') JUndefined s_method1 =
     (Inl (TypeError ''Arguments must be passed as an array''), s_method1) \<and>
   clearCache test_env (JObj 6) (JStr ''data'') (JStr ''extra'') s_method1 =
     (Inl (TypeError ''Arguments must be passed as an array''), s_method1) \<and>
   clearCache test_env (JFun (Wrapped 0)) (JObj 5) JUndefined s_method1 = (Inr (), s_method1) \<and>
   clearCache test_env (JObj 7) (JStr ''data'') (JObj 5) s_method1 = (Inr (), s_method1) \<and>
   fst (clearCache test_env (JObj 6) (JStr ''data'') (JObj 5) s_method1) = Inr () \<and>
   clearCache test_env (JObj 6) (JStr ''data'') (JObj 5)
       (snd (clearCache test_env (JObj 6) (JStr ''data'') (JObj 5) s_method1)) =
     (Inr (), snd (clearCache test_env (JObj 6) (JStr ''data'') (JObj 5) s_method1)) \<and>
   clearCache test_env (JObj 10) (JStr ''data'') JUndefined s_method1 =
     (Inl (ReferenceError ''Function is not cached.''),
      snd (read_property test_env 10 ''data'' s_method1)) \<and>
   clearCache test_env (JObj 8) (JStr ''data'') (JStr ''extra'') s_getter =
     clearCache test_env (JObj 8) (JStr ''data'') JUndefined s_getter \<and>
   fst (clearCache test_env (JObj 8) (JStr ''data'') (JStr ''extra'') s_getter) = Inr ()"
proof -
  let ?w = "JFun (Wrapped 0)"
  let ?c = "\<lparr>valueGetter = JFun (Plain 7), strictArgMatch = JBool True,
        ttl = JUndefined, cachedFunction = JFun (Wrapped 0)\<rparr>"
  note f = s_method1_facts
  note h = test_heap_facts
  note th = clear_errors [OF wf_s_method1, where env = test_env]
  from th [where f = "Plain 2" and x = JUndefined and y = JUndefined] f(2)
  have 1: "clearCache test_env (JFun (Plain 2)) JUndefined JUndefined s_method1 =
     (Inl (ReferenceError ''Function is not cached.''), s_method1)"
    by blast
  from th [where n = 6 and name = "''nothing''" and x = JUndefined] h(4)
  have 2: "clearCache test_env (JObj 6) (JStr ''nothing'') JUndefined s_method1 =
     (Inl (ReferenceError (''Could not find a method named '' @ [CHR 0x27] @ ''nothing'' @ [CHR 0x27])),
      s_method1)"
    by blast
  note w1 = th [where x = "JStr ''extra''" and y = JUndefined and n = 6 and name = "''data''", THEN conjunct2, THEN conjunct2,
      THEN conjunct2, THEN conjunct2, rule_format, OF f(1)]
  from w1 h(7)
  have 3: "clearCache test_env ?w (JStr ''extra'') JUndefined s_method1 =
     (Inl (TypeError ''Arguments must be passed as an array''), s_method1)"
    by simp
  from w1 h(1,7)
  have 4: "clearCache test_env (JObj 6) (JStr ''data'') (JStr ''extra'') s_method1 =
     (Inl (TypeError ''Arguments must be passed as an array''), s_method1)"
    by simp
  note w2 = th [where x = "JObj 5" and y = JUndefined and n = 7 and name = "''data''", THEN conjunct2, THEN conjunct2,
      THEN conjunct2, THEN conjunct2, rule_format, OF f(1)]
  from w2 h(5) f(3)
  have 5: "clearCache test_env ?w (JObj 5) JUndefined s_method1 = (Inr (), s_method1)"
    by simp
  from w2 h(2,5) f(4)
  have 6: "clearCache test_env (JObj 7) (JStr ''data'') (JObj 5) s_method1 = (Inr (), s_method1)"
    by simp
  note w3 = th [where x = "JObj 5" and y = JUndefined and n = 6 and name = "''data''", THEN conjunct2, THEN conjunct2,
      THEN conjunct2, THEN conjunct2, rule_format, OF f(1)]
  let ?s' = "snd (clearCache test_env (JObj 6) (JStr ''data'') (JObj 5) s_method1)"
  have sh: "clearCache test_env (JObj 6) (JStr ''data'') (JObj 5) s =
      clear_entries test_env ?w (This (JObj 6)) (ArgsArray []) s" for s :: "nat state"
    using clearCache_method [OF h(1), of "JObj 5" s] by (simp add: h(5))
  have 7: "fst (clearCache test_env (JObj 6) (JStr ''data'') (JObj 5) s_method1) = Inr ()"
    using clear_key [OF wf_s_method1 f(1) f(5), of test_env "[]"] by (simp add: sh)
  then have "clear_entries test_env ?w (This (JObj 6)) (ArgsArray []) s_method1 = (Inr (), ?s')"
    by (simp add: sh prod_eq_iff)
  with w3 have "clear_entries test_env ?w (This (JObj 6)) (ArgsArray []) ?s' = (Inr (), ?s')"
    by blast
  then have 8: "clearCache test_env (JObj 6) (JStr ''data'') (JObj 5) ?s' = (Inr (), ?s')"
    by (simp only: sh)
  have ty: "typeof (JStr ''value'') \<noteq> ''function''" by simp
  note a1 = th [where x = JUndefined and n = 10 and name = "''data''", THEN conjunct2,
      THEN conjunct2, THEN conjunct2, THEN conjunct1, rule_format, OF h(9) read_plain_getter ty]
  from a1 f(6)
  have 9: "clearCache test_env (JObj 10) (JStr ''data'') JUndefined s_method1 =
     (Inl (ReferenceError ''Function is not cached.''),
      snd (read_property test_env 10 ''data'' s_method1))"
    by blast
  have wfg: "wf s_getter"
    unfolding s_getter_def by (rule wf_CachedFunction [OF wf_init]) (rule surjective_pairing)
  have cg: "closure_of s_getter ?w = Some \<lparr>valueGetter = JFun (Plain 5), strictArgMatch = JBool True,
        ttl = JUndefined, cachedFunction = JFun (Wrapped 0)\<rparr>"
    by (simp add: s_getter_eq closure_of_def)
  note a2 = clear_errors [OF wfg, where env = test_env and x = "JStr ''extra''" and n = 8
      and name = "''data''", THEN conjunct2,
      THEN conjunct2, THEN conjunct2, THEN conjunct1, rule_format, OF h(3) read_getter ty]
  from a2
  have 10: "clearCache test_env (JObj 8) (JStr ''data'') (JStr ''extra'') s_getter =
     clearCache test_env (JObj 8) (JStr ''data'') JUndefined s_getter"
    by blast
  from a2 cg
  have 11: "fst (clearCache test_env (JObj 8) (JStr ''data'') (JStr ''extra'') s_getter) = Inr ()"
    by blast
  from 1 2 3 4 5 6 7 8 9 10 11 show ?thesis by (intro conjI)
qed

text \<open>
  The claim as it was written fails for a member that is an accessor: an argument list
  that is no array raises nothing there, and the clear of a key that is not stored is no
  silent no-op, for line 144 reads the property and so runs the getter.
\<close>

theorem clear_errors_counterexample:
  "view_args test_env (JStr ''extra'') = ArgsOther \<and>
   fst (clearCache test_env (JObj 8) (JStr ''data'') (JStr ''extra'') s_getter) = Inr () \<and>
   entry s_getter (JFun (Wrapped 0)) (This (JObj 8)) [] = (None, None) \<and>
   calls s_getter = [] \<and>
   calls (snd (clearCache test_env (JObj 8) (JStr ''data'') (JObj 5) s_getter)) =
     [(JFun (Plain 5), JObj 8, [])]"
proof -
  have 1: "fst (clearCache test_env (JObj 8) (JStr ''data'') x s_getter) = Inr ()"
    and 2: "calls (snd (clearCache test_env (JObj 8) (JStr ''data'') x s_getter)) =
      [(JFun (Plain 5), JObj 8, [])]" for x
    by (simp_all add: clear_getter_eval getter_read_state clear_entries_def put_store_def)
  have 3: "entry s_getter (JFun (Wrapped 0)) (This (JObj 8)) [] = (None, None)"
    and 4: "calls s_getter = []"
    by (simp_all add: s_getter_eq entry_def store_of_def)
  from test_heap_facts(7) 1 3 4 2 show ?thesis by (intro conjI)
qed

section \<open>C10: clearing a getter\<close>

lemma generateKey_Nil: "generateKey env [] x = []"
  by (simp add: generateKey_def Let_def)

text \<open>
  C10. Let the member \<open>name\<close> of the object be an accessor whose getter \<open>g\<close> is a wrapper,
  and let the read of line 144 give a value that is no function. Then whatever the third
  argument \<open>x\<close> is, clearCache does what it does for no third argument: it clears with
  the empty argument list in the store of the object, on the state the read has left.
  The call returns; nothing is stored under the empty key afterwards, every other entry
  of that store and every other store are as the read left them, and the store itself is
  never dropped: neither the clear of a whole store nor the clear of another argument
  list can be asked for. For an object other than the global one the read has left the
  value of the getter under the empty key, and that is the entry removed.
\<close>

theorem getter_clear_ignores_arguments:
  assumes "wf s" and "property env n name = Some (Accessor g)" and "closure_of s g = Some c"
    and "read_property env n name s = (Inr member, s1)" and "typeof member \<noteq> ''function''"
  shows "clearCache env (JObj n) (JStr name) x s =
       clear_entries env g (This (JObj n)) (ArgsArray []) s1 \<and>
     clearCache env (JObj n) (JStr name) x s = clearCache env (JObj n) (JStr name) JUndefined s \<and>
     generateKey env [] (strictArgMatch c) = [] \<and>
     (JObj n \<noteq> global \<longrightarrow> lookup s1 g (This (JObj n)) [] = Some member) \<and>
     (\<exists>s2. clearCache env (JObj n) (JStr name) x s = (Inr (), s2) \<and>
        entry s2 g (This (JObj n)) [] = (None, None) \<and>
        (\<forall>k. k \<noteq> [] \<longrightarrow> entry s2 g (This (JObj n)) k = entry s1 g (This (JObj n)) k) \<and>
        (store_of s2 g (This (JObj n)) = None \<longleftrightarrow> store_of s1 g (This (JObj n)) = None) \<and>
        (\<forall>f ctx. f \<noteq> g \<or> ctx \<noteq> This (JObj n) \<longrightarrow> store_of s2 f ctx = store_of s1 f ctx) \<and>
        calls s2 = calls s1)"
proof -
  let ?ctx = "This (JObj n)"
  have shape: "clearCache env (JObj n) (JStr name) z s =
      clear_entries env g ?ctx (ArgsArray []) s1" for z
    using assms(2,4,5) by (simp add: clearCache_def)
  have rd: "call env g (JObj n) [] s = (Inr member, s1)"
    using assms(2,4) by (simp add: read_property_def)
  note after = call_then_cached [OF assms(1,3) rd]
  have k: "generateKey env [] (strictArgMatch c) = []" by (rule generateKey_Nil)
  have lk: "JObj n \<noteq> global \<longrightarrow> lookup s1 g ?ctx [] = Some member"
    using after(1) by (auto simp: k context_of_def)
  have cv: "cachedValues s1 g \<noteq> None" by (rule wf_closure(2) [OF after(3) after(2)])
  have ex: "\<exists>s2. clear_entries env g ?ctx (ArgsArray []) s1 = (Inr (), s2) \<and>
        entry s2 g ?ctx [] = (None, None) \<and>
        (\<forall>k. k \<noteq> [] \<longrightarrow> entry s2 g ?ctx k = entry s1 g ?ctx k) \<and>
        (store_of s2 g ?ctx = None \<longleftrightarrow> store_of s1 g ?ctx = None) \<and>
        (\<forall>f ctx. f \<noteq> g \<or> ctx \<noteq> ?ctx \<longrightarrow> store_of s2 f ctx = store_of s1 f ctx) \<and>
        calls s2 = calls s1"
  proof (cases "store_of s1 g ?ctx")
    case None
    from clear_entries_no_store [OF cv None, of "ArgsArray []" env]
    have ce: "clear_entries env g ?ctx (ArgsArray []) s1 = (Inr (), s1)" by simp
    have e0: "entry s1 g ?ctx [] = (None, None)" using None by (simp add: entry_def)
    show ?thesis
      by (rule exI [of _ s1]) (simp add: ce e0)
  next
    case (Some m)
    let ?s2 = "put_store g ?ctx (TTLMap_delete m []) s1"
    from clear_key [OF after(3) after(2) Some, of env "[]"]
    have ce: "clear_entries env g ?ctx (ArgsArray []) s1 = (Inr (), ?s2)" by (simp add: k)
    have e1: "entry s1 g ?ctx k' = (m_values m k', m_ttls m k')" for k'
      by (simp add: entry_def Some)
    show ?thesis
    proof (rule exI [of _ ?s2], intro conjI)
      show "clear_entries env g ?ctx (ArgsArray []) s1 = (Inr (), ?s2)" by (rule ce)
      show "entry ?s2 g ?ctx [] = (None, None)"
        by (simp add: entry_put_store TTLMap_delete_same)
      show "\<forall>k'. k' \<noteq> [] \<longrightarrow> entry ?s2 g ?ctx k' = entry s1 g ?ctx k'"
        by (simp add: entry_put_store TTLMap_delete_other e1)
      show "store_of ?s2 g ?ctx = None \<longleftrightarrow> store_of s1 g ?ctx = None"
        by (simp add: store_of_put_store Some)
      show "\<forall>f ctx. f \<noteq> g \<or> ctx \<noteq> ?ctx \<longrightarrow> store_of ?s2 f ctx = store_of s1 f ctx"
        by (simp add: store_of_put_store)
      show "calls ?s2 = calls s1" by (simp add: put_store_frame)
    qed
  qed
  have "clearCache env (JObj n) (JStr name) x s =
       clear_entries env g (This (JObj n)) (ArgsArray []) s1"
    by (rule shape)
  moreover have "clearCache env (JObj n) (JStr name) x s = clearCache env (JObj n) (JStr name) JUndefined s"
    by (simp only: shape)
  moreover note k lk
  moreover have "\<exists>s2. clearCache env (JObj n) (JStr name) x s = (Inr (), s2) \<and>
        entry s2 g (This (JObj n)) [] = (None, None) \<and>
        (\<forall>k. k \<noteq> [] \<longrightarrow> entry s2 g (This (JObj n)) k = entry s1 g (This (JObj n)) k) \<and>
        (store_of s2 g (This (JObj n)) = None \<longleftrightarrow> store_of s1 g (This (JObj n)) = None) \<and>
        (\<forall>f ctx. f \<noteq> g \<or> ctx \<noteq> This (JObj n) \<longrightarrow> store_of s2 f ctx = store_of s1 f ctx) \<and>
        calls s2 = calls s1"
    unfolding shape by (rule ex)
  ultimately show ?thesis by (intro conjI)
qed

lemma wf_s_getter: "wf s_getter"
  unfolding s_getter_def
  by (rule wf_CachedFunction [OF wf_init]) (rule surjective_pairing)

theorem getter_clear_ignores_arguments_witness:
  "read_property test_env 8 ''data'' s_getter =
     (Inr (JStr ''value''), snd (call test_env (JFun (Wrapped 0)) (JObj 8) [] s_getter)) \<and>
   clearCache test_env (JObj 8) (JStr ''data'') (JObj 3) s_getter =
     clearCache test_env (JObj 8) (JStr ''data'') JUndefined s_getter \<and>
   lookup (snd (call test_env (JFun (Wrapped 0)) (JObj 8) [] s_getter))
     (JFun (Wrapped 0)) (This (JObj 8)) [] = Some (JStr ''value'') \<and>
   fst (clearCache test_env (JObj 8) (JStr ''data'') (JObj 3) s_getter) = Inr () \<and>
   entry (snd (clearCache test_env (JObj 8) (JStr ''data'') (JObj 3) s_getter))
     (JFun (Wrapped 0)) (This (JObj 8)) [] = (None, None) \<and>
   store_of (snd (clearCache test_env (JObj 8) (JStr ''data'') (JObj 3) s_getter))
     (JFun (Wrapped 0)) (This (JObj 8)) \<noteq> None"
proof -
  let ?c = "\<lparr>valueGetter = JFun (Plain 5), strictArgMatch = JBool True,
        ttl = JUndefined, cachedFunction = JFun (Wrapped 0)\<rparr>"
  let ?w = "JFun (Wrapped 0)"
  let ?s1 = "snd (call test_env ?w (JObj 8) [] s_getter)"
  have c: "closure_of s_getter ?w = Some ?c" by (simp add: s_getter_eq closure_of_def)
  have ty: "typeof (JStr ''value'') \<noteq> ''function''" by simp
  have g: "JObj 8 \<noteq> global" by (simp add: global_def)
  note th = getter_clear_ignores_arguments [OF wf_s_getter test_heap_facts(3) c read_getter ty,
      of "JObj 3"]
  have 1: "clearCache test_env (JObj 8) (JStr ''data'') (JObj 3) s_getter =
     clearCache test_env (JObj 8) (JStr ''data'') JUndefined s_getter"
    by (rule th [THEN conjunct2, THEN conjunct1])
  have 2: "lookup ?s1 ?w (This (JObj 8)) [] = Some (JStr ''value'')"
    by (rule th [THEN conjunct2, THEN conjunct2, THEN conjunct2, THEN conjunct1, rule_format, OF g])
  from th [THEN conjunct2, THEN conjunct2, THEN conjunct2, THEN conjunct2]
  obtain s2 where all: "clearCache test_env (JObj 8) (JStr ''data'') (JObj 3) s_getter = (Inr (), s2) \<and>
        entry s2 ?w (This (JObj 8)) [] = (None, None) \<and>
        (\<forall>k. k \<noteq> [] \<longrightarrow> entry s2 ?w (This (JObj 8)) k = entry ?s1 ?w (This (JObj 8)) k) \<and>
        (store_of s2 ?w (This (JObj 8)) = None \<longleftrightarrow> store_of ?s1 ?w (This (JObj 8)) = None) \<and>
        (\<forall>f ctx. f \<noteq> ?w \<or> ctx \<noteq> This (JObj 8) \<longrightarrow> store_of s2 f ctx = store_of ?s1 f ctx) \<and>
        calls s2 = calls ?s1" ..
  note s2 = all [THEN conjunct1]
  note e = all [THEN conjunct2, THEN conjunct1]
  note st = all [THEN conjunct2, THEN conjunct2, THEN conjunct2, THEN conjunct1]
  from lookup_store [OF 2] st have "store_of s2 ?w (This (JObj 8)) \<noteq> None" by simp
  with s2 e have 3: "fst (clearCache test_env (JObj 8) (JStr ''data'') (JObj 3) s_getter) = Inr ()"
    and 4: "entry (snd (clearCache test_env (JObj 8) (JStr ''data'') (JObj 3) s_getter))
       ?w (This (JObj 8)) [] = (None, None)"
    and 5: "store_of (snd (clearCache test_env (JObj 8) (JStr ''data'') (JObj 3) s_getter))
       ?w (This (JObj 8)) \<noteq> None"
    by simp_all
  from read_getter 1 2 3 4 5 show ?thesis by (intro conjI)
qed

end
